(* ===== verification/Prelude.thy ===== *)
theory Prelude
  imports Main "HOL-Library.Word" "HOL-Library.Multiset"
begin

text \<open>
  What the components of the development share: the machine types of the C sources, the
  result type of code that may fail an \<^verbatim>\<open>assert\<close>, dereference a null pointer, index out of
  bounds or leave by \<^verbatim>\<open>longjmp\<close>, and the generic facts on lists and words that the component
  proofs use. The collection \<open>exec_simps\<close> holds the rewrite rules that evaluate sequenced
  executions, \<open>exec_elims\<close> the case rules that take a successful execution apart.
\<close>

unbundle bit_operations_syntax

named_theorems exec_simps \<open>evaluation of sequenced executions\<close>
named_theorems exec_elims \<open>inversion of successful executions\<close>

section \<open>Machine types\<close>

type_synonym u8 = "8 word"
type_synonym u16 = "16 word"
type_synonym u32 = "32 word"
type_synonym u64 = "64 word"

text \<open>A character constant of the C source, as a byte.\<close>

abbreviation chr :: "char \<Rightarrow> u8" where
  "chr c \<equiv> of_char c"

section \<open>Executions\<close>

text \<open>
  The ways C code stops that are not a return: a failed \<^verbatim>\<open>assert\<close>, a null pointer
  dereference, an access outside an array.
\<close>

datatype fault = AssertFail | NullDeref | OutOfBounds

text \<open>
  The result of running stateful code: \<open>Ret\<close> with a value and the new state; \<open>Jump\<close> when
  it left by \<^verbatim>\<open>longjmp\<close>, with the identity of the \<^verbatim>\<open>jmp_buf\<close>, the value passed and the state;
  \<open>Fault\<close> when it stopped the process.
\<close>

datatype ('s, 'a) exec = Ret 'a 's | Jump nat nat 's | Fault fault

definition exec_bind :: "('s, 'a) exec \<Rightarrow> ('a \<Rightarrow> 's \<Rightarrow> ('s, 'b) exec) \<Rightarrow> ('s, 'b) exec" where
  "exec_bind m f =
     (case m of Ret a s \<Rightarrow> f a s | Jump j rc s \<Rightarrow> Jump j rc s | Fault e \<Rightarrow> Fault e)"

definition exec_assert :: "bool \<Rightarrow> ('s, 'a) exec \<Rightarrow> ('s, 'a) exec" where
  "exec_assert b m = (if b then m else Fault AssertFail)"

lemma exec_bind_simps [simp, exec_simps]:
  "exec_bind (Ret a s) f = f a s"
  "exec_bind (Jump j rc s) f = Jump j rc s"
  "exec_bind (Fault e) f = Fault e"
  by (simp_all add: exec_bind_def)

lemma exec_bind_RetE [elim!, exec_elims]:
  assumes "exec_bind m f = Ret b t"
  obtains a s where "m = Ret a s" and "f a s = Ret b t"
  using assms by (cases m) auto

lemma exec_bind_JumpE [exec_elims]:
  assumes "exec_bind m f = Jump j rc t"
  obtains "m = Jump j rc t" | a s where "m = Ret a s" and "f a s = Jump j rc t"
  using assms by (cases m) auto

lemma exec_assert_simps [simp, exec_simps]:
  "exec_assert True m = m"
  "exec_assert False m = Fault AssertFail"
  by (simp_all add: exec_assert_def)

lemma exec_assert_RetD [simp]:
  "exec_assert b m = Ret a s \<longleftrightarrow> b \<and> m = Ret a s"
  by (simp add: exec_assert_def)

lemma exec_assert_JumpD [simp]:
  "exec_assert b m = Jump j rc s \<longleftrightarrow> b \<and> m = Jump j rc s"
  by (simp add: exec_assert_def)

section \<open>Results without state\<close>

text \<open>Code that only reads, or only changes the buffer it returns: a fault or a value.\<close>

definition rbind :: "fault + 'a \<Rightarrow> ('a \<Rightarrow> fault + 'b) \<Rightarrow> fault + 'b" where
  "rbind x f = (case x of Inl e \<Rightarrow> Inl e | Inr a \<Rightarrow> f a)"

definition rmap :: "('a \<Rightarrow> 'b) \<Rightarrow> fault + 'a \<Rightarrow> fault + 'b" where
  "rmap f x = rbind x (\<lambda>a. Inr (f a))"

lemma rbind_simps [simp]: "rbind (Inl e) f = Inl e" "rbind (Inr a) f = f a"
  by (simp_all add: rbind_def)

lemma rmap_simps [simp]: "rmap f (Inl e) = Inl e" "rmap f (Inr a) = Inr (f a)"
  by (simp_all add: rmap_def)

lemma rbind_InrE:
  assumes "rbind x f = Inr b"
  obtains a where "x = Inr a" and "f a = Inr b"
  using assms by (cases x) auto

lemma rmap_InrE:
  assumes "rmap f x = Inr b"
  obtains a where "x = Inr a" and "b = f a"
  using assms by (cases x) auto

lemma rmap_rmap [simp]: "rmap f (rmap g x) = rmap (\<lambda>a. f (g a)) x"
  by (cases x) auto

section \<open>Lists\<close>

text \<open>The non-zero entries of an array, as a multiset: what a table of addresses holds.\<close>

definition entries :: "'a::zero list \<Rightarrow> 'a multiset" where
  "entries xs = mset (filter (\<lambda>x. x \<noteq> 0) xs)"

lemma entries_simps [simp]:
  "entries [] = {#}"
  "entries (x # xs) = (if x = 0 then entries xs else add_mset x (entries xs))"
  by (simp_all add: entries_def)

lemma entries_empty_iff: "entries xs = {#} \<longleftrightarrow> (\<forall>x \<in> set xs. x = 0)"
  by (induction xs) auto

lemma entries_replicate [simp]: "entries (replicate n 0) = {#}"
  by (simp add: entries_empty_iff)

lemma entries_fill:
  "i < length xs \<Longrightarrow> xs ! i = 0 \<Longrightarrow> v \<noteq> 0 \<Longrightarrow> entries (xs[i := v]) = add_mset v (entries xs)"
  by (induction xs arbitrary: i) (auto split: nat.splits)

lemma entries_clear:
  "i < length xs \<Longrightarrow> xs ! i \<noteq> 0 \<Longrightarrow> entries xs = add_mset (xs ! i) (entries (xs[i := 0]))"
  by (induction xs arbitrary: i) (auto split: nat.splits)

lemma sum_list_update_add:
  fixes xs :: "'a::cancel_comm_monoid_add list"
  assumes "i < length xs"
  shows "sum_list (xs[i := v]) + xs ! i = sum_list xs + v"
  using assms
proof (induction xs arbitrary: i)
  case (Cons x xs)
  then show ?case
    by (cases i) (auto simp: ac_simps)
qed simp

lemma in_sum_list_mset: "i < length xs \<Longrightarrow> x \<in># xs ! i \<Longrightarrow> x \<in># sum_list xs"
  by (induction xs arbitrary: i) (auto simp: nth_Cons split: nat.splits)

lemma sum_list_replicate_empty [simp]: "sum_list (replicate n {#}) = {#}"
  by (induction n) auto

lemma sum_list_all_empty: "\<forall>x \<in> set xs. x = {#} \<Longrightarrow> sum_list xs = {#}"
  by (induction xs) auto

lemma ball_list_update:
  "\<forall>x \<in> set xs. P x \<Longrightarrow> P v \<Longrightarrow> \<forall>x \<in> set (xs[i := v]). P x"
  using set_update_subset_insert by fastforce

text \<open>The first index of a value in an array, as the linear searches of the code find it.\<close>

fun index_of :: "'a \<Rightarrow> 'a list \<Rightarrow> nat option" where
  "index_of x [] = None"
| "index_of x (y # ys) = (if y = x then Some 0 else map_option Suc (index_of x ys))"

lemma index_of_SomeD: "index_of x xs = Some i \<Longrightarrow> i < length xs \<and> xs ! i = x"
  by (induction xs arbitrary: i) (auto split: if_splits)

lemma index_of_first: "index_of x xs = Some i \<Longrightarrow> j < i \<Longrightarrow> xs ! j \<noteq> x"
proof (induction xs arbitrary: i j)
  case (Cons y ys)
  then show ?case by (cases j) (auto split: if_splits)
qed simp

lemma index_of_None_iff: "index_of x xs = None \<longleftrightarrow> x \<notin> set xs"
  by (induction xs) auto

lemma index_of_in_set: "x \<in> set xs \<Longrightarrow> \<exists>i. index_of x xs = Some i"
  using index_of_None_iff by fastforce

section \<open>Comparison functions\<close>

text \<open>What the searching and sorting functions ask of the comparison function they are given.\<close>

definition total_preorder :: "('e \<Rightarrow> 'e \<Rightarrow> int) \<Rightarrow> bool" where
  "total_preorder cmp \<longleftrightarrow>
     (\<forall>x y. sgn (cmp y x) = - sgn (cmp x y)) \<and> (\<forall>x y z. cmp x y \<le> 0 \<longrightarrow> cmp y z \<le> 0 \<longrightarrow> cmp x z \<le> 0)"

lemma total_preorder_sign:
  assumes "total_preorder cmp"
  shows "cmp y x < 0 \<longleftrightarrow> 0 < cmp x y" "cmp y x \<le> 0 \<longleftrightarrow> 0 \<le> cmp x y" "cmp x x = 0"
proof -
  have "sgn (cmp y x) = - sgn (cmp x y)" "sgn (cmp x x) = - sgn (cmp x x)"
    using assms unfolding total_preorder_def by blast+
  then show "cmp y x < 0 \<longleftrightarrow> 0 < cmp x y" "cmp y x \<le> 0 \<longleftrightarrow> 0 \<le> cmp x y" "cmp x x = 0"
    by (auto simp: sgn_if split: if_splits)
qed

lemma total_preorder_trans:
  "total_preorder cmp \<Longrightarrow> cmp x y \<le> 0 \<Longrightarrow> cmp y z \<le> 0 \<Longrightarrow> cmp x z \<le> 0"
  unfolding total_preorder_def by blast

end
