(* ===== verification/Djctx.thy ===== *)
theory Djctx
  imports Prelude
begin

text \<open>
  The swappable contexts of \<^verbatim>\<open>include/libc/djctx.h\<close>: the libc keeps one copy of a component's
  static variables per program handle, and a hook per component that switches between the
  copies. The macro \<^verbatim>\<open>DJ64_DEFINE_SWAPPABLE_CONTEXT3\<close> defines four functions on the static
  pointer \<^verbatim>\<open>c\<close> and the array \<^verbatim>\<open>t_contexts\<close>; each is a definition below. A component either works
  on its context through \<^verbatim>\<open>c\<close> (the one-argument form of the macro) or keeps live variables
  that \<^verbatim>\<open>pre\<close> copies out and \<^verbatim>\<open>post\<close> copies in (the other two forms).
\<close>

definition SW_CTX_MAX :: nat where
  "SW_CTX_MAX = 100"

text \<open>
  \<open>sw_cur\<close> is the static pointer (the index of the context it points at), \<open>sw_contexts\<close> the
  array, \<open>sw_live\<close> the live variables, \<open>sw_init\<close> the macro's initializer, \<open>sw_copies\<close> whether
  \<^verbatim>\<open>pre\<close> and \<^verbatim>\<open>post\<close> copy the live variables.
\<close>

record 'v swctx =
  sw_cur :: "nat option"
  sw_contexts :: "'v list"
  sw_live :: 'v
  sw_init :: 'v
  sw_copies :: bool

text \<open>\<^verbatim>\<open>t_init(idx)\<close>: the context being initialised must not be the current one.\<close>

definition swctx_init :: "nat \<Rightarrow> 'v swctx \<Rightarrow> fault + 'v swctx" where
  "swctx_init idx c =
     (if sw_cur c = Some idx then Inl AssertFail
      else if SW_CTX_MAX \<le> idx then Inl OutOfBounds
      else Inr (c\<lparr>sw_contexts := (sw_contexts c)[idx := sw_init c]\<rparr>))"

definition swctx_deinit :: "'v swctx \<Rightarrow> 'v swctx" where
  "swctx_deinit c = c\<lparr>sw_cur := None\<rparr>"

text \<open>\<^verbatim>\<open>t_save()\<close> runs \<^verbatim>\<open>pre\<close>, which writes the live variables through the pointer.\<close>

definition swctx_save :: "'v swctx \<Rightarrow> fault + 'v swctx" where
  "swctx_save c =
     (if sw_copies c then
        (case sw_cur c of
           None \<Rightarrow> Inl NullDeref
         | Some i \<Rightarrow> Inr (c\<lparr>sw_contexts := (sw_contexts c)[i := sw_live c]\<rparr>))
      else Inr c)"

text \<open>\<^verbatim>\<open>t_restore(idx)\<close> does nothing when the pointer is already at the context.\<close>

definition swctx_restore :: "nat \<Rightarrow> 'v swctx \<Rightarrow> 'v swctx" where
  "swctx_restore idx c =
     (if sw_cur c = Some idx then c
      else if sw_copies c then c\<lparr>sw_cur := Some idx, sw_live := sw_contexts c ! idx\<rparr>
      else c\<lparr>sw_cur := Some idx\<rparr>)"

text \<open>What the component's code reads and writes while a context is current.\<close>

definition swctx_get :: "'v swctx \<Rightarrow> fault + 'v" where
  "swctx_get c =
     (if sw_copies c then Inr (sw_live c)
      else case sw_cur c of None \<Rightarrow> Inl NullDeref | Some i \<Rightarrow> Inr (sw_contexts c ! i))"

definition swctx_put :: "'v \<Rightarrow> 'v swctx \<Rightarrow> fault + 'v swctx" where
  "swctx_put v c =
     (if sw_copies c then Inr (c\<lparr>sw_live := v\<rparr>)
      else case sw_cur c of
             None \<Rightarrow> Inl NullDeref
           | Some i \<Rightarrow> Inr (c\<lparr>sw_contexts := (sw_contexts c)[i := v]\<rparr>))"

text \<open>The array has its declared size and the pointer points into it.\<close>

definition swctx_wf :: "'v swctx \<Rightarrow> bool" where
  "swctx_wf c \<longleftrightarrow> length (sw_contexts c) = SW_CTX_MAX \<and>
     (case sw_cur c of None \<Rightarrow> True | Some i \<Rightarrow> i < SW_CTX_MAX)"

text \<open>
  The contents a program would see if its context were current: the live variables when it
  is, the stored copy otherwise.
\<close>

definition swctx_of :: "nat \<Rightarrow> 'v swctx \<Rightarrow> 'v" where
  "swctx_of h c = (if sw_copies c \<and> sw_cur c = Some h then sw_live c else sw_contexts c ! h)"

text \<open>No live variable differs from its stored copy, so the context may be switched away.\<close>

definition swctx_synced :: "'v swctx \<Rightarrow> bool" where
  "swctx_synced c \<longleftrightarrow> swctx_wf c \<and>
     (case sw_cur c of None \<Rightarrow> True
      | Some i \<Rightarrow> sw_copies c \<longrightarrow> sw_live c = sw_contexts c ! i)"

lemma swctx_synced_wf [simp]: "swctx_synced c \<Longrightarrow> swctx_wf c"
  by (simp add: swctx_synced_def)

lemma swctx_restore_cur [simp]: "sw_cur (swctx_restore h c) = Some h"
  by (simp add: swctx_restore_def)

lemma swctx_restore_wf:
  "swctx_wf c \<Longrightarrow> h < SW_CTX_MAX \<Longrightarrow> swctx_wf (swctx_restore h c)"
  by (auto simp: swctx_wf_def swctx_restore_def)

lemma swctx_save_Inr:
  "swctx_wf c \<Longrightarrow> sw_cur c = Some h \<Longrightarrow>
     \<exists>c'. swctx_save c = Inr c' \<and> swctx_synced c' \<and> swctx_wf c' \<and> sw_cur c' = Some h
       \<and> (\<forall>g. swctx_of g c' = swctx_of g c)"
  by (auto simp: swctx_save_def swctx_wf_def swctx_synced_def swctx_of_def nth_list_update)

lemma swctx_get_of: "sw_cur c = Some h \<Longrightarrow> swctx_get c = Inr (swctx_of h c)"
  by (simp add: swctx_get_def swctx_of_def)

lemma swctx_put_of:
  "swctx_wf c \<Longrightarrow> sw_cur c = Some h \<Longrightarrow>
     \<exists>c'. swctx_put v c = Inr c' \<and> swctx_wf c' \<and> sw_cur c' = Some h
       \<and> swctx_of h c' = v \<and> (\<forall>g. g \<noteq> h \<longrightarrow> swctx_of g c' = swctx_of g c)"
  by (auto simp: swctx_put_def swctx_wf_def swctx_of_def)

section \<open>The hook table\<close>

text \<open>
  The runtime calls the hooks of all components in the order of their registration:
  \<^verbatim>\<open>for (i = 0; i < num_chooks; i++) chooks[i].save();\<close> and the same for the other three. A
  hook that faults stops the loop.
\<close>

fun hooks_run :: "('c \<Rightarrow> fault + 'c) \<Rightarrow> 'c list \<Rightarrow> fault + 'c list" where
  "hooks_run f [] = Inr []"
| "hooks_run f (c # cs) =
     (case f c of
        Inl e \<Rightarrow> Inl e
      | Inr c' \<Rightarrow> (case hooks_run f cs of Inl e \<Rightarrow> Inl e | Inr cs' \<Rightarrow> Inr (c' # cs')))"

lemma hooks_run_length: "hooks_run f cs = Inr cs' \<Longrightarrow> length cs' = length cs"
  by (induction cs arbitrary: cs') (auto split: sum.splits)

text \<open>
  What the runtime relies on when it switches between programs: a locale over the operations
  of one hook, with the laws a hook has to keep, and the facts on the whole table that
  follow from them.
\<close>

locale ctx_hook =
  fixes wf :: "'c \<Rightarrow> bool"
    and synced :: "'c \<Rightarrow> bool"
    and cur :: "'c \<Rightarrow> nat option"
    and content :: "nat \<Rightarrow> 'c \<Rightarrow> 'v"
    and restore :: "nat \<Rightarrow> 'c \<Rightarrow> 'c"
    and save :: "'c \<Rightarrow> fault + 'c"
    and put :: "'v \<Rightarrow> 'c \<Rightarrow> fault + 'c"
  assumes restore_cur: "cur (restore h c) = Some h"
    and restore_wf: "wf c \<Longrightarrow> h < SW_CTX_MAX \<Longrightarrow> wf (restore h c)"
    and restore_content:
      "synced c \<or> cur c \<noteq> Some g \<or> g = h \<Longrightarrow> content g (restore h c) = content g c"
    and save_ok: "wf c \<Longrightarrow> cur c = Some h \<Longrightarrow>
      \<exists>c'. save c = Inr c' \<and> synced c' \<and> wf c' \<and> cur c' = Some h
        \<and> (\<forall>g. content g c' = content g c)"
    and put_ok: "wf c \<Longrightarrow> cur c = Some h \<Longrightarrow>
      \<exists>c'. put v c = Inr c' \<and> wf c' \<and> cur c' = Some h \<and> content h c' = v
        \<and> (\<forall>g. g \<noteq> h \<longrightarrow> content g c' = content g c)"
begin

lemma restore_all_at:
  assumes "\<forall>c \<in> set hs. wf c" and "h < SW_CTX_MAX"
  shows "\<forall>c \<in> set (map (restore h) hs). wf c \<and> cur c = Some h"
  using assms by (simp add: restore_cur restore_wf)

lemma restore_contents:
  assumes "\<forall>c \<in> set hs. synced c \<or> cur c \<noteq> Some g \<or> g = h"
  shows "map (content g) (map (restore h) hs) = map (content g) hs"
  using assms by (simp add: restore_content)

lemma save_all:
  assumes "\<forall>c \<in> set hs. wf c \<and> cur c = Some h"
  obtains hs' where "hooks_run save hs = Inr hs'"
    and "\<forall>c \<in> set hs'. synced c \<and> wf c \<and> cur c = Some h"
    and "\<And>g. map (content g) hs' = map (content g) hs"
proof -
  from assms have "\<exists>hs'. hooks_run save hs = Inr hs'
      \<and> (\<forall>c \<in> set hs'. synced c \<and> wf c \<and> cur c = Some h)
      \<and> (\<forall>g. map (content g) hs' = map (content g) hs)"
  proof (induction hs)
    case (Cons c hs)
    with save_ok [of c h] show ?case by fastforce
  qed simp
  with that show ?thesis by blast
qed

lemma put_nth:
  assumes at: "\<forall>c \<in> set hs. wf c \<and> cur c = Some h" and k: "k < length hs"
  obtains c' where "put v (hs ! k) = Inr c'"
    and "\<forall>c \<in> set (hs[k := c']). wf c \<and> cur c = Some h"
    and "\<And>g. g \<noteq> h \<Longrightarrow> map (content g) (hs[k := c']) = map (content g) hs"
    and "map (content h) (hs[k := c']) = (map (content h) hs)[k := v]"
proof -
  from at k have "wf (hs ! k)" "cur (hs ! k) = Some h" by auto
  from put_ok [OF this, of v] obtain c' where c': "put v (hs ! k) = Inr c'" "wf c'"
    "cur c' = Some h" "content h c' = v" "\<forall>g. g \<noteq> h \<longrightarrow> content g c' = content g (hs ! k)"
    by blast
  have "\<forall>c \<in> set (hs[k := c']). wf c \<and> cur c = Some h"
    by (rule ball_list_update [OF at]) (simp add: c'(2,3))
  moreover have "map (content g) (hs[k := c']) = map (content g) hs" if "g \<noteq> h" for g
    using c'(5) that k by (simp add: map_update list_update_same_conv)
  moreover have "map (content h) (hs[k := c']) = (map (content h) hs)[k := v]"
    using c'(4) by (simp add: map_update)
  ultimately show ?thesis using that c'(1) by blast
qed

end

interpretation sw: ctx_hook swctx_wf swctx_synced sw_cur swctx_of swctx_restore swctx_save swctx_put
proof
  fix c :: "'a swctx" and g h :: nat
  show "swctx_synced c \<or> sw_cur c \<noteq> Some g \<or> g = h \<Longrightarrow>
      swctx_of g (swctx_restore h c) = swctx_of g c"
    by (auto simp: swctx_restore_def swctx_of_def swctx_synced_def)
qed (simp_all add: swctx_restore_wf swctx_save_Inr swctx_put_of)

end
