(* ===== verification/Thunk_State.thy ===== *)
theory Thunk_State
  imports Djctx
begin

text \<open>
  The state of the thunk runtime (\<^verbatim>\<open>src/libc/dj64/thunks.c\<close>) and the operations that set it
  up: registration of a user library's dispatcher and thunk tables, the three init entry
  points the host calls, the hook tables. The host's \<^verbatim>\<open>struct dj64_api\<close> and \<^verbatim>\<open>struct elf_ops\<close>
  are declared in a header of another package, so what they answer is a parameter.
\<close>

definition MAX_DISPS :: nat where "MAX_DISPS = 5"
definition MAX_OBJS :: nat where "MAX_OBJS = 50"
definition MAX_RECUR :: nat where "MAX_RECUR = 10"
definition MAX_HANDLES :: nat where "MAX_HANDLES = 10"
definition MAX_CTX_HOOKS :: nat where "MAX_CTX_HOOKS = 100"
definition MAX_INIT_HOOKS :: nat where "MAX_INIT_HOOKS = 10"
definition DJ64_DYNAPI_VER :: int where "DJ64_DYNAPI_VER = 2"

lemmas max_defs = MAX_DISPS_def MAX_OBJS_def MAX_RECUR_def MAX_HANDLES_def MAX_CTX_HOOKS_def
  MAX_INIT_HOOKS_def DJ64_DYNAPI_VER_def SW_CTX_MAX_def

section \<open>Data\<close>

text \<open>The registers the runtime reads and writes.\<close>

record regs =
  eax :: u32
  ebx :: u32
  ecx :: u32
  edx :: u32
  esi :: u32
  edi :: u32
  ebp :: u32

text \<open>
  \<^verbatim>\<open>struct athunks\<close>: the symbol names and the table of their addresses. \<^verbatim>\<open>num\<close> is the length
  of the names; a table that was freed is empty, so that reading it is out of bounds.
\<close>

record athunks =
  at_names :: "string list"
  at_tab :: "u32 list"

text \<open>A pointer to a \<^verbatim>\<open>struct athunks\<close>: one of the two inside \<^verbatim>\<open>struct udisp\<close>, or a library's own.\<close>

datatype aptr = CoreAt | CorePt | UserAt nat

text \<open>\<^verbatim>\<open>struct elf_ops\<close>: what the host's ELF loader answers.\<close>

record elf_ops =
  elf_open :: "u32 \<Rightarrow> u32 \<Rightarrow> nat option"
  elf_open_dyn :: "int \<Rightarrow> u32 \<Rightarrow> nat option"
  elf_getsym :: "nat \<Rightarrow> string \<Rightarrow> u32"
  elf_parse64 :: "u32 \<Rightarrow> (u32 \<times> u32) option"
  elf_parse64_h :: "int \<Rightarrow> (u32 \<times> u32) option"
  elf_reloc :: "nat \<Rightarrow> u32 \<Rightarrow> u32 \<Rightarrow> u32 \<Rightarrow> int \<times> u32"

datatype elf_event = EOpen nat | EClose nat

record udisp =
  disp :: "nat option list"
  eops :: "elf_ops option"
  at :: "aptr option list"
  pt :: "aptr option list"
  core_at :: athunks
  core_pt :: athunks
  cs :: u32
  main_fn :: "nat option"
  full_init :: bool
  s_regs :: regs
  recur_cnt :: nat
  objcnt :: int
  noret_jmp :: "nat option"
  objs :: "u32 list list"

text \<open>
  The static variables of \<^verbatim>\<open>thunks.c\<close>, the hook table, the memory the DOS program shares with
  the runtime and the list of blocks taken from the DOS heap (\<^verbatim>\<open>malloc32\<close>). \<open>ustore\<close> and
  \<open>ivars\<close> are the library's own \<^verbatim>\<open>struct athunks\<close> and \<^verbatim>\<open>int\<close> variables, by address; \<open>next_jmp\<close>
  names the next \<^verbatim>\<open>jmp_buf\<close>; \<open>elf_log\<close> records which ELF handles were opened and closed,
  \<open>exit_req\<close> a call of the host's \<^verbatim>\<open>exit\<close>.
\<close>

record 'v dj =
  udisps :: "udisp list"
  api_set :: bool
  api_ver :: int
  disp_fn :: "nat option"
  u_athunks :: "nat option"
  u_pthunks :: "nat option"
  u_handle_p :: "nat option"
  u_libid_p :: "nat option"
  fatalerr :: int
  dynapi_mism :: int
  req_da_ver :: int
  chooks :: "'v swctx list"
  ihooks :: "nat list"
  ustore :: "nat \<Rightarrow> athunks"
  ivars :: "nat \<Rightarrow> int"
  startup_flags :: u32
  dj_mem :: "u32 \<Rightarrow> u8"
  dj_base :: u32
  dos_live :: "u32 list"
  next_jmp :: nat
  elf_log :: "elf_event list"
  exit_req :: "int option"

text \<open>\<^verbatim>\<open>assert(handle < MAX_HANDLES); u = &udisps[handle];\<close> with the \<^verbatim>\<open>int\<close> the caller passes.\<close>

definition with_handle :: "int \<Rightarrow> (nat \<Rightarrow> ('s, 'a) exec) \<Rightarrow> ('s, 'a) exec" where
  "with_handle h f =
     exec_assert (h < int MAX_HANDLES) (if h < 0 then Fault OutOfBounds else f (nat h))"

definition upd_u :: "nat \<Rightarrow> (udisp \<Rightarrow> udisp) \<Rightarrow> 'v dj \<Rightarrow> 'v dj" where
  "upd_u h f st = st\<lparr>udisps := (udisps st)[h := f (udisps st ! h)]\<rparr>"

section \<open>Registration\<close>

definition register_dispatch_fn :: "nat \<Rightarrow> int \<Rightarrow> 'v dj \<Rightarrow> ('v dj, unit) exec" where
  "register_dispatch_fn fn ver st =
     (let st = st\<lparr>req_da_ver := ver\<rparr> in
      if ver \<noteq> DJ64_DYNAPI_VER
      then Ret () (st\<lparr>fatalerr := fatalerr st + 1, dynapi_mism := dynapi_mism st + 1\<rparr>)
      else exec_assert (disp_fn st = None) (Ret () (st\<lparr>disp_fn := Some fn\<rparr>)))"

definition register_athunks :: "nat \<Rightarrow> int \<Rightarrow> 'v dj \<Rightarrow> ('v dj, unit) exec" where
  "register_athunks a ver st =
     (let st = st\<lparr>req_da_ver := ver\<rparr> in
      if ver \<noteq> DJ64_DYNAPI_VER
      then Ret () (st\<lparr>fatalerr := fatalerr st + 1, dynapi_mism := dynapi_mism st + 1\<rparr>)
      else exec_assert (u_athunks st = None) (Ret () (st\<lparr>u_athunks := Some a\<rparr>)))"

definition register_pthunks ::
    "nat \<Rightarrow> nat option \<Rightarrow> nat option \<Rightarrow> int \<Rightarrow> 'v dj \<Rightarrow> ('v dj, unit) exec" where
  "register_pthunks p handle_p libid_p ver st =
     (let st = st\<lparr>req_da_ver := ver\<rparr> in
      if ver \<noteq> DJ64_DYNAPI_VER
      then Ret () (st\<lparr>fatalerr := fatalerr st + 1, dynapi_mism := dynapi_mism st + 1\<rparr>)
      else exec_assert (u_pthunks st = None)
        (Ret () (st\<lparr>u_pthunks := Some p, u_handle_p := handle_p, u_libid_p := libid_p\<rparr>)))"

definition djregister_ctx_hooks :: "'v swctx \<Rightarrow> 'v dj \<Rightarrow> ('v dj, unit) exec" where
  "djregister_ctx_hooks c st =
     exec_assert (length (chooks st) < MAX_CTX_HOOKS) (Ret () (st\<lparr>chooks := chooks st @ [c]\<rparr>))"

definition djregister_init_hook :: "nat \<Rightarrow> 'v dj \<Rightarrow> ('v dj, unit) exec" where
  "djregister_init_hook f st =
     exec_assert (length (ihooks st) < MAX_INIT_HOOKS) (Ret () (st\<lparr>ihooks := ihooks st @ [f]\<rparr>))"

text \<open>The init hooks are library code: \<open>call\<close> says what each does.\<close>

fun process_hooks :: "(nat \<Rightarrow> 's \<Rightarrow> ('s, unit) exec) \<Rightarrow> nat list \<Rightarrow> 's \<Rightarrow> ('s, unit) exec" where
  "process_hooks call [] st = Ret () st"
| "process_hooks call (f # fs) st = exec_bind (call f st) (\<lambda>_. process_hooks call fs)"

definition djprocess_init_hooks ::
    "(nat \<Rightarrow> 'v dj \<Rightarrow> ('v dj, unit) exec) \<Rightarrow> 'v dj \<Rightarrow> ('v dj, unit) exec" where
  "djprocess_init_hooks call st = process_hooks call (ihooks st) st"

section \<open>The context hooks\<close>

definition hooks_exec :: "('v swctx \<Rightarrow> fault + 'v swctx) \<Rightarrow> 'v dj \<Rightarrow> ('v dj, unit) exec" where
  "hooks_exec f st =
     (case hooks_run f (chooks st) of Inl e \<Rightarrow> Fault e | Inr hs \<Rightarrow> Ret () (st\<lparr>chooks := hs\<rparr>))"

definition hooks_save :: "'v dj \<Rightarrow> ('v dj, unit) exec" where
  "hooks_save = hooks_exec swctx_save"

definition hooks_restore :: "nat \<Rightarrow> 'v dj \<Rightarrow> 'v dj" where
  "hooks_restore h st = st\<lparr>chooks := map (swctx_restore h) (chooks st)\<rparr>"

section \<open>Init and done\<close>

definition store_int :: "nat option \<Rightarrow> int \<Rightarrow> 'v dj \<Rightarrow> 'v dj" where
  "store_int p v st = (case p of None \<Rightarrow> st | Some a \<Rightarrow> st\<lparr>ivars := (ivars st)(a := v)\<rparr>)"

text \<open>Hand the pending registration to slot \<open>d\<close> of a program, and forget it.\<close>

definition take_registration :: "int \<Rightarrow> nat \<Rightarrow> nat \<Rightarrow> 'v dj \<Rightarrow> 'v dj" where
  "take_registration handle h d st =
     (let st = upd_u h (\<lambda>u. u\<lparr>disp := (disp u)[d := disp_fn st],
                 at := (at u)[d := map_option UserAt (u_athunks st)],
                 pt := (pt u)[d := map_option UserAt (u_pthunks st)]\<rparr>) st;
          st = store_int (u_handle_p st) handle st;
          st = store_int (u_libid_p st) (int d) st
      in st\<lparr>disp_fn := None, u_athunks := None, u_pthunks := None,
            u_handle_p := None, u_libid_p := None\<rparr>)"

text \<open>
  \<^verbatim>\<open>DJ64_INIT_FN\<close>: \<open>thunk_call\<close> stands for \<^verbatim>\<open>dj64_thunk_call\<close>, \<open>asm_thunks\<close> and \<open>pthunks\<close> for the
  two tables the build generates, with the contents of the memory the host's \<^verbatim>\<open>malloc\<close> returns.
\<close>

definition dj64_init :: "nat \<Rightarrow> athunks \<Rightarrow> athunks \<Rightarrow> int \<Rightarrow> elf_ops option \<Rightarrow> nat option \<Rightarrow> bool
    \<Rightarrow> 'v dj \<Rightarrow> ('v dj, unit) exec" where
  "dj64_init thunk_call asm_thunks pthunks handle ops main full st =
     with_handle handle (\<lambda>h.
       let st = upd_u h (\<lambda>u. u\<lparr>disp := (disp u)[0 := Some thunk_call], eops := ops,
                 main_fn := main, full_init := full,
                 at := (at u)[0 := Some CoreAt], pt := (pt u)[0 := Some CorePt]\<rparr>) st;
           st = take_registration handle h 1 st
       in exec_bind (hooks_exec (swctx_init h) st) (\<lambda>_ st.
            if \<not> api_set st then Fault NullDeref
            else Ret () (upd_u h (\<lambda>u. u\<lparr>core_at := asm_thunks, core_pt := pthunks\<rparr>) st)))"

definition dj64_init2 :: "int \<Rightarrow> int \<Rightarrow> 'v dj \<Rightarrow> ('v dj, int) exec" where
  "dj64_init2 handle disp_id st =
     with_handle handle (\<lambda>h.
       exec_assert (1 < disp_id \<and> disp_id < int MAX_DISPS)
         (if disp (udisps st ! h) ! 0 = None then Ret (-1) st
          else Ret 0 (take_registration handle h (nat disp_id) st)))"

definition dj64_done :: "int \<Rightarrow> 'v dj \<Rightarrow> ('v dj, unit) exec" where
  "dj64_done handle st =
     (let st = st\<lparr>chooks := map swctx_deinit (chooks st)\<rparr> in
      with_handle handle (\<lambda>h.
        Ret () (upd_u h (\<lambda>u. u\<lparr>core_at := (core_at u)\<lparr>at_tab := []\<rparr>,
                             core_pt := (core_pt u)\<lparr>at_tab := []\<rparr>\<rparr>) st)))"

text \<open>\<open>min_ver\<close> is the host header's \<^verbatim>\<open>DJ64_API_MIN_VER\<close>.\<close>

definition dj64_init_once :: "int \<Rightarrow> int \<Rightarrow> 'v dj \<Rightarrow> int \<times> 'v dj" where
  "dj64_init_once min_ver ver st =
     (if ver < min_ver then (-1, st)
      else
        let ret = (if api_set st then 0 else 1);
            st = st\<lparr>api_set := True, api_ver := ver\<rparr>
        in if fatalerr st \<noteq> 0 then (-1, st) else (ret, st))"

end
