(* ===== verification/Thunk_Call.thy ===== *)
theory Thunk_Call
  imports Thunk_State
begin

text \<open>
  The calls that cross between the 32-bit DOS program and the 64-bit libc
  (\<^verbatim>\<open>src/libc/dj64/thunks.c\<close>, \<^verbatim>\<open>dosobj.c\<close>): \<^verbatim>\<open>dj64_call\<close> serves a call of the DOS program,
  \<^verbatim>\<open>dj64_asm_call\<close> and its kin call back into it, the \<^verbatim>\<open>dj64_obj_*\<close> functions copy arguments into
  the DOS heap and keep a table of the copies per nesting level. What the dispatched library
  function does, and what the DOS program does while it is called, is not determined by this
  code: both are trees of the calls they make (\<open>prog\<close>, \<open>asm\<close>), so that a statement for all
  trees is a statement for all behaviours.
\<close>

section \<open>DOS objects\<close>

fun mem_put :: "u32 \<Rightarrow> u8 list \<Rightarrow> (u32 \<Rightarrow> u8) \<Rightarrow> u32 \<Rightarrow> u8" where
  "mem_put a [] m = m"
| "mem_put a (b # bs) m = mem_put (a + 1) bs (m(a := b))"

definition mem_get :: "u32 \<Rightarrow> nat \<Rightarrow> (u32 \<Rightarrow> u8) \<Rightarrow> u8 list" where
  "mem_get a n m = map (\<lambda>i. m (a + of_nat i)) [0..<n]"

text \<open>\<open>a\<close> is what \<^verbatim>\<open>malloc32\<close> answered: 0 when the DOS heap is exhausted.\<close>

definition mk_dosobj :: "u32 \<Rightarrow> 'v dj \<Rightarrow> u32 \<times> 'v dj" where
  "mk_dosobj a st = (a, st\<lparr>dos_live := (if a = 0 then dos_live st else a # dos_live st)\<rparr>)"

definition pr_dosobj :: "u32 \<Rightarrow> u8 list \<Rightarrow> 'v dj \<Rightarrow> 'v dj" where
  "pr_dosobj fa data st = st\<lparr>dj_mem := mem_put (dj_base st + fa) data (dj_mem st)\<rparr>"

definition cp_dosobj :: "u32 \<Rightarrow> nat \<Rightarrow> 'v dj \<Rightarrow> u8 list" where
  "cp_dosobj fa len st = mem_get (dj_base st + fa) len (dj_mem st)"

definition rm_dosobj :: "u32 \<Rightarrow> 'v dj \<Rightarrow> 'v dj" where
  "rm_dosobj fa st = st\<lparr>dos_live := remove1 fa (dos_live st)\<rparr>"

definition find_oh :: "u32 \<Rightarrow> u32 list list \<Rightarrow> nat \<Rightarrow> nat option" where
  "find_oh addr tab recur = index_of addr (take MAX_OBJS (tab ! (recur - 1)))"

text \<open>\<^verbatim>\<open>*find_oh(addr, u->objs, u->recur_cnt) = v;\<close> a null result is dereferenced.\<close>

definition put_oh :: "nat \<Rightarrow> u32 \<Rightarrow> u32 \<Rightarrow> 'v dj \<Rightarrow> ('v dj, unit) exec" where
  "put_oh h addr v st =
     (let u = udisps st ! h; r = recur_cnt u in
      if r = 0 \<or> MAX_RECUR < r then Fault OutOfBounds
      else case find_oh addr (objs u) r of
             None \<Rightarrow> Fault NullDeref
           | Some i \<Rightarrow>
               Ret () (upd_u h (\<lambda>u. u\<lparr>objs := (objs u)[r - 1 := (objs u ! (r - 1))[i := v]]\<rparr>) st))"

definition add_objcnt :: "nat \<Rightarrow> int \<Rightarrow> 'v dj \<Rightarrow> 'v dj" where
  "add_objcnt h d = upd_u h (\<lambda>u. u\<lparr>objcnt := objcnt u + d\<rparr>)"

text \<open>
  \<open>is_dos\<close> is the host's \<^verbatim>\<open>is_dos_ptr(data)\<close>, \<open>pdata\<close> its \<^verbatim>\<open>PTR_DATA(data)\<close>, \<open>gh\<close> what its
  \<^verbatim>\<open>get_handle()\<close> answers, \<open>a\<close> what \<^verbatim>\<open>malloc32\<close> answers.
\<close>

definition do_obj_init ::
    "bool \<Rightarrow> u32 \<Rightarrow> u8 list \<Rightarrow> bool \<Rightarrow> u32 \<Rightarrow> int \<Rightarrow> 'v dj \<Rightarrow> ('v dj, u32) exec" where
  "do_obj_init is_dos pdata data is_out a gh st =
     (if is_dos then Ret pdata st
      else with_handle gh (\<lambda>h.
        let (ret, st) = mk_dosobj a st;
            st = (if is_out then st else pr_dosobj ret data st);
            st = add_objcnt h 1 st
        in exec_bind (put_oh h 0 ret st) (\<lambda>_ st. Ret ret st)))"

definition dj64_obj_init :: "bool \<Rightarrow> u32 \<Rightarrow> u8 list \<Rightarrow> u32 \<Rightarrow> int \<Rightarrow> 'v dj \<Rightarrow> ('v dj, u32) exec" where
  "dj64_obj_init is_dos pdata data = do_obj_init is_dos pdata data False"

definition dj64_obj_oinit :: "bool \<Rightarrow> u32 \<Rightarrow> u8 list \<Rightarrow> u32 \<Rightarrow> int \<Rightarrow> 'v dj \<Rightarrow> ('v dj, u32) exec" where
  "dj64_obj_oinit is_dos pdata data = do_obj_init is_dos pdata data True"

text \<open>The bytes copied back into the caller's buffer; \<open>None\<close> when it is left as it is.\<close>

definition dj64_obj_done ::
    "bool \<Rightarrow> u32 \<Rightarrow> nat \<Rightarrow> int \<Rightarrow> 'v dj \<Rightarrow> ('v dj, u8 list option) exec" where
  "dj64_obj_done is_dos fa len gh st =
     (if is_dos then Ret None st
      else with_handle gh (\<lambda>h.
        let bs = cp_dosobj fa len st; st = rm_dosobj fa st
        in exec_bind (put_oh h fa 0 st) (\<lambda>_ st. Ret (Some bs) (add_objcnt h (-1) st))))"

definition do_rm_dosobj :: "nat \<Rightarrow> u32 \<Rightarrow> 'v dj \<Rightarrow> ('v dj, unit) exec" where
  "do_rm_dosobj h fa st =
     exec_bind (put_oh h fa 0 (rm_dosobj fa st)) (\<lambda>_ st. Ret () (add_objcnt h (-1) st))"

definition dj64_rm_dosobj :: "bool \<Rightarrow> u32 \<Rightarrow> int \<Rightarrow> 'v dj \<Rightarrow> ('v dj, unit) exec" where
  "dj64_rm_dosobj is_dos fa gh st =
     (if is_dos then Ret () st else with_handle gh (\<lambda>h. do_rm_dosobj h fa st))"

section \<open>Calls into the DOS program\<close>

datatype asm_rc = ASM_CALL_OK | ASM_CALL_ABORT | ASM_CALL_OTHER

text \<open>The values \<^verbatim>\<open>longjmp\<close> passes, from the \<^verbatim>\<open>enum\<close> of \<^verbatim>\<open>include/dj64/util.h\<close>.\<close>

definition ASM_NORET :: nat where "ASM_NORET = 1"
definition ASM_ABORT :: nat where "ASM_ABORT = 2"
definition TFLG_NORET :: u32 where "TFLG_NORET = 2"

definition deref :: "nat \<Rightarrow> aptr \<Rightarrow> 'v dj \<Rightarrow> athunks" where
  "deref h p st =
     (case p of CoreAt \<Rightarrow> core_at (udisps st ! h) | CorePt \<Rightarrow> core_pt (udisps st ! h)
      | UserAt a \<Rightarrow> ustore st a)"

definition do_longjmp :: "nat \<Rightarrow> nat \<Rightarrow> 'v dj \<Rightarrow> ('v dj, 'a) exec" where
  "do_longjmp h rc st =
     (case noret_jmp (udisps st ! h) of None \<Rightarrow> Fault NullDeref | Some j \<Rightarrow> Jump j rc st)"

text \<open>
  \<open>asm\<close> is the host's \<^verbatim>\<open>asm_call\<close>: what happens when the 32-bit code at the far address
  runs, with the return code and the registers it leaves.
\<close>

definition do_asm_call :: "nat \<Rightarrow> aptr \<Rightarrow> int \<Rightarrow> u32
    \<Rightarrow> (u32 \<times> u32 \<Rightarrow> 'v dj \<Rightarrow> ('v dj, asm_rc \<times> regs) exec) \<Rightarrow> 'v dj \<Rightarrow> ('v dj, u64) exec" where
  "do_asm_call h p num flags asm st =
     (let t = deref h p st; u = udisps st ! h in
      exec_assert (num < int (length (at_names t)))
        (if num < 0 \<or> length (at_tab t) \<le> nat num then Fault OutOfBounds
         else exec_assert (flags AND TFLG_NORET = 0)
           (exec_bind (asm (cs u, at_tab t ! nat num) st) (\<lambda>(rc, r) st.
              let st = upd_u h (\<lambda>u. u\<lparr>s_regs := r\<rparr>) st in
              case rc of
                ASM_CALL_ABORT \<Rightarrow> do_longjmp h ASM_ABORT st
              | _ \<Rightarrow> Ret (ucast (eax r) OR push_bit 32 (ucast (edx r))) st))))"

text \<open>The \<^verbatim>\<open>uint64_t\<close> result passes through an \<^verbatim>\<open>int\<close> variable.\<close>

definition through_int :: "u64 \<Rightarrow> u64" where
  "through_int v = scast (ucast v :: u32)"

definition dj64_asm_call :: "int \<Rightarrow> int \<Rightarrow> u32
    \<Rightarrow> (u32 \<times> u32 \<Rightarrow> 'v dj \<Rightarrow> ('v dj, asm_rc \<times> regs) exec) \<Rightarrow> 'v dj \<Rightarrow> ('v dj, u64) exec" where
  "dj64_asm_call gh num flags asm st =
     with_handle gh (\<lambda>h.
       exec_bind (hooks_save st) (\<lambda>_ st.
       exec_bind (do_asm_call h CorePt num flags asm st) (\<lambda>ret st.
       Ret (through_int ret) (hooks_restore h st))))"

text \<open>
  \<open>abort_val\<close> is the number behind \<^verbatim>\<open>ASM_CALL_ABORT\<close>, which the function returns as the
  result of the call when the library registered no thunks.
\<close>

definition dj64_asm_call_u :: "u64 \<Rightarrow> int \<Rightarrow> int \<Rightarrow> int \<Rightarrow> u32
    \<Rightarrow> (u32 \<times> u32 \<Rightarrow> 'v dj \<Rightarrow> ('v dj, asm_rc \<times> regs) exec) \<Rightarrow> 'v dj \<Rightarrow> ('v dj, u64) exec" where
  "dj64_asm_call_u abort_val handle libid num flags asm st =
     with_handle handle (\<lambda>h.
       if libid < 0 \<or> int (length (pt (udisps st ! h))) \<le> libid then Fault OutOfBounds
       else case pt (udisps st ! h) ! nat libid of
         None \<Rightarrow> Ret abort_val st
       | Some p \<Rightarrow>
           exec_bind (hooks_save st) (\<lambda>_ st.
           exec_bind (do_asm_call h p num flags asm st) (\<lambda>ret st.
           Ret (through_int ret) (hooks_restore h st))))"

definition do_asm_noret :: "nat \<Rightarrow> aptr \<Rightarrow> int
    \<Rightarrow> (u32 \<times> u32 \<Rightarrow> 'v dj \<Rightarrow> ('v dj, asm_rc \<times> regs) exec) \<Rightarrow> 'v dj \<Rightarrow> ('v dj, unit) exec" where
  "do_asm_noret h p num asm st =
     (let t = deref h p st; u = udisps st ! h in
      exec_assert (num < int (length (at_names t)))
        (if num < 0 \<or> length (at_tab t) \<le> nat num then Fault OutOfBounds
         else exec_bind (asm (cs u, at_tab t ! nat num) st) (\<lambda>(_, r) st.
              Ret () (upd_u h (\<lambda>u. u\<lparr>s_regs := r\<rparr>) st))))"

definition dj64_asm_noret :: "int \<Rightarrow> int
    \<Rightarrow> (u32 \<times> u32 \<Rightarrow> 'v dj \<Rightarrow> ('v dj, asm_rc \<times> regs) exec) \<Rightarrow> 'v dj \<Rightarrow> ('v dj, 'a) exec" where
  "dj64_asm_noret gh num asm st =
     with_handle gh (\<lambda>h.
       exec_bind (hooks_save st) (\<lambda>_ st.
       exec_bind (do_asm_noret h CorePt num asm st) (\<lambda>_ st.
       do_longjmp h ASM_NORET (hooks_restore h st))))"

definition dj64_asm_noret_u :: "int \<Rightarrow> int \<Rightarrow> int
    \<Rightarrow> (u32 \<times> u32 \<Rightarrow> 'v dj \<Rightarrow> ('v dj, asm_rc \<times> regs) exec) \<Rightarrow> 'v dj \<Rightarrow> ('v dj, 'a) exec" where
  "dj64_asm_noret_u handle libid num asm st =
     with_handle handle (\<lambda>h.
       if libid < 0 \<or> int (length (pt (udisps st ! h))) \<le> libid then Fault OutOfBounds
       else case pt (udisps st ! h) ! nat libid of
         None \<Rightarrow> do_longjmp h ASM_ABORT st
       | Some p \<Rightarrow>
           exec_bind (hooks_save st) (\<lambda>_ st.
           exec_bind (do_asm_noret h p num asm st) (\<lambda>_ st.
           do_longjmp h ASM_NORET (hooks_restore h st))))"

section \<open>Serving a call of the DOS program\<close>

datatype call_ret = DJ64_RET_OK | DJ64_RET_NORET | DJ64_RET_ABORT

text \<open>The loop after a \<^verbatim>\<open>longjmp\<close>: free what the abandoned function left in the DOS heap.\<close>

fun gc_objs :: "nat \<Rightarrow> nat list \<Rightarrow> 'v dj \<Rightarrow> ('v dj, unit) exec" where
  "gc_objs h [] st = Ret () st"
| "gc_objs h (i # is) st =
     (let u = udisps st ! h; fa = objs u ! (recur_cnt u - 1) ! i in
      if fa \<noteq> 0 then exec_bind (do_rm_dosobj h fa st) (\<lambda>_. gc_objs h is)
      else gc_objs h is st)"

text \<open>
  \<^verbatim>\<open>_dj64_call\<close>: \<open>dfn\<close> is the dispatched function (\<open>None\<close> for a null pointer); it returns
  the value and the length of the result.
\<close>

definition dj64_call1 :: "nat \<Rightarrow> regs \<Rightarrow> ('v dj \<Rightarrow> ('v dj, u32 \<times> int) exec) option
    \<Rightarrow> 'v dj \<Rightarrow> ('v dj, call_ret \<times> regs) exec" where
  "dj64_call1 h regs dfn st =
     (let j = next_jmp st;
          st = upd_u h (\<lambda>u. u\<lparr>s_regs := regs, noret_jmp := Some j\<rparr>) (st\<lparr>next_jmp := Suc j\<rparr>)
      in case dfn of
           None \<Rightarrow> Fault NullDeref
         | Some f \<Rightarrow>
             (case f st of
                Fault e \<Rightarrow> Fault e
              | Ret (res, len) st \<Rightarrow>
                  (let r = s_regs (udisps st ! h) in
                   Ret (DJ64_RET_OK, if len \<in> {1, 2, 4} then r\<lparr>eax := res\<rparr> else r) st)
              | Jump j' rc st \<Rightarrow>
                  (if j' = j
                   then exec_bind (gc_objs h [0..<MAX_OBJS] (hooks_restore h st)) (\<lambda>_ st.
                          Ret (if rc = ASM_NORET then DJ64_RET_NORET else DJ64_RET_ABORT, regs) st)
                   else Jump j' rc st)))"

definition dj64_call :: "int \<Rightarrow> int \<Rightarrow> regs \<Rightarrow> (nat \<Rightarrow> 'v dj \<Rightarrow> ('v dj, u32 \<times> int) exec)
    \<Rightarrow> 'v dj \<Rightarrow> ('v dj, call_ret \<times> regs) exec" where
  "dj64_call handle libid regs code st =
     with_handle handle (\<lambda>h.
       exec_assert (libid < int MAX_DISPS)
         (exec_assert (recur_cnt (udisps st ! h) < MAX_RECUR)
           (let st = upd_u h (\<lambda>u. u\<lparr>recur_cnt := Suc (recur_cnt u)\<rparr>) st;
                st = hooks_restore h st;
                u = udisps st ! h;
                saved_noret = noret_jmp u;
                last_objcnt = objcnt u
            in if libid < 0 then Fault OutOfBounds
               else exec_bind (dj64_call1 h regs (map_option code (disp u ! nat libid)) st)
                 (\<lambda>(ret, r) st.
                    exec_assert (objcnt (udisps st ! h) = last_objcnt)
                      (let st = upd_u h (\<lambda>u. u\<lparr>noret_jmp := saved_noret\<rparr>) st in
                       exec_bind (if ret = DJ64_RET_OK then hooks_save st else Ret () st) (\<lambda>_ st.
                         Ret (ret, r) (upd_u h (\<lambda>u. u\<lparr>recur_cnt := recur_cnt u - 1\<rparr>) st)))))))"

section \<open>Behaviours\<close>

text \<open>
  \<open>prog\<close>: what a dispatched library function does, call by call, until it returns; the
  values it gets back select the rest. \<open>asm\<close>: what the DOS program does while it is called:
  write memory, call \<^verbatim>\<open>dj64_call\<close> again, return.
\<close>

datatype 'v prog =
    PRet u32 int
  | PCtxGet nat "'v \<Rightarrow> 'v prog"
  | PCtxPut nat 'v "'v prog"
  | PObjInit bool u32 "u8 list" bool u32 "u32 \<Rightarrow> 'v prog"
  | PObjDone bool u32 nat "u8 list option \<Rightarrow> 'v prog"
  | PRmDosobj bool u32 "'v prog"
  | PAsmCall int u32 "u32 \<times> u32 \<Rightarrow> 'v asm" "u64 \<Rightarrow> 'v prog"
  | PAsmCallU int int int u32 "u32 \<times> u32 \<Rightarrow> 'v asm" "u64 \<Rightarrow> 'v prog"
  | PAsmNoret int "u32 \<times> u32 \<Rightarrow> 'v asm"
  | PAsmNoretU int int int "u32 \<times> u32 \<Rightarrow> 'v asm"
and 'v asm =
    ARet asm_rc regs
  | AMem u32 "u8 list" "'v asm"
  | AReenter int int regs "nat \<Rightarrow> 'v prog" "call_ret \<times> regs \<Rightarrow> 'v asm"

definition lift_sum :: "fault + 'a \<Rightarrow> ('a \<Rightarrow> ('s, 'b) exec) \<Rightarrow> ('s, 'b) exec" where
  "lift_sum x f = (case x of Inl e \<Rightarrow> Fault e | Inr a \<Rightarrow> f a)"

text \<open>\<open>gh h\<close> is what the host's \<^verbatim>\<open>get_handle()\<close> answers while it serves a call of program \<open>h\<close>.\<close>

primrec run_prog :: "'v prog \<Rightarrow> u64 \<Rightarrow> (nat \<Rightarrow> int) \<Rightarrow> nat \<Rightarrow> 'v dj \<Rightarrow> ('v dj, u32 \<times> int) exec"
  and run_asm :: "'v asm \<Rightarrow> u64 \<Rightarrow> (nat \<Rightarrow> int) \<Rightarrow> 'v dj \<Rightarrow> ('v dj, asm_rc \<times> regs) exec" where
  "run_prog (PRet res len) av gh h st = Ret (res, len) st"
| "run_prog (PCtxGet k f) av gh h st =
     (if k < length (chooks st)
      then lift_sum (swctx_get (chooks st ! k)) (\<lambda>v. run_prog (f v) av gh h st)
      else Fault OutOfBounds)"
| "run_prog (PCtxPut k v p) av gh h st =
     (if k < length (chooks st)
      then lift_sum (swctx_put v (chooks st ! k)) (\<lambda>c.
             run_prog p av gh h (st\<lparr>chooks := (chooks st)[k := c]\<rparr>))
      else Fault OutOfBounds)"
| "run_prog (PObjInit is_dos pdata data is_out a f) av gh h st =
     exec_bind (do_obj_init is_dos pdata data is_out a (gh h) st) (\<lambda>fa. run_prog (f fa) av gh h)"
| "run_prog (PObjDone is_dos fa len f) av gh h st =
     exec_bind (dj64_obj_done is_dos fa len (gh h) st) (\<lambda>bs. run_prog (f bs) av gh h)"
| "run_prog (PRmDosobj is_dos fa p) av gh h st =
     exec_bind (dj64_rm_dosobj is_dos fa (gh h) st) (\<lambda>_. run_prog p av gh h)"
| "run_prog (PAsmCall num flags a f) av gh h st =
     exec_bind (dj64_asm_call (gh h) num flags (\<lambda>pma. run_asm (a pma) av gh) st)
       (\<lambda>v. run_prog (f v) av gh h)"
| "run_prog (PAsmCallU handle libid num flags a f) av gh h st =
     exec_bind (dj64_asm_call_u av handle libid num flags (\<lambda>pma. run_asm (a pma) av gh) st)
       (\<lambda>v. run_prog (f v) av gh h)"
| "run_prog (PAsmNoret num a) av gh h st =
     dj64_asm_noret (gh h) num (\<lambda>pma. run_asm (a pma) av gh) st"
| "run_prog (PAsmNoretU handle libid num a) av gh h st =
     dj64_asm_noret_u handle libid num (\<lambda>pma. run_asm (a pma) av gh) st"
| "run_asm (ARet rc r) av gh st = Ret (rc, r) st"
| "run_asm (AMem addr bs a) av gh st = run_asm a av gh (st\<lparr>dj_mem := mem_put addr bs (dj_mem st)\<rparr>)"
| "run_asm (AReenter handle libid r p k) av gh st =
     exec_bind (dj64_call handle libid r (\<lambda>d. run_prog (p d) av gh (nat handle)) st)
       (\<lambda>x. run_asm (k x) av gh)"

end
