(* ===== verification/Thunk_Ctrl.thy ===== *)
theory Thunk_Ctrl
  imports Thunk_Call
begin

text \<open>
  Resolution of the thunk tables against an ELF image (\<^verbatim>\<open>process_athunks\<close>,
  \<^verbatim>\<open>process_pthunks\<close>), the control entry point \<^verbatim>\<open>dj64_ctrl\<close> that the DOS program's startup code
  calls, and the lookup of a resolved symbol, from \<^verbatim>\<open>src/libc/dj64/thunks.c\<close>.
\<close>

definition DL_SET_SYMTAB :: int where "DL_SET_SYMTAB = 0"
definition DL_ELFLOAD :: int where "DL_ELFLOAD = 1"
definition DL_ELFLOAD_FD :: int where "DL_ELFLOAD_FD = 2"
definition DL_API_VER :: int where "DL_API_VER = 1"
definition SIFLG_SPLITPL :: u32 where "SIFLG_SPLITPL = push_bit 17 1"

section \<open>Resolving tables\<close>

text \<open>An unresolved symbol stops the loop and leaves its entry as it was.\<close>

fun athunks_loop :: "(string \<Rightarrow> u32) \<Rightarrow> u32 \<Rightarrow> nat \<Rightarrow> string list \<Rightarrow> u32 list
    \<Rightarrow> fault + (int \<times> u32 list)" where
  "athunks_loop getsym mem_base i [] tab = Inr (0, tab)"
| "athunks_loop getsym mem_base i (n # ns) tab =
     (let off = getsym n in
      if off \<noteq> 0
      then if i < length tab
           then athunks_loop getsym mem_base (Suc i) ns (tab[i := mem_base + off])
           else Inl OutOfBounds
      else Inr (-1, tab))"

text \<open>Here the entry is written before it is tested.\<close>

fun pthunks_loop :: "(string \<Rightarrow> u32) \<Rightarrow> nat \<Rightarrow> string list \<Rightarrow> u32 list \<Rightarrow> fault + (int \<times> u32 list)" where
  "pthunks_loop getsym i [] tab = Inr (0, tab)"
| "pthunks_loop getsym i (n # ns) tab =
     (if i < length tab
      then let tab = tab[i := getsym n] in
           if tab ! i = 0 then Inr (-1, tab) else pthunks_loop getsym (Suc i) ns tab
      else Inl OutOfBounds)"

definition store_thunks :: "nat \<Rightarrow> aptr \<Rightarrow> athunks \<Rightarrow> 'v dj \<Rightarrow> 'v dj" where
  "store_thunks h p t st =
     (case p of CoreAt \<Rightarrow> upd_u h (\<lambda>u. u\<lparr>core_at := t\<rparr>) st
      | CorePt \<Rightarrow> upd_u h (\<lambda>u. u\<lparr>core_pt := t\<rparr>) st
      | UserAt a \<Rightarrow> st\<lparr>ustore := (ustore st)(a := t)\<rparr>)"

definition process_athunks :: "elf_ops \<Rightarrow> nat \<Rightarrow> u32 \<Rightarrow> nat \<Rightarrow> aptr \<Rightarrow> 'v dj \<Rightarrow> ('v dj, int) exec" where
  "process_athunks ops eh mem_base h p st =
     (let t = deref h p st in
      lift_sum (athunks_loop (elf_getsym ops eh) mem_base 0 (at_names t) (at_tab t)) (\<lambda>(ret, tab).
        Ret ret (store_thunks h p (t\<lparr>at_tab := tab\<rparr>) st)))"

definition process_pthunks :: "elf_ops \<Rightarrow> nat \<Rightarrow> nat \<Rightarrow> aptr \<Rightarrow> 'v dj \<Rightarrow> ('v dj, int) exec" where
  "process_pthunks ops eh h p st =
     (let t = deref h p st in
      lift_sum (pthunks_loop (elf_getsym ops eh) 0 (at_names t) (at_tab t)) (\<lambda>(ret, tab).
        Ret ret (store_thunks h p (t\<lparr>at_tab := tab\<rparr>) st)))"

section \<open>Looking a symbol up\<close>

fun do_thunk_get :: "string list \<Rightarrow> u32 list \<Rightarrow> nat \<Rightarrow> string \<Rightarrow> fault + u32" where
  "do_thunk_get [] tab i name = Inr (-1)"
| "do_thunk_get (n # ns) tab i name =
     (if n = name then (if i < length tab then Inr (tab ! i) else Inl OutOfBounds)
      else do_thunk_get ns tab (Suc i) name)"

text \<open>The loop of \<^verbatim>\<open>djthunk_get_h\<close> over the libraries of a program.\<close>

fun thunk_search :: "nat \<Rightarrow> aptr option list \<Rightarrow> string \<Rightarrow> 'v dj \<Rightarrow> fault + u32" where
  "thunk_search h [] name st = Inr (-1)"
| "thunk_search h (None # ps) name st = thunk_search h ps name st"
| "thunk_search h (Some p # ps) name st =
     (let t = deref h p st in
      case do_thunk_get (at_names t) (at_tab t) 0 name of
        Inl e \<Rightarrow> Inl e
      | Inr v \<Rightarrow> if v \<noteq> -1 then Inr v else thunk_search h ps name st)"

definition djthunk_get_h :: "int \<Rightarrow> string \<Rightarrow> 'v dj \<Rightarrow> ('v dj, u32) exec" where
  "djthunk_get_h handle name st =
     with_handle handle (\<lambda>h.
       lift_sum (thunk_search h (take MAX_DISPS (at (udisps st ! h))) name st) (\<lambda>v.
         exec_assert (v \<noteq> -1) (Ret v st)))"

definition djthunk_get :: "int \<Rightarrow> string \<Rightarrow> 'v dj \<Rightarrow> ('v dj, u32) exec" where
  "djthunk_get gh name = djthunk_get_h gh name"

text \<open>Store the startup flags at the program's \<^verbatim>\<open>__crt0_startup_flags\<close>, low byte first.\<close>

definition le32 :: "u32 \<Rightarrow> u8 list" where
  "le32 v = [ucast v, ucast (drop_bit 8 v), ucast (drop_bit 16 v), ucast (drop_bit 24 v)]"

definition do_early_init :: "int \<Rightarrow> 'v dj \<Rightarrow> ('v dj, unit) exec" where
  "do_early_init handle st =
     exec_bind (djthunk_get_h handle ''__crt0_startup_flags'' st) (\<lambda>addr st.
       Ret () (st\<lparr>dj_mem := mem_put addr (le32 (startup_flags st)) (dj_mem st)\<rparr>))"

section \<open>The control entry point\<close>

text \<open>Calls made one after the other until one does not return 0.\<close>

fun until_error :: "('s \<Rightarrow> ('s, int) exec) list \<Rightarrow> 's \<Rightarrow> ('s, int) exec" where
  "until_error [] st = Ret 0 st"
| "until_error (f # fs) st =
     exec_bind (f st) (\<lambda>ret st. if ret \<noteq> 0 then Ret ret st else until_error fs st)"

definition elf_close :: "nat \<Rightarrow> 'v dj \<Rightarrow> 'v dj" where
  "elf_close eh st = st\<lparr>elf_log := elf_log st @ [EClose eh]\<rparr>"

text \<open>
  What \<^verbatim>\<open>dj64_ctrl\<close> does with an ELF handle: the open, the calls with their
  \<^verbatim>\<open>goto err\<close>, and the close on both ways out.
\<close>

definition with_elf :: "nat \<Rightarrow> (elf_ops \<Rightarrow> nat option)
    \<Rightarrow> (elf_ops \<Rightarrow> nat \<Rightarrow> ('v dj \<Rightarrow> ('v dj, int) exec) list) \<Rightarrow> 'v dj \<Rightarrow> ('v dj, int) exec" where
  "with_elf h opn calls st =
     (case eops (udisps st ! h) of
        None \<Rightarrow> Fault NullDeref
      | Some ops \<Rightarrow>
          (case opn ops of
             None \<Rightarrow> Ret (-1) st
           | Some eh \<Rightarrow>
               exec_bind (until_error (calls ops eh) (st\<lparr>elf_log := elf_log st @ [EOpen eh]\<rparr>)) (\<lambda>ret st.
                 Ret (if ret \<noteq> 0 then -1 else 0) (elf_close eh st))))"

definition core_calls :: "u32 \<Rightarrow> nat \<Rightarrow> elf_ops \<Rightarrow> nat \<Rightarrow> ('v dj \<Rightarrow> ('v dj, int) exec) list" where
  "core_calls mem_base h ops eh =
     [process_athunks ops eh mem_base h CoreAt, process_pthunks ops eh h CorePt]"

definition lib_calls :: "u32 \<Rightarrow> nat \<Rightarrow> udisp \<Rightarrow> nat \<Rightarrow> elf_ops \<Rightarrow> nat
    \<Rightarrow> ('v dj \<Rightarrow> ('v dj, int) exec) list" where
  "lib_calls mem_base h u libid ops eh =
     (case at u ! libid of None \<Rightarrow> [] | Some p \<Rightarrow> [process_athunks ops eh mem_base h p]) @
     (case pt u ! libid of None \<Rightarrow> [] | Some p \<Rightarrow> [process_pthunks ops eh h p])"

text \<open>
  \<^verbatim>\<open>DL_SET_SYMTAB\<close>: the payload in memory (which may hold the core payload, the user's, or
  both), then the core payload from its descriptor when it is not in memory.
\<close>

definition have_core :: "regs \<Rightarrow> bool" where
  "have_core r \<longleftrightarrow> eax r AND 0x4000 \<noteq> 0"

definition symtab_payload :: "nat \<Rightarrow> nat \<Rightarrow> regs \<Rightarrow> 'v dj \<Rightarrow> ('v dj, int) exec" where
  "symtab_payload h libid r st =
     (let split_pl = (eax r AND SIFLG_SPLITPL \<noteq> 0);
          addr = ebx r; size = ecx r; mem_base = edx r;
          have_upl = (\<not> have_core r \<or> \<not> split_pl);
          u = udisps st ! h
      in if addr \<noteq> 0
         then with_elf h (\<lambda>ops. elf_open ops addr size) (\<lambda>ops eh.
                (if have_core r then core_calls mem_base h ops eh else []) @
                (if have_upl then lib_calls mem_base h u libid ops eh else [])) st
         else Ret (if have_core r then -1 else 0) st)"

definition symtab_core :: "int \<Rightarrow> nat \<Rightarrow> regs \<Rightarrow> 'v dj \<Rightarrow> ('v dj, int) exec" where
  "symtab_core handle h r st =
     (let mem_base = edx r; cpl_fd = esi r in
      if have_core r then Ret 0 st
      else if cpl_fd = -1 then Ret (-1) st
      else with_elf h (\<lambda>ops. elf_open_dyn ops handle cpl_fd) (core_calls mem_base h) st)"

definition set_symtab :: "int \<Rightarrow> nat \<Rightarrow> nat \<Rightarrow> u32 \<Rightarrow> regs \<Rightarrow> 'v dj \<Rightarrow> ('v dj, int) exec" where
  "set_symtab handle h libid cs_sel r st =
     exec_bind (symtab_payload h libid r (upd_u h (\<lambda>u. u\<lparr>cs := cs_sel\<rparr>) st)) (\<lambda>ret st.
       if ret \<noteq> 0 then Ret (-1) st
       else exec_bind (symtab_core handle h r st) (\<lambda>ret st.
         if ret \<noteq> 0 then Ret (-1) st
         else exec_bind (do_early_init handle st) (\<lambda>_ st. Ret 0 st)))"

definition elfload :: "int \<Rightarrow> nat \<Rightarrow> nat \<Rightarrow> bool \<Rightarrow> regs \<Rightarrow> 'v dj \<Rightarrow> ('v dj, int \<times> regs) exec" where
  "elfload handle h libid by_fd r st =
     (let addr = ebx r; size = ecx r; mem_base = edx r; u = udisps st ! h in
      case eops u of
        None \<Rightarrow> Fault NullDeref
      | Some ops \<Rightarrow>
          (case (if by_fd then elf_parse64 ops (eax r) else elf_parse64_h ops handle) of
             None \<Rightarrow> Ret (-1, r) st
           | Some (elf, esize) \<Rightarrow>
               (let rel = (\<lambda>eh. elf_reloc ops eh (mem_base + addr) size addr) in
                exec_bind
                  (with_elf h (\<lambda>ops. elf_open ops elf esize) (\<lambda>ops eh.
                     (\<lambda>st. Ret (fst (rel eh)) st) # lib_calls mem_base h u libid ops eh) st)
                  (\<lambda>ret st.
                     Ret (if ret \<noteq> 0 then (-1, r)
                          else (0, r\<lparr>eax := snd (rel (the (elf_open ops elf esize)))\<rparr>)) st))))"

definition dj64_ctrl :: "int \<Rightarrow> int \<Rightarrow> int \<Rightarrow> u32 \<Rightarrow> regs \<Rightarrow> 'v dj \<Rightarrow> ('v dj, int \<times> regs) exec" where
  "dj64_ctrl handle libid fn cs_sel r st =
     (let ver = drop_bit 8 libid; libid = libid AND 0xff in
      exec_assert (libid < int MAX_DISPS)
        (exec_assert (handle < int MAX_HANDLES)
          (if ver \<noteq> DL_API_VER
           then Ret (-1, r) (if ver = 0 then st\<lparr>exit_req := Some 1\<rparr> else st)
           else if fn = DL_SET_SYMTAB
           then with_handle handle (\<lambda>h.
             exec_bind (set_symtab handle h (nat libid) cs_sel r st) (\<lambda>ret st. Ret (ret, r) st))
           else if fn = DL_ELFLOAD \<or> fn = DL_ELFLOAD_FD
           then with_handle handle (\<lambda>h.
             elfload handle h (nat libid) (fn = DL_ELFLOAD_FD) r st)
           else Ret (-1, r) st)))"

section \<open>The other entry points\<close>

text \<open>\<open>host\<close> is what the host's \<^verbatim>\<open>malloc\<close>, \<^verbatim>\<open>elfload\<close> and \<^verbatim>\<open>exec_self\<close> answer.\<close>

definition djsbrk :: "(int \<Rightarrow> nat) \<Rightarrow> int \<Rightarrow> 's \<Rightarrow> ('s, nat) exec" where
  "djsbrk host increment st = exec_assert (0 < increment) (Ret (host increment) st)"

definition djelf_load :: "(int \<Rightarrow> int \<Rightarrow> int \<Rightarrow> int) \<Rightarrow> int \<Rightarrow> int \<Rightarrow> int \<Rightarrow> 'v dj \<Rightarrow> int" where
  "djelf_load host gh num libid st = (if api_ver st < 19 then -1 else host num gh libid)"

definition djelf_exec :: "int \<Rightarrow> 'v dj \<Rightarrow> int" where
  "djelf_exec host st = (if api_ver st < 22 then -1 else host)"

end
