(* ===== verification/Thunk_Inv.thy ===== *)
theory Thunk_Inv
  imports Thunk_Call
begin

text \<open>
  The invariant of the thunk runtime and its preservation by every operation of
  \<^verbatim>\<open>thunks.c\<close> that library code can reach while it serves a call: the table of DOS objects
  agrees with the counter and with the DOS heap, levels above the current one are empty, and
  the contexts of the hook table belong to the program that runs. The operations are treated
  one lemma each; the theorem for all behaviours is an induction over the two kinds of tree.
\<close>

section \<open>The invariant\<close>

definition udisp_objs :: "udisp \<Rightarrow> u32 multiset" where
  "udisp_objs u = sum_list (map entries (objs u))"

definition wf_udisp :: "udisp \<Rightarrow> bool" where
  "wf_udisp u \<longleftrightarrow>
     length (objs u) = MAX_RECUR \<and> (\<forall>row \<in> set (objs u). length row = MAX_OBJS) \<and>
     length (disp u) = MAX_DISPS \<and> length (at u) = MAX_DISPS \<and> length (pt u) = MAX_DISPS \<and>
     recur_cnt u \<le> MAX_RECUR \<and>
     (\<forall>k < MAX_RECUR. recur_cnt u \<le> k \<longrightarrow> entries (objs u ! k) = {#}) \<and>
     objcnt u = int (size (udisp_objs u))"

definition all_objs :: "'v dj \<Rightarrow> u32 multiset" where
  "all_objs st = sum_list (map udisp_objs (udisps st))"

definition wf_dj :: "'v dj \<Rightarrow> bool" where
  "wf_dj st \<longleftrightarrow> length (udisps st) = MAX_HANDLES \<and> (\<forall>u \<in> set (udisps st). wf_udisp u) \<and>
     mset (dos_live st) = all_objs st"

section \<open>What a piece of code leaves alone\<close>

definition same_frame :: "udisp \<Rightarrow> udisp \<Rightarrow> bool" where
  "same_frame u u' \<longleftrightarrow> recur_cnt u' = recur_cnt u \<and> noret_jmp u' = noret_jmp u \<and>
     objcnt u' = objcnt u \<and> objs u' = objs u"

text \<open>Only the objects of the innermost level may have changed.\<close>

definition in_frame :: "udisp \<Rightarrow> udisp \<Rightarrow> bool" where
  "in_frame u u' \<longleftrightarrow> recur_cnt u' = recur_cnt u \<and> noret_jmp u' = noret_jmp u \<and>
     (\<forall>k. k \<noteq> recur_cnt u - 1 \<longrightarrow> objs u' ! k = objs u ! k)"

definition kept :: "nat \<Rightarrow> 'v dj \<Rightarrow> 'v dj \<Rightarrow> bool" where
  "kept h st st' \<longleftrightarrow> in_frame (udisps st ! h) (udisps st' ! h) \<and>
     (\<forall>g. g \<noteq> h \<longrightarrow> same_frame (udisps st ! g) (udisps st' ! g))"

definition kept_all :: "'v dj \<Rightarrow> 'v dj \<Rightarrow> bool" where
  "kept_all st st' \<longleftrightarrow> (\<forall>g. same_frame (udisps st ! g) (udisps st' ! g))"

definition hooks_at :: "nat \<Rightarrow> 'v dj \<Rightarrow> bool" where
  "hooks_at h st \<longleftrightarrow> (\<forall>c \<in> set (chooks st). swctx_wf c \<and> sw_cur c = Some h)"

definition hooks_safe :: "nat set \<Rightarrow> 'v dj \<Rightarrow> bool" where
  "hooks_safe G st \<longleftrightarrow> (\<forall>c \<in> set (chooks st). swctx_wf c \<and>
     (swctx_synced c \<or> (\<exists>i \<in> G. sw_cur c = Some i)))"

definition contents :: "nat \<Rightarrow> 'v dj \<Rightarrow> 'v list" where
  "contents g st = map (swctx_of g) (chooks st)"

definition outside :: "nat set \<Rightarrow> 'v dj \<Rightarrow> 'v dj \<Rightarrow> bool" where
  "outside G st st' \<longleftrightarrow> (\<forall>g. g \<notin> G \<longrightarrow> contents g st' = contents g st)"

lemma same_frame_refl [simp]: "same_frame u u"
  by (simp add: same_frame_def)

lemma in_frame_refl [simp]: "in_frame u u"
  by (simp add: in_frame_def)

lemma kept_refl [simp]: "kept h st st"
  by (simp add: kept_def)

lemma kept_all_refl [simp]: "kept_all st st"
  by (simp add: kept_all_def)

lemma outside_refl [simp]: "outside G st st"
  by (simp add: outside_def)

lemma kept_trans: "kept h s t \<Longrightarrow> kept h t u \<Longrightarrow> kept h s u"
  by (auto simp: kept_def in_frame_def same_frame_def)

lemma kept_all_trans: "kept_all s t \<Longrightarrow> kept_all t u \<Longrightarrow> kept_all s u"
  by (auto simp: kept_all_def same_frame_def)

lemma kept_all_kept: "kept_all s t \<Longrightarrow> kept h s t"
  by (auto simp: kept_all_def kept_def same_frame_def in_frame_def)

lemma outside_trans: "outside G s t \<Longrightarrow> outside G t u \<Longrightarrow> outside G s u"
  by (auto simp: outside_def)

lemma kept_recur:
  "kept h s t \<Longrightarrow> recur_cnt (udisps t ! h) = recur_cnt (udisps s ! h)"
  by (simp add: kept_def in_frame_def)

lemma kept_noret:
  "kept h s t \<Longrightarrow> noret_jmp (udisps t ! h) = noret_jmp (udisps s ! h)"
  by (simp add: kept_def in_frame_def)

lemma hooks_at_safe: "hooks_at h st \<Longrightarrow> h \<in> G \<Longrightarrow> hooks_safe G st"
  by (auto simp: hooks_at_def hooks_safe_def)

section \<open>Updating one program's record\<close>

lemma length_upd_u [simp]: "length (udisps (upd_u h f st)) = length (udisps st)"
  by (simp add: upd_u_def)

lemma udisps_upd_u [simp]:
  "h < length (udisps st) \<Longrightarrow> udisps (upd_u h f st) ! h = f (udisps st ! h)"
  "g \<noteq> h \<Longrightarrow> udisps (upd_u h f st) ! g = udisps st ! g"
  by (simp_all add: upd_u_def)

lemma upd_u_frame [simp]:
  "chooks (upd_u h f st) = chooks st"
  "dos_live (upd_u h f st) = dos_live st"
  "dj_mem (upd_u h f st) = dj_mem st"
  "dj_base (upd_u h f st) = dj_base st"
  "next_jmp (upd_u h f st) = next_jmp st"
  "ustore (upd_u h f st) = ustore st"
  by (simp_all add: upd_u_def)

lemma wf_dj_udisp: "wf_dj st \<Longrightarrow> h < MAX_HANDLES \<Longrightarrow> wf_udisp (udisps st ! h)"
  by (simp add: wf_dj_def)

lemma wf_dj_length: "wf_dj st \<Longrightarrow> length (udisps st) = MAX_HANDLES"
  by (simp add: wf_dj_def)

lemma all_objs_upd_u:
  assumes "h < length (udisps st)"
  shows "all_objs (upd_u h f st) + udisp_objs (udisps st ! h)
    = all_objs st + udisp_objs (f (udisps st ! h))"
  using sum_list_update_add [of h "map udisp_objs (udisps st)" "udisp_objs (f (udisps st ! h))"] assms
  by (simp add: all_objs_def upd_u_def map_update)

text \<open>An update that leaves the objects alone, and keeps the record well formed.\<close>

lemma wf_dj_upd_u:
  assumes "wf_dj st" and "h < MAX_HANDLES" and "wf_udisp (f (udisps st ! h))"
    and "objs (f (udisps st ! h)) = objs (udisps st ! h)"
  shows "wf_dj (upd_u h f st)"
proof -
  have "udisp_objs (f (udisps st ! h)) = udisp_objs (udisps st ! h)"
    using assms(4) by (simp add: udisp_objs_def)
  with all_objs_upd_u [of h st f] assms(1,2) have "all_objs (upd_u h f st) = all_objs st"
    by (simp add: wf_dj_length)
  moreover have "\<forall>u \<in> set (udisps (upd_u h f st)). wf_udisp u"
    using ball_list_update [of "udisps st" wf_udisp "f (udisps st ! h)" h] assms(1,3)
    by (simp add: wf_dj_def upd_u_def)
  ultimately show ?thesis
    using assms(1) by (simp add: wf_dj_def)
qed

lemma entries_all_objs:
  assumes "h < length (udisps st)" and "k < length (objs (udisps st ! h))"
    and "x \<in># entries (objs (udisps st ! h) ! k)"
  shows "x \<in># all_objs st"
proof -
  from assms(2,3) have "x \<in># udisp_objs (udisps st ! h)"
    unfolding udisp_objs_def by (intro in_sum_list_mset [of k]) auto
  with assms(1) show ?thesis
    unfolding all_objs_def by (intro in_sum_list_mset [of h]) auto
qed

lemma wf_dj_cong:
  "udisps st' = udisps st \<Longrightarrow> dos_live st' = dos_live st \<Longrightarrow> wf_dj st' = wf_dj st"
  by (simp add: wf_dj_def all_objs_def)

lemma wf_dj_change:
  assumes wf: "wf_dj st" and h: "h < MAX_HANDLES" and us: "udisps st' = (udisps st)[h := u']"
    and u': "wf_udisp u'"
    and live: "mset (dos_live st') + udisp_objs (udisps st ! h) = mset (dos_live st) + udisp_objs u'"
  shows "wf_dj st'"
proof -
  have "all_objs st' + udisp_objs (udisps st ! h) = all_objs st + udisp_objs u'"
    using sum_list_update_add [of h "map udisp_objs (udisps st)" "udisp_objs u'"] wf h us
    by (simp add: all_objs_def map_update wf_dj_length)
  with live wf have "mset (dos_live st') = all_objs st'"
    by (simp add: wf_dj_def) (metis add_right_cancel)
  moreover have "\<forall>u \<in> set (udisps st'). wf_udisp u"
    using ball_list_update [of "udisps st" wf_udisp u' h] wf u' us by (simp add: wf_dj_def)
  ultimately show ?thesis using wf us by (simp add: wf_dj_def)
qed

section \<open>DOS objects\<close>

lemma multiset_exchange:
  fixes a b :: "'a multiset"
  assumes "u' + x = u + y" and "a + x = b + y"
  shows "a + u = b + u'"
proof -
  have "a + u + (x + y) = (a + x) + (u + y)" by (simp add: ac_simps)
  also have "\<dots> = (b + y) + (u' + x)" by (simp add: assms)
  also have "\<dots> = b + u' + (x + y)" by (simp add: ac_simps)
  finally show ?thesis by simp
qed

text \<open>One change of the object table of the running program, at its innermost level.\<close>

definition obj_step :: "nat \<Rightarrow> 'v dj \<Rightarrow> 'v dj \<Rightarrow> u32 list \<Rightarrow> bool" where
  "obj_step h st st' row \<longleftrightarrow>
     (let u = udisps st ! h; k = recur_cnt u - 1; old = objs u ! k in
      0 < recur_cnt u \<and> length row = MAX_OBJS \<and>
      udisps st' = (udisps st)[h := u\<lparr>objs := (objs u)[k := row],
        objcnt := objcnt u + int (size (entries row)) - int (size (entries old))\<rparr>] \<and>
      mset (dos_live st') + entries old = mset (dos_live st) + entries row \<and>
      chooks st' = chooks st)"

lemma udisp_objs_row:
  assumes "k < length (objs u)" and "objs u' = (objs u)[k := row]"
  shows "udisp_objs u' + entries (objs u ! k) = udisp_objs u + entries row"
  using sum_list_update_add [of k "map entries (objs u)" "entries row"] assms
  by (simp add: udisp_objs_def map_update)

lemma wf_udisp_row:
  assumes wf: "wf_udisp u" and r: "0 < recur_cnt u" and row: "length row = MAX_OBJS"
  shows "wf_udisp (u\<lparr>objs := (objs u)[recur_cnt u - 1 := row],
    objcnt := objcnt u + int (size (entries row)) - int (size (entries (objs u ! (recur_cnt u - 1))))\<rparr>)"
    (is "wf_udisp ?u")
proof -
  let ?k = "recur_cnt u - 1"
  from wf r have k: "?k < length (objs u)" by (auto simp: wf_udisp_def)
  have "size (udisp_objs ?u) + size (entries (objs u ! ?k)) = size (udisp_objs u) + size (entries row)"
    using arg_cong [OF udisp_objs_row [OF k, of ?u row], of size] by simp
  moreover have "\<forall>x \<in> set (objs ?u). length x = MAX_OBJS"
    using ball_list_update [of "objs u" "\<lambda>x. length x = MAX_OBJS" row ?k] wf row
    by (simp add: wf_udisp_def)
  moreover have "entries (objs ?u ! j) = {#}" if "j < MAX_RECUR" "recur_cnt u \<le> j" for j
    using wf r that by (simp add: wf_udisp_def)
  ultimately show ?thesis using wf by (simp add: wf_udisp_def)
qed

lemma obj_stepD:
  assumes wf: "wf_dj st" and h: "h < MAX_HANDLES" and step: "obj_step h st st' row"
  shows "wf_dj st'" "kept h st st'" "chooks st' = chooks st"
    "objs (udisps st' ! h) ! (recur_cnt (udisps st ! h) - 1) = row"
proof -
  let ?u = "udisps st ! h"
  let ?k = "recur_cnt ?u - 1"
  let ?u' = "?u\<lparr>objs := (objs ?u)[?k := row],
        objcnt := objcnt ?u + int (size (entries row)) - int (size (entries (objs ?u ! ?k)))\<rparr>"
  from step have r: "0 < recur_cnt ?u" and row: "length row = MAX_OBJS"
    and us: "udisps st' = (udisps st)[h := ?u']"
    and live: "mset (dos_live st') + entries (objs ?u ! ?k) = mset (dos_live st) + entries row"
    and hooks: "chooks st' = chooks st"
    by (auto simp: obj_step_def Let_def)
  from wf h have wfu: "wf_udisp ?u" by (rule wf_dj_udisp)
  with r have k: "?k < length (objs ?u)" by (auto simp: wf_udisp_def)
  have "mset (dos_live st') + udisp_objs ?u = mset (dos_live st) + udisp_objs ?u'"
    by (rule multiset_exchange [OF udisp_objs_row [OF k, of ?u' row] live]) simp
  with wf h us wf_udisp_row [OF wfu r row] show "wf_dj st'"
    by (rule wf_dj_change)
  show "kept h st st'"
    using us h wf by (auto simp: kept_def in_frame_def nth_list_update wf_dj_length)
  show "chooks st' = chooks st" by (rule hooks)
  show "objs (udisps st' ! h) ! ?k = row"
    using us h wf k by (simp add: wf_dj_length)
qed

end
