(* ===== verification/Thunk_Safe.thy ===== *)
theory Thunk_Safe
  imports Thunk_Inv
begin

text \<open>
  Every operation of the thunk runtime keeps the invariant, and so does every behaviour
  composed of them: the lemmas per operation, then the induction over \<open>prog\<close> and \<open>asm\<close>
  and the theorems on \<^verbatim>\<open>dj64_call\<close>.
\<close>

section \<open>Operations on DOS objects\<close>

lemma with_handle_int [simp]: "h < MAX_HANDLES \<Longrightarrow> with_handle (int h) f = f h"
  by (simp add: with_handle_def)

lemma with_handle_RetE [elim!]:
  assumes "with_handle hn f = Ret x st'"
  obtains h where "hn = int h" and "h < MAX_HANDLES" and "f h = Ret x st'"
  using assms that [of "nat hn"] by (auto simp: with_handle_def split: if_splits)

lemma put_oh_no_jump [simp]: "put_oh h addr v st \<noteq> Jump j rc st'"
  by (auto simp: put_oh_def Let_def split: option.splits)

lemma put_oh_RetE:
  assumes "put_oh h addr v st = Ret x st'"
  obtains i where "0 < recur_cnt (udisps st ! h)" and "recur_cnt (udisps st ! h) \<le> MAX_RECUR"
    and "find_oh addr (objs (udisps st ! h)) (recur_cnt (udisps st ! h)) = Some i"
    and "st' = upd_u h (\<lambda>u. u\<lparr>objs := (objs u)[recur_cnt (udisps st ! h) - 1 :=
           (objs u ! (recur_cnt (udisps st ! h) - 1))[i := v]]\<rparr>) st"
  using assms that by (auto simp: put_oh_def Let_def split: option.splits if_splits)

lemma wf_row_length:
  assumes "wf_dj st" and "h < MAX_HANDLES" and "0 < recur_cnt (udisps st ! h)"
  shows "recur_cnt (udisps st ! h) - 1 < length (objs (udisps st ! h))"
    and "length (objs (udisps st ! h) ! (recur_cnt (udisps st ! h) - 1)) = MAX_OBJS"
  using wf_dj_udisp [OF assms(1,2)] assms(3) by (auto simp: wf_udisp_def)

lemma find_oh_row:
  "length (tab ! (r - 1)) = MAX_OBJS \<Longrightarrow> find_oh addr tab r = index_of addr (tab ! (r - 1))"
  by (simp add: find_oh_def)

lemma udisp_objs_objcnt:
  "(u :: udisp)\<lparr>objcnt := n, objs := x\<rparr> = u\<lparr>objs := x, objcnt := n\<rparr>"
  by simp

lemma do_obj_init_step:
  assumes ret: "do_obj_init False pdata data is_out a (int h) st = Ret fa st'"
    and wf: "wf_dj st" and h: "h < MAX_HANDLES" and a: "a \<noteq> 0"
  shows "\<exists>row. obj_step h st st' row \<and> fa = a"
proof -
  let ?u = "udisps st ! h"
  let ?k = "recur_cnt ?u - 1"
  define st1 where "st1 = add_objcnt h 1 (if is_out then snd (mk_dosobj a st)
    else pr_dosobj a data (snd (mk_dosobj a st)))"
  have us1: "udisps st1 = (udisps st)[h := ?u\<lparr>objcnt := objcnt ?u + 1\<rparr>]"
    "dos_live st1 = a # dos_live st" "chooks st1 = chooks st"
    using a by (auto simp: st1_def add_objcnt_def mk_dosobj_def pr_dosobj_def upd_u_def)
  have u1: "udisps st1 ! h = ?u\<lparr>objcnt := objcnt ?u + 1\<rparr>"
    using us1(1) wf h by (simp add: wf_dj_length)
  from ret h obtain x where put: "put_oh h 0 a st1 = Ret x st'" and fa: "fa = a"
    by (auto simp: do_obj_init_def st1_def mk_dosobj_def Let_def split: if_splits)
  from put obtain i where r: "0 < recur_cnt ?u" and i: "find_oh 0 (objs ?u) (recur_cnt ?u) = Some i"
    and st': "st' = upd_u h (\<lambda>u. u\<lparr>objs := (objs u)[?k := (objs u ! ?k)[i := a]]\<rparr>) st1"
    by (rule put_oh_RetE) (simp add: u1)
  note len = wf_row_length [OF wf h r]
  from i have "index_of 0 (objs ?u ! ?k) = Some i" by (simp only: find_oh_row [OF len(2)])
  then have i: "i < length (objs ?u ! ?k)" "objs ?u ! ?k ! i = 0"
    by (auto dest: index_of_SomeD)
  have "obj_step h st st' ((objs ?u ! ?k)[i := a])"
    using r i a len us1 u1 by (simp add: obj_step_def Let_def st' entries_fill upd_u_def udisp_objs_objcnt)
  with fa show ?thesis by blast
qed

lemma clear_step:
  assumes ret: "put_oh h fa 0 (rm_dosobj fa st) = Ret x st1" and st': "st' = add_objcnt h (-1) st1"
    and wf: "wf_dj st" and h: "h < MAX_HANDLES" and fa: "fa \<noteq> 0"
  obtains i where
    "obj_step h st st' ((objs (udisps st ! h) ! (recur_cnt (udisps st ! h) - 1))[i := 0])"
    and "index_of fa (objs (udisps st ! h) ! (recur_cnt (udisps st ! h) - 1)) = Some i"
proof -
  let ?u = "udisps st ! h"
  let ?k = "recur_cnt ?u - 1"
  have rm: "udisps (rm_dosobj fa st) = udisps st" "chooks (rm_dosobj fa st) = chooks st"
    "dos_live (rm_dosobj fa st) = remove1 fa (dos_live st)"
    by (simp_all add: rm_dosobj_def)
  from ret obtain i where r: "0 < recur_cnt ?u" and i: "find_oh fa (objs ?u) (recur_cnt ?u) = Some i"
    and st1: "st1 = upd_u h (\<lambda>u. u\<lparr>objs := (objs u)[?k := (objs u ! ?k)[i := 0]]\<rparr>) (rm_dosobj fa st)"
    by (rule put_oh_RetE) (simp add: rm)
  note len = wf_row_length [OF wf h r]
  from i have ix: "index_of fa (objs ?u ! ?k) = Some i" by (simp only: find_oh_row [OF len(2)])
  then have i: "i < length (objs ?u ! ?k)" "objs ?u ! ?k ! i = fa"
    by (auto dest: index_of_SomeD)
  note ent = entries_clear [OF i(1), unfolded i(2), OF fa]
  have "fa \<in># all_objs st"
    using wf h len(1) ent by (intro entries_all_objs [of h st ?k]) (simp_all add: wf_dj_length)
  then have "mset (dos_live st) = add_mset fa (mset (remove1 fa (dos_live st)))"
    using wf by (simp add: wf_dj_def)
  with ent have "obj_step h st st' ((objs ?u ! ?k)[i := 0])"
    using r len rm h wf by (simp add: obj_step_def Let_def st' st1 upd_u_def add_objcnt_def wf_dj_length)
  with ix that show ?thesis by blast
qed

lemma dj64_obj_done_step:
  assumes "dj64_obj_done False fa len (int h) st = Ret bs st'"
    and "wf_dj st" and "h < MAX_HANDLES" and "fa \<noteq> 0"
  shows "\<exists>row. obj_step h st st' row"
  using assms by (auto simp: dj64_obj_done_def Let_def elim: clear_step [OF _ refl])

lemma dj64_rm_dosobj_step:
  assumes "dj64_rm_dosobj False fa (int h) st = Ret x st'"
    and "wf_dj st" and "h < MAX_HANDLES" and "fa \<noteq> 0"
  shows "\<exists>row. obj_step h st st' row"
  using assms by (auto simp: dj64_rm_dosobj_def do_rm_dosobj_def elim: clear_step [OF _ refl])

lemma obj_ops_no_jump [simp]:
  "do_obj_init is_dos pdata data is_out a gh st \<noteq> Jump j rc st'"
  "dj64_obj_done is_dos fa len gh st \<noteq> Jump j rc st'"
  "dj64_rm_dosobj is_dos fa gh st \<noteq> Jump j rc st'"
  by (auto simp: do_obj_init_def dj64_obj_done_def dj64_rm_dosobj_def do_rm_dosobj_def with_handle_def
      exec_assert_def exec_bind_def mk_dosobj_def Let_def split: exec.splits)

text \<open>
  Collecting the objects of an abandoned call: at index \<open>k\<close> the lower entries are already
  empty, so the search by address finds the entry itself.
\<close>

lemma index_of_first_nonzero:
  assumes "\<forall>j < k. xs ! j = 0" and "k < length xs" and "xs ! k \<noteq> 0"
  shows "index_of (xs ! k) xs = Some k"
proof -
  from assms(2) obtain i where i: "index_of (xs ! k) xs = Some i"
    using index_of_in_set [of "xs ! k" xs] by auto
  then have "xs ! i = xs ! k" by (auto dest: index_of_SomeD)
  with assms(1,3) have "\<not> i < k" by auto
  moreover have "\<not> k < i" using index_of_first [OF i] by auto
  ultimately show ?thesis using i by simp
qed

lemma put_oh_found:
  assumes "wf_dj st" and "h < MAX_HANDLES" and "0 < recur_cnt (udisps st ! h)"
    and "fa \<in> set (objs (udisps st ! h) ! (recur_cnt (udisps st ! h) - 1))"
  shows "\<exists>st'. put_oh h fa v (rm_dosobj fa' st) = Ret () st'"
proof -
  note len = wf_row_length [OF assms(1-3)]
  from assms(4) obtain i where "find_oh fa (objs (udisps st ! h)) (recur_cnt (udisps st ! h)) = Some i"
    by (metis find_oh_row [OF len(2)] index_of_in_set)
  moreover have "recur_cnt (udisps st ! h) \<le> MAX_RECUR"
    using wf_dj_udisp [OF assms(1,2)] by (simp add: wf_udisp_def)
  ultimately show ?thesis using assms(3) by (simp add: put_oh_def rm_dosobj_def Let_def)
qed

lemma gc_objs_from:
  assumes "wf_dj st" and "h < MAX_HANDLES" and "0 < recur_cnt (udisps st ! h)"
    and "\<forall>j < k. objs (udisps st ! h) ! (recur_cnt (udisps st ! h) - 1) ! j = 0"
    and "k \<le> MAX_OBJS"
  shows "\<exists>st'. gc_objs h [k..<MAX_OBJS] st = Ret () st' \<and> wf_dj st' \<and> kept h st st'
    \<and> chooks st' = chooks st
    \<and> entries (objs (udisps st' ! h) ! (recur_cnt (udisps st ! h) - 1)) = {#}"
  using assms
proof (induction "MAX_OBJS - k" arbitrary: k st)
  case 0
  let ?row = "objs (udisps st ! h) ! (recur_cnt (udisps st ! h) - 1)"
  have "length ?row = k" using 0 wf_row_length(2) [OF 0(2-4)] by simp
  with 0(5) have "entries ?row = {#}" by (auto simp: entries_empty_iff in_set_conv_nth)
  with 0 show ?case by simp
next
  case (Suc n)
  let ?u = "udisps st ! h"
  let ?row = "objs ?u ! (recur_cnt ?u - 1)"
  note len = wf_row_length [OF Suc(3-5)]
  have k: "k < MAX_OBJS" using Suc(2) by simp
  then have upt: "[k..<MAX_OBJS] = k # [Suc k..<MAX_OBJS]" by (rule upt_conv_Cons)
  show ?case
  proof (cases "?row ! k = 0")
    case True
    with Suc.prems have "\<forall>j < Suc k. ?row ! j = 0" by (auto simp: less_Suc_eq)
    from Suc.hyps(1) [OF _ Suc(3-5) this] Suc.hyps(2) k
    show ?thesis using True by (auto simp: upt)
  next
    case False
    have ix: "index_of (?row ! k) ?row = Some k"
      using Suc.prems(4) k False len(2) by (intro index_of_first_nonzero) simp_all
    have mem: "?row ! k \<in> set ?row" using k len(2) by auto
    from put_oh_found [OF Suc(3-5) mem, of 0 "?row ! k"] obtain st1
      where put: "put_oh h (?row ! k) 0 (rm_dosobj (?row ! k) st) = Ret () st1" by blast
    define st2 where "st2 = add_objcnt h (-1) st1"
    from put st2_def Suc(3,4) False obtain i where step: "obj_step h st st2 (?row[i := 0])"
      and "index_of (?row ! k) ?row = Some i"
      by (rule clear_step)
    with ix have step: "obj_step h st st2 (?row[k := 0])" by simp
    note D = obj_stepD [OF Suc(3,4) step]
    have r2: "recur_cnt (udisps st2 ! h) = recur_cnt ?u" using D(2) by (rule kept_recur)
    have "\<exists>st'. gc_objs h [Suc k..<MAX_OBJS] st2 = Ret () st' \<and> wf_dj st' \<and> kept h st2 st'
        \<and> chooks st' = chooks st2
        \<and> entries (objs (udisps st' ! h) ! (recur_cnt (udisps st2 ! h) - 1)) = {#}"
      using Suc.prems(4) D(4) Suc.hyps(2) k len(2) Suc.prems(3)
      by (intro Suc.hyps(1) D(1) Suc(4)) (auto simp: r2 less_Suc_eq)
    then obtain st' where st': "gc_objs h [Suc k..<MAX_OBJS] st2 = Ret () st'" "wf_dj st'"
      "kept h st2 st'" "chooks st' = chooks st2"
      "entries (objs (udisps st' ! h) ! (recur_cnt ?u - 1)) = {#}"
      unfolding r2 by blast
    have "gc_objs h [k..<MAX_OBJS] st = Ret () st'"
      using False put st'(1) by (simp add: upt do_rm_dosobj_def st2_def Let_def)
    with st' D kept_trans [OF D(2) st'(3)] show ?thesis by auto
  qed
qed

lemmas gc_objs_all = gc_objs_from [where k = 0, simplified]

section \<open>Hooks\<close>

lemma hooks_save_at:
  assumes "hooks_at h st"
  obtains st' where "hooks_save st = Ret () st'" and "udisps st' = udisps st"
    and "dos_live st' = dos_live st" and "hooks_at h st'" and "hooks_safe {} st'"
    and "\<And>g. contents g st' = contents g st"
proof -
  from assms have "\<forall>c \<in> set (chooks st). swctx_wf c \<and> sw_cur c = Some h"
    by (simp add: hooks_at_def)
  then obtain hs where hs: "hooks_run swctx_save (chooks st) = Inr hs"
    "\<forall>c \<in> set hs. swctx_synced c \<and> swctx_wf c \<and> sw_cur c = Some h"
    "\<And>g. map (swctx_of g) hs = map (swctx_of g) (chooks st)"
    by (rule sw.save_all) blast
  show ?thesis
    by (rule that [of "st\<lparr>chooks := hs\<rparr>"])
      (use hs in \<open>auto simp: hooks_save_def hooks_exec_def hooks_at_def hooks_safe_def contents_def\<close>)
qed

lemma hooks_safe_mono: "hooks_safe F st \<Longrightarrow> F \<subseteq> G \<Longrightarrow> hooks_safe G st"
  by (fastforce simp: hooks_safe_def)

lemma hooks_restore_frame [simp]:
  "udisps (hooks_restore h st) = udisps st" "dos_live (hooks_restore h st) = dos_live st"
  "next_jmp (hooks_restore h st) = next_jmp st"
  by (simp_all add: hooks_restore_def)

lemma hooks_restore_at:
  assumes safe: "hooks_safe G st" and h: "h < MAX_HANDLES"
  shows "hooks_at h (hooks_restore h st)" and "outside G st (hooks_restore h st)"
    and "contents h (hooks_restore h st) = contents h st"
proof -
  have hmax: "h < SW_CTX_MAX" using h by (simp add: max_defs)
  show "hooks_at h (hooks_restore h st)"
    using sw.restore_all_at [OF _ hmax, of "chooks st"] safe
    by (simp add: hooks_at_def hooks_restore_def hooks_safe_def)
  have "contents g (hooks_restore h st) = contents g st" if g: "g \<notin> G \<or> g = h" for g
  proof -
    have "\<forall>c \<in> set (chooks st). swctx_synced c \<or> sw_cur c \<noteq> Some g \<or> g = h"
      using safe g by (fastforce simp: hooks_safe_def)
    from sw.restore_contents [OF this] show ?thesis
      by (simp add: contents_def hooks_restore_def)
  qed
  then show "outside G st (hooks_restore h st)" "contents h (hooks_restore h st) = contents h st"
    by (auto simp: outside_def)
qed

section \<open>Opening and closing a frame\<close>

lemma wf_udisp_enter:
  "wf_udisp u \<Longrightarrow> recur_cnt u < MAX_RECUR \<Longrightarrow> wf_udisp (u\<lparr>recur_cnt := Suc (recur_cnt u)\<rparr>)"
  by (simp add: wf_udisp_def udisp_objs_def)

lemma wf_udisp_cong:
  "objs u' = objs u \<Longrightarrow> disp u' = disp u \<Longrightarrow> at u' = at u \<Longrightarrow> pt u' = pt u \<Longrightarrow>
   recur_cnt u' = recur_cnt u \<Longrightarrow> objcnt u' = objcnt u \<Longrightarrow> wf_udisp u' = wf_udisp u"
  by (simp add: wf_udisp_def udisp_objs_def)

text \<open>
  When a call that entered level \<open>recur_cnt u\<close> is over, the counter test of the code holds
  exactly when the level is empty, and then the object table is what it was.
\<close>

lemma frame_close:
  assumes u: "wf_udisp u" and u': "wf_udisp u'" and r: "recur_cnt u < MAX_RECUR"
    and same: "\<And>k. k \<noteq> recur_cnt u \<Longrightarrow> objs u' ! k = objs u ! k"
  shows "objcnt u' = objcnt u \<longleftrightarrow> entries (objs u' ! recur_cnt u) = {#}"
    and "entries (objs u' ! recur_cnt u) = {#} \<Longrightarrow> objs u' = objs u"
proof -
  let ?k = "recur_cnt u"
  from u u' r have len: "length (objs u) = MAX_RECUR" "length (objs u') = MAX_RECUR"
    "length (objs u ! ?k) = MAX_OBJS" "length (objs u' ! ?k) = MAX_OBJS"
    by (auto simp: wf_udisp_def)
  from u r have empty: "entries (objs u ! ?k) = {#}" by (simp add: wf_udisp_def)
  have upd: "objs u' = (objs u)[?k := objs u' ! ?k]"
    by (rule nth_equalityI) (use len(1,2) same r in \<open>auto simp: nth_list_update\<close>)
  have "udisp_objs u' + entries (objs u ! ?k) = udisp_objs u + entries (objs u' ! ?k)"
    using r len(1) by (intro udisp_objs_row [OF _ upd]) simp
  with empty have "size (udisp_objs u') = size (udisp_objs u) + size (entries (objs u' ! ?k))"
    by simp
  with u u' show "objcnt u' = objcnt u \<longleftrightarrow> entries (objs u' ! ?k) = {#}"
    by (auto simp: wf_udisp_def)
  assume "entries (objs u' ! ?k) = {#}"
  then have "\<forall>x \<in> set (objs u' ! ?k). x = 0" by (simp add: entries_empty_iff)
  moreover from empty have "\<forall>x \<in> set (objs u ! ?k). x = 0" by (simp add: entries_empty_iff)
  ultimately have "objs u' ! ?k = objs u ! ?k"
    using len(3,4) by (metis nth_equalityI nth_mem)
  with upd show "objs u' = objs u" by simp
qed

section \<open>What a behaviour guarantees\<close>

definition prog_post :: "nat set \<Rightarrow> nat \<Rightarrow> 'v dj \<Rightarrow> ('v dj, 'a) exec \<Rightarrow> bool" where
  "prog_post G h st r =
     (case r of
        Ret _ st' \<Rightarrow> wf_dj st' \<and> kept h st st' \<and> hooks_at h st' \<and> outside G st st'
      | Jump j rc st' \<Rightarrow> noret_jmp (udisps st ! h) = Some j \<and> wf_dj st' \<and> kept h st st'
          \<and> hooks_safe G st' \<and> outside G st st'
      | Fault _ \<Rightarrow> True)"

definition asm_post :: "nat set \<Rightarrow> 'v dj \<Rightarrow> ('v dj, 'a) exec \<Rightarrow> bool" where
  "asm_post G st r =
     (case r of
        Ret _ st' \<Rightarrow> wf_dj st' \<and> kept_all st st' \<and> hooks_safe G st' \<and> outside G st st'
      | Jump _ _ _ \<Rightarrow> False
      | Fault _ \<Rightarrow> True)"

lemma post_simps [simp]:
  "prog_post G h st (Ret x st') \<longleftrightarrow>
     wf_dj st' \<and> kept h st st' \<and> hooks_at h st' \<and> outside G st st'"
  "prog_post G h st (Jump j rc st') \<longleftrightarrow> noret_jmp (udisps st ! h) = Some j \<and> wf_dj st'
     \<and> kept h st st' \<and> hooks_safe G st' \<and> outside G st st'"
  "prog_post G h st (Fault e)"
  "asm_post G st (Ret x st') \<longleftrightarrow> wf_dj st' \<and> kept_all st st' \<and> hooks_safe G st' \<and> outside G st st'"
  "\<not> asm_post G st (Jump j rc st')"
  "asm_post G st (Fault e)"
  by (simp_all add: prog_post_def asm_post_def)

lemma prog_post_trans:
  assumes "wf_dj s \<Longrightarrow> prog_post G h t r" and "wf_dj s" and "kept h s t" and "outside G s t"
  shows "prog_post G h s r"
  using assms
  by (cases r) (auto simp: kept_noret intro: kept_trans outside_trans)

text \<open>Closing a frame whose level is empty: the state differs from the one before the call
  in nothing the frame relation mentions.\<close>

lemma close_frame:
  assumes wf: "wf_dj st" and h: "h < MAX_HANDLES" and r: "recur_cnt (udisps st ! h) < MAX_RECUR"
    and us1: "udisps st1 = (udisps st)[h := u1]"
    and u1: "recur_cnt u1 = Suc (recur_cnt (udisps st ! h))" "objs u1 = objs (udisps st ! h)"
    and wf2: "wf_dj st2" and kept: "kept h st1 st2"
    and empty: "entries (objs (udisps st2 ! h) ! recur_cnt (udisps st ! h)) = {#}"
    and us3: "udisps st3 = (udisps st2)[h := (udisps st2 ! h)\<lparr>noret_jmp := noret_jmp (udisps st ! h),
        recur_cnt := recur_cnt (udisps st2 ! h) - 1\<rparr>]"
    and live: "dos_live st3 = dos_live st2"
  shows "wf_dj st3" and "kept_all st st3"
proof -
  let ?u = "udisps st ! h" and ?u2 = "udisps st2 ! h"
  note len = wf_dj_length [OF wf] wf_dj_length [OF wf2]
  have wfu: "wf_udisp ?u" "wf_udisp ?u2"
    using wf_dj_udisp [OF wf h] wf_dj_udisp [OF wf2 h] by auto
  have st1h: "udisps st1 ! h = u1" using us1 h len by simp
  have r2: "recur_cnt ?u2 = Suc (recur_cnt ?u)"
    using kept_recur [OF kept] st1h u1 by simp
  have rows: "objs ?u2 ! k = objs ?u ! k" if "k \<noteq> recur_cnt ?u" for k
    using kept that u1 st1h by (auto simp: kept_def in_frame_def)
  note fc = frame_close [OF wfu r rows]
  from fc(2) empty have objs: "objs ?u2 = objs ?u" by simp
  from fc(1) empty have cnt: "objcnt ?u2 = objcnt ?u" by simp
  let ?u3 = "?u2\<lparr>noret_jmp := noret_jmp ?u, recur_cnt := recur_cnt ?u2 - 1\<rparr>"
  have "wf_udisp ?u3"
    using wfu r2 objs by (simp add: wf_udisp_def udisp_objs_def)
  then show "wf_dj st3"
    using wf2 h us3 live by (intro wf_dj_change [OF wf2 h us3]) (simp_all add: udisp_objs_def)
  show "kept_all st st3"
    unfolding kept_all_def
  proof
    fix g
    show "same_frame (udisps st ! g) (udisps st3 ! g)"
    proof (cases "g = h")
      case True
      with us3 h len r2 objs cnt show ?thesis by (simp add: same_frame_def)
    next
      case False
      with us3 us1 kept show ?thesis by (auto simp: kept_def)
    qed
  qed
qed

lemma outside_cong:
  "chooks s' = chooks s \<Longrightarrow> chooks t' = chooks t \<Longrightarrow> outside G s' t' = outside G s t"
  by (simp add: outside_def contents_def)

lemma hooks_cong:
  "chooks s' = chooks s \<Longrightarrow> hooks_at h s' = hooks_at h s"
  "chooks s' = chooks s \<Longrightarrow> hooks_safe G s' = hooks_safe G s"
  by (simp_all add: hooks_at_def hooks_safe_def)

section \<open>Serving a call\<close>

definition call_entry :: "nat \<Rightarrow> regs \<Rightarrow> 'v dj \<Rightarrow> 'v dj" where
  "call_entry h r st =
     (let st = hooks_restore h (upd_u h (\<lambda>u. u\<lparr>recur_cnt := Suc (recur_cnt u)\<rparr>) st); j = next_jmp st
      in upd_u h (\<lambda>u. u\<lparr>s_regs := r, noret_jmp := Some j\<rparr>) (st\<lparr>next_jmp := Suc j\<rparr>))"

lemma call_entry:
  assumes wf: "wf_dj st" and safe: "hooks_safe G st" and h: "h < MAX_HANDLES"
    and r: "recur_cnt (udisps st ! h) < MAX_RECUR"
  shows "wf_dj (call_entry h rg st)" and "hooks_at h (call_entry h rg st)"
    and "outside G st (call_entry h rg st)"
    and "udisps (call_entry h rg st) = (udisps st)[h := (udisps st ! h)\<lparr>
          recur_cnt := Suc (recur_cnt (udisps st ! h)), s_regs := rg, noret_jmp := Some (next_jmp st)\<rparr>]"
proof -
  let ?u = "udisps st ! h"
  show us: "udisps (call_entry h rg st) = (udisps st)[h := ?u\<lparr>
          recur_cnt := Suc (recur_cnt ?u), s_regs := rg, noret_jmp := Some (next_jmp st)\<rparr>]"
    using h by (simp add: call_entry_def upd_u_def hooks_restore_def Let_def wf_dj_length [OF wf])
  have "wf_udisp (?u\<lparr>recur_cnt := Suc (recur_cnt ?u), s_regs := rg, noret_jmp := Some (next_jmp st)\<rparr>)"
    using wf_udisp_enter [OF wf_dj_udisp [OF wf h] r] by (simp add: wf_udisp_def udisp_objs_def)
  then show "wf_dj (call_entry h rg st)"
    by (intro wf_dj_change [OF wf h us])
      (simp_all add: udisp_objs_def call_entry_def upd_u_def hooks_restore_def Let_def)
  have hk: "chooks (call_entry h rg st) = chooks (hooks_restore h st)"
    by (simp add: call_entry_def upd_u_def hooks_restore_def Let_def)
  show "hooks_at h (call_entry h rg st)"
    using hooks_restore_at(1) [OF safe h] by (simp add: hooks_cong(1) [OF hk])
  show "outside G st (call_entry h rg st)"
    using hooks_restore_at(2) [OF safe h] by (simp add: outside_cong [OF refl hk])
qed

text \<open>The end of \<^verbatim>\<open>dj64_call\<close>, after the dispatched function is over.\<close>

definition call_fin :: "nat \<Rightarrow> udisp \<Rightarrow> call_ret \<Rightarrow> regs \<Rightarrow> 'v dj \<Rightarrow> ('v dj, call_ret \<times> regs) exec" where
  "call_fin h u ret r s = exec_assert (objcnt (udisps s ! h) = objcnt u)
     (let s = upd_u h (\<lambda>u'. u'\<lparr>noret_jmp := noret_jmp u\<rparr>) s in
      exec_bind (if ret = DJ64_RET_OK then hooks_save s else Ret () s) (\<lambda>_ s.
        Ret (ret, r) (upd_u h (\<lambda>u'. u'\<lparr>recur_cnt := recur_cnt u' - 1\<rparr>) s)))"

text \<open>The whole of \<^verbatim>\<open>dj64_call\<close> for a program whose arguments pass the asserts.\<close>

lemma dj64_call_unfold:
  assumes h: "h < MAX_HANDLES" and len: "length (udisps st) = MAX_HANDLES"
    and d: "disp (udisps st ! h) ! nat libid = Some d" and l: "0 \<le> libid" "libid < int MAX_DISPS"
    and r: "recur_cnt (udisps st ! h) < MAX_RECUR"
  shows "dj64_call (int h) libid rg code st =
    (let u = udisps st ! h; s1 = call_entry h rg st in
     case code d s1 of
          Fault e \<Rightarrow> Fault e
        | Ret (res, len) s \<Rightarrow> call_fin h u DJ64_RET_OK
            (let r = s_regs (udisps s ! h) in if len \<in> {1, 2, 4} then r\<lparr>eax := res\<rparr> else r) s
        | Jump j' rc s \<Rightarrow>
            (if j' = next_jmp st
             then exec_bind (gc_objs h [0..<MAX_OBJS] (hooks_restore h s)) (\<lambda>_ s.
                    call_fin h u (if rc = ASM_NORET then DJ64_RET_NORET else DJ64_RET_ABORT) rg s)
             else Jump j' rc s))"
proof -
  have e: "call_entry h rg st = upd_u h (\<lambda>u. u\<lparr>s_regs := rg, noret_jmp := Some (next_jmp st)\<rparr>)
      ((hooks_restore h (upd_u h (\<lambda>u. u\<lparr>recur_cnt := Suc (recur_cnt u)\<rparr>) st))\<lparr>next_jmp := Suc (next_jmp st)\<rparr>)"
    by (simp add: call_entry_def Let_def)
  show ?thesis
    using h len d l r
    by (simp add: dj64_call_def dj64_call1_def e call_fin_def Let_def exec_bind_def split: exec.split)
qed

lemma call_fin_post:
  assumes wf: "wf_dj st" and h: "h < MAX_HANDLES" and hG: "h \<in> G"
    and r: "recur_cnt (udisps st ! h) < MAX_RECUR"
    and us1: "udisps st1 = (udisps st)[h := u1]"
    and u1: "recur_cnt u1 = Suc (recur_cnt (udisps st ! h))" "objs u1 = objs (udisps st ! h)"
    and wf2: "wf_dj s" and kept: "kept h st1 s" and at: "hooks_at h s" and out: "outside G st s"
  shows "asm_post G st (call_fin h (udisps st ! h) ret rg s)"
    and "entries (objs (udisps s ! h) ! recur_cnt (udisps st ! h)) = {#} \<Longrightarrow>
      \<exists>s'. call_fin h (udisps st ! h) ret rg s = Ret (ret, rg) s'"
proof -
  let ?u = "udisps st ! h"
  let ?s = "upd_u h (\<lambda>u'. u'\<lparr>noret_jmp := noret_jmp ?u\<rparr>) s"
  have at': "hooks_at h ?s" using at by (simp add: hooks_at_def)
  obtain s4 where "(if ret = DJ64_RET_OK then hooks_save ?s else Ret () ?s) = Ret () s4"
    and us4: "udisps s4 = udisps ?s" and live4: "dos_live s4 = dos_live ?s" and at4: "hooks_at h s4"
    and con4: "\<And>g. contents g s4 = contents g ?s"
  proof (cases "ret = DJ64_RET_OK")
    case True
    with that show thesis by (rule_tac hooks_save_at [OF at']) simp
  next
    case False
    with that [of ?s] at' show thesis by simp
  qed
  then have fin: "call_fin h ?u ret rg s = exec_assert (objcnt (udisps s ! h) = objcnt ?u)
      (Ret (ret, rg) (upd_u h (\<lambda>u'. u'\<lparr>recur_cnt := recur_cnt u' - 1\<rparr>) s4))"
    by (simp add: call_fin_def Let_def)
  have rows: "objs (udisps s ! h) ! k = objs ?u ! k" if "k \<noteq> recur_cnt ?u" for k
    using kept that u1 us1 h wf_dj_length [OF wf] by (auto simp: kept_def in_frame_def)
  note fc = frame_close [OF wf_dj_udisp [OF wf h] wf_dj_udisp [OF wf2 h] r rows]
  let ?s5 = "upd_u h (\<lambda>u'. u'\<lparr>recur_cnt := recur_cnt u' - 1\<rparr>) s4"
  have us5: "udisps ?s5 = (udisps s)[h := (udisps s ! h)\<lparr>noret_jmp := noret_jmp ?u,
        recur_cnt := recur_cnt (udisps s ! h) - 1\<rparr>]"
    using us4 h wf_dj_length [OF wf2] by (simp add: upd_u_def)
  have "asm_post G st (Ret (ret, rg) ?s5)" if e: "entries (objs (udisps s ! h) ! recur_cnt ?u) = {#}"
  proof -
    note cf = close_frame [OF wf h r us1 u1 wf2 kept e us5]
    have "hooks_safe G ?s5" using at4 hG by (auto intro: hooks_at_safe simp: hooks_at_def)
    moreover have "outside G st ?s5"
      using out con4 by (simp add: outside_def contents_def)
    ultimately show ?thesis using cf live4 by simp
  qed
  with fin fc(1) show "asm_post G st (call_fin h ?u ret rg s)"
    by (auto simp: exec_assert_def)
  show "entries (objs (udisps s ! h) ! recur_cnt ?u) = {#} \<Longrightarrow>
      \<exists>s'. call_fin h ?u ret rg s = Ret (ret, rg) s'"
    using fin fc(1) by simp
qed

lemma dj64_call_post:
  assumes wf: "wf_dj st" and safe: "hooks_safe G st" and h: "h < MAX_HANDLES" and hG: "h \<in> G"
    and code: "\<And>d s. wf_dj s \<Longrightarrow> 0 < recur_cnt (udisps s ! h) \<Longrightarrow> hooks_at h s \<Longrightarrow>
      prog_post G h s (code d s)"
  shows "asm_post G st (dj64_call (int h) libid rg code st)"
proof (cases "0 \<le> libid \<and> libid < int MAX_DISPS \<and> recur_cnt (udisps st ! h) < MAX_RECUR
    \<and> disp (udisps st ! h) ! nat libid \<noteq> None")
  case False
  then have "\<exists>e. dj64_call (int h) libid rg code st = Fault e"
    using h wf_dj_length [OF wf]
    by (auto simp: dj64_call_def dj64_call1_def exec_assert_def Let_def)
  then show ?thesis by auto
next
  case True
  then obtain d where d: "disp (udisps st ! h) ! nat libid = Some d" by auto
  from True have r: "recur_cnt (udisps st ! h) < MAX_RECUR" by simp
  let ?u = "udisps st ! h" and ?s1 = "call_entry h rg st"
  note entry = call_entry [OF wf safe h r, where rg = rg]
  have s1h: "recur_cnt (udisps ?s1 ! h) = Suc (recur_cnt ?u)"
    "noret_jmp (udisps ?s1 ! h) = Some (next_jmp st)"
    using h wf_dj_length [OF wf] by (simp_all add: entry(4))
  have post: "prog_post G h ?s1 (code d ?s1)"
    using s1h by (intro code entry) simp
  note fin = call_fin_post [OF wf h hG r entry(4)]
  note unf = dj64_call_unfold [OF h wf_dj_length [OF wf] d _ _ r, of rg code]
  show ?thesis
  proof (cases "code d ?s1")
    case (Ret x s)
    with post have s: "wf_dj s" "kept h ?s1 s" "hooks_at h s" "outside G ?s1 s" by simp_all
    have "asm_post G st (call_fin h ?u DJ64_RET_OK rg' s)" for rg'
      by (rule fin(1) [OF _ _ s(1-3) outside_trans [OF entry(3) s(4)]]) simp_all
    with Ret unf True show ?thesis by (cases x) (simp add: Let_def)
  next
    case (Jump j rc s)
    with post s1h have j: "j = next_jmp st" and s: "wf_dj s" "kept h ?s1 s" "hooks_safe G s"
      "outside G ?s1 s" by auto
    let ?s2 = "hooks_restore h s"
    have s2: "wf_dj ?s2" using s(1) by (simp add: wf_dj_cong [of ?s2 s])
    have k2: "kept h ?s1 ?s2" using s(2) by (simp add: kept_def)
    have "0 < recur_cnt (udisps ?s2 ! h)" using kept_recur [OF k2] s1h by simp
    from gc_objs_all [OF s2 h this] obtain s3 where gc: "gc_objs h [0..<MAX_OBJS] ?s2 = Ret () s3"
      and s3: "wf_dj s3" "kept h ?s2 s3" "chooks s3 = chooks ?s2" by auto
    have at3: "hooks_at h s3" and out3: "outside G ?s2 s3"
      using hooks_restore_at(1) [OF s(3) h] s3(3)
      by (simp_all add: hooks_cong(1) [OF s3(3)] outside_def contents_def)
    have "outside G st s3"
      by (rule outside_trans [OF entry(3) outside_trans [OF s(4)
            outside_trans [OF hooks_restore_at(2) [OF s(3) h] out3]]])
    then have "asm_post G st (call_fin h ?u ret rg' s3)" for ret rg'
      by (intro fin(1) [OF _ _ s3(1) kept_trans [OF k2 s3(2)] at3]) simp_all
    with Jump unf True j gc show ?thesis by (simp add: Let_def)
  next
    case (Fault e)
    with unf True show ?thesis by (simp add: Let_def)
  qed
qed

section \<open>Calling the DOS program\<close>

lemma upd_s_regs:
  assumes "wf_dj st" and "h < MAX_HANDLES"
  shows "wf_dj (upd_u h (\<lambda>u. u\<lparr>s_regs := r\<rparr>) st)" and "kept_all st (upd_u h (\<lambda>u. u\<lparr>s_regs := r\<rparr>) st)"
    and "noret_jmp (udisps (upd_u h (\<lambda>u. u\<lparr>s_regs := r\<rparr>) st) ! g) = noret_jmp (udisps st ! g)"
    and "hooks_safe G (upd_u h (\<lambda>u. u\<lparr>s_regs := r\<rparr>) st) = hooks_safe G st"
    and "outside G s (upd_u h (\<lambda>u. u\<lparr>s_regs := r\<rparr>) st) = outside G s st"
proof -
  note len = wf_dj_length [OF assms(1)]
  show "wf_dj (upd_u h (\<lambda>u. u\<lparr>s_regs := r\<rparr>) st)"
    using wf_dj_udisp [OF assms] by (intro wf_dj_upd_u assms) (simp_all add: wf_udisp_def udisp_objs_def)
  show "kept_all st (upd_u h (\<lambda>u. u\<lparr>s_regs := r\<rparr>) st)"
    using assms(2) len by (auto simp: kept_all_def same_frame_def upd_u_def nth_list_update)
  show "noret_jmp (udisps (upd_u h (\<lambda>u. u\<lparr>s_regs := r\<rparr>) st) ! g) = noret_jmp (udisps st ! g)"
    using assms(2) len by (auto simp: upd_u_def nth_list_update)
qed (simp_all add: hooks_safe_def outside_def contents_def)

lemma kept_all_noret: "kept_all s t \<Longrightarrow> noret_jmp (udisps t ! g) = noret_jmp (udisps s ! g)"
  by (simp add: kept_all_def same_frame_def)

text \<open>
  The shape of all four calls into the DOS program: save the contexts, run it, restore the
  contexts; the abort paths jump to the innermost frame of the program.
\<close>

definition mid_post :: "nat set \<Rightarrow> nat \<Rightarrow> 'v dj \<Rightarrow> ('v dj, 'a) exec \<Rightarrow> bool" where
  "mid_post G h st r =
     (case r of
        Ret _ st' \<Rightarrow> wf_dj st' \<and> kept_all st st' \<and> hooks_safe G st' \<and> outside G st st'
      | Jump j rc st' \<Rightarrow> noret_jmp (udisps st ! h) = Some j \<and> wf_dj st' \<and> kept_all st st'
          \<and> hooks_safe G st' \<and> outside G st st'
      | Fault _ \<Rightarrow> True)"

lemma do_asm_call_post:
  assumes wf: "wf_dj st" and h: "h < MAX_HANDLES" and asm: "\<And>pma. asm_post G st (asm pma st)"
  shows "mid_post G h st (do_asm_call h p num flags asm st)"
    and "mid_post G h st (do_asm_noret h p num asm st)"
proof -
  let ?t = "deref h p st"
  let ?pma = "(cs (udisps st ! h), at_tab ?t ! nat num)"
  have "mid_post G h st (do_asm_call h p num flags asm st) \<and>
      mid_post G h st (do_asm_noret h p num asm st)"
  proof (cases "asm ?pma st")
    case (Ret x s)
    then obtain rc r where x: "x = (rc, r)" by (cases x)
    from asm [of ?pma] Ret have s: "wf_dj s" "kept_all st s" "hooks_safe G s" "outside G st s"
      by simp_all
    note u = upd_s_regs [OF s(1) h, where r = r]
    from s u have "mid_post G h st (Ret y (upd_u h (\<lambda>u. u\<lparr>s_regs := r\<rparr>) s))" for y :: 'b
      by (simp add: mid_post_def kept_all_trans [OF s(2) u(2)])
    moreover from s u have "mid_post G h st (Ret () (upd_u h (\<lambda>u. u\<lparr>s_regs := r\<rparr>) s))"
      by (simp add: mid_post_def kept_all_trans [OF s(2) u(2)])
    moreover have "mid_post G h st (do_longjmp h ASM_ABORT (upd_u h (\<lambda>u. u\<lparr>s_regs := r\<rparr>) s))"
      using s u kept_all_noret [OF s(2)]
      by (auto simp: mid_post_def do_longjmp_def kept_all_trans [OF s(2) u(2)] split: option.split)
    ultimately show ?thesis
      by (auto simp: do_asm_call_def do_asm_noret_def Ret x Let_def exec_assert_def
          split: asm_rc.split) (auto simp: mid_post_def)
  next
    case (Jump j rc s)
    with asm [of ?pma] show ?thesis by simp
  next
    case (Fault e)
    then show ?thesis
      by (auto simp: do_asm_call_def do_asm_noret_def Let_def exec_assert_def mid_post_def)
  qed
  then show "mid_post G h st (do_asm_call h p num flags asm st)"
    and "mid_post G h st (do_asm_noret h p num asm st)" by auto
qed

text \<open>Around it the contexts are saved before and restored after.\<close>

lemma around_asm:
  assumes wf: "wf_dj st" and h: "h < MAX_HANDLES" and hG: "h \<in> G" and at: "hooks_at h st"
    and body: "\<And>s. wf_dj s \<Longrightarrow> hooks_safe {} s \<Longrightarrow> mid_post G h s (body s)"
  shows "prog_post G h st (exec_bind (hooks_save st) (\<lambda>_ s. exec_bind (body s) (\<lambda>x s.
      Ret (f x) (hooks_restore h s))))"
    and "prog_post G h st (exec_bind (hooks_save st) (\<lambda>_ s. exec_bind (body s) (\<lambda>x s.
      do_longjmp h rc (hooks_restore h s))))"
proof -
  obtain s where save: "hooks_save st = Ret () s" and s: "udisps s = udisps st"
    "dos_live s = dos_live st" "hooks_at h s" "hooks_safe {} s" "\<And>g. contents g s = contents g st"
    by (rule hooks_save_at [OF at]) blast
  have wfs: "wf_dj s" using wf wf_dj_cong [OF s(1,2)] by simp
  have out: "outside G st s" using s(5) by (simp add: outside_def)
  from body [OF wfs s(4)] have mid: "mid_post G h s (body s)" .
  have "prog_post G h st (exec_bind (body s) (\<lambda>x s. Ret (f x) (hooks_restore h s))) \<and>
    prog_post G h st (exec_bind (body s) (\<lambda>x s. do_longjmp h rc (hooks_restore h s)))"
  proof (cases "body s")
    case (Ret x s')
    with mid have s': "wf_dj s'" "kept_all s s'" "hooks_safe G s'" "outside G s s'"
      by (simp_all add: mid_post_def)
    let ?r = "hooks_restore h s'"
    have r: "wf_dj ?r" "hooks_at h ?r" "outside G st ?r" "kept h st ?r"
      using s'(1) wf_dj_cong [of ?r s'] hooks_restore_at [OF s'(3) h]
        outside_trans [OF out outside_trans [OF s'(4) hooks_restore_at(2) [OF s'(3) h]]]
        kept_all_kept [OF s'(2), of h] s(1)
      by (simp_all add: kept_def)
    moreover have "noret_jmp (udisps ?r ! h) = noret_jmp (udisps st ! h)"
      using kept_all_noret [OF s'(2)] s(1) by simp
    ultimately show ?thesis
      using Ret hooks_at_safe [OF r(2) hG] by (auto simp: do_longjmp_def split: option.split)
  next
    case (Jump j rc' s')
    with mid s(1) have "wf_dj s'" "kept_all s s'" "hooks_safe G s'" "outside G s s'"
      "noret_jmp (udisps st ! h) = Some j"
      by (simp_all add: mid_post_def)
    with Jump s(1) outside_trans [OF out, of s'] kept_all_kept [of s s' h] show ?thesis
      by (auto simp: kept_def)
  qed simp
  with save show "prog_post G h st (exec_bind (hooks_save st) (\<lambda>_ s. exec_bind (body s) (\<lambda>x s.
      Ret (f x) (hooks_restore h s))))"
    and "prog_post G h st (exec_bind (hooks_save st) (\<lambda>_ s. exec_bind (body s) (\<lambda>x s.
      do_longjmp h rc (hooks_restore h s))))" by auto
qed

section \<open>All behaviours\<close>

text \<open>
  What the theorems assume of library code and of the DOS program: the DOS heap never
  answered 0 and the address 0 is never given back; the calls that name a handle name the
  caller's own (\<^verbatim>\<open>DJ64_INIT_FN\<close> stores it in the library's variable); the calls that the DOS
  program makes are for programs of the set \<open>G\<close>.
\<close>

primrec prog_ok :: "'v prog \<Rightarrow> nat set \<Rightarrow> nat \<Rightarrow> bool"
  and asm_ok :: "'v asm \<Rightarrow> nat set \<Rightarrow> bool" where
  "prog_ok (PRet res len) G h = True"
| "prog_ok (PCtxGet k f) G h = (\<forall>v. prog_ok (f v) G h)"
| "prog_ok (PCtxPut k v p) G h = prog_ok p G h"
| "prog_ok (PObjInit is_dos pdata data is_out a f) G h =
     (a \<noteq> 0 \<and> prog_ok (f (if is_dos then pdata else a)) G h)"
| "prog_ok (PObjDone is_dos fa len f) G h = (fa \<noteq> 0 \<and> (\<forall>x. prog_ok (f x) G h))"
| "prog_ok (PRmDosobj is_dos fa p) G h = (fa \<noteq> 0 \<and> prog_ok p G h)"
| "prog_ok (PAsmCall num flags a f) G h = ((\<forall>x. asm_ok (a x) G) \<and> (\<forall>x. prog_ok (f x) G h))"
| "prog_ok (PAsmCallU handle libid num flags a f) G h =
     (handle = int h \<and> (\<forall>x. asm_ok (a x) G) \<and> (\<forall>x. prog_ok (f x) G h))"
| "prog_ok (PAsmNoret num a) G h = (\<forall>x. asm_ok (a x) G)"
| "prog_ok (PAsmNoretU handle libid num a) G h = (handle = int h \<and> (\<forall>x. asm_ok (a x) G))"
| "asm_ok (ARet rc r) G = True"
| "asm_ok (AMem addr bs a) G = asm_ok a G"
| "asm_ok (AReenter handle libid r p k) G =
     (nat handle \<in> G \<and> (\<forall>d. prog_ok (p d) G (nat handle)) \<and> (\<forall>x. asm_ok (k x) G))"

lemma prog_post_bind:
  assumes m: "prog_post G h st m"
    and f: "\<And>x s. m = Ret x s \<Longrightarrow> wf_dj s \<Longrightarrow> hooks_at h s \<Longrightarrow> kept h st s \<Longrightarrow> prog_post G h s (f x s)"
  shows "prog_post G h st (exec_bind m f)"
proof (cases m)
  case (Ret x s)
  with m have s: "wf_dj s" "kept h st s" "hooks_at h s" "outside G st s" by simp_all
  with f Ret have "prog_post G h s (f x s)" by blast
  with s kept_noret [OF s(2)] Ret show ?thesis
    by (cases "f x s") (auto intro: kept_trans outside_trans)
qed (use m in auto)

lemma asm_post_bind:
  assumes m: "asm_post G st m"
    and f: "\<And>x s. m = Ret x s \<Longrightarrow> wf_dj s \<Longrightarrow> hooks_safe G s \<Longrightarrow> asm_post G s (f x s)"
  shows "asm_post G st (exec_bind m f)"
proof (cases m)
  case (Ret x s)
  with m have s: "wf_dj s" "kept_all st s" "hooks_safe G s" "outside G st s" by simp_all
  with f Ret have "asm_post G s (f x s)" by blast
  with s Ret show ?thesis
    by (cases "f x s") (auto intro: kept_all_trans outside_trans)
qed (use m in auto)

lemma do_obj_init_val:
  "do_obj_init is_dos pdata data is_out a hn st = Ret fa st' \<Longrightarrow> fa = (if is_dos then pdata else a)"
  by (auto simp: do_obj_init_def mk_dosobj_def Let_def)

lemma obj_step_post:
  assumes "obj_step h st st' row" and "wf_dj st" and "h < MAX_HANDLES" and "hooks_at h st"
  shows "prog_post G h st (Ret x st')"
  using obj_stepD [OF assms(2,3,1)] assms(4) by (simp add: hooks_at_def outside_def contents_def)

lemma obj_ops_post:
  assumes wf: "wf_dj st" and h: "h < MAX_HANDLES" and at: "hooks_at h st"
  shows "a \<noteq> 0 \<Longrightarrow> prog_post G h st (do_obj_init is_dos pdata data is_out a (int h) st)"
    and "fa \<noteq> 0 \<Longrightarrow> prog_post G h st (dj64_obj_done is_dos fa len (int h) st)"
    and "fa \<noteq> 0 \<Longrightarrow> prog_post G h st (dj64_rm_dosobj is_dos fa (int h) st)"
proof -
  note step = obj_step_post [OF _ wf h at]
  show "prog_post G h st (do_obj_init is_dos pdata data is_out a (int h) st)" if "a \<noteq> 0"
  proof (cases is_dos)
    case True
    with wf at show ?thesis by (simp add: do_obj_init_def)
  next
    case False
    with that show ?thesis
      by (cases "do_obj_init is_dos pdata data is_out a (int h) st")
        (auto dest!: do_obj_init_step [OF _ wf h] dest: step)
  qed
  show "prog_post G h st (dj64_obj_done is_dos fa len (int h) st)" if "fa \<noteq> 0"
  proof (cases is_dos)
    case True
    with wf at show ?thesis by (simp add: dj64_obj_done_def)
  next
    case False
    with that show ?thesis
      by (cases "dj64_obj_done is_dos fa len (int h) st")
        (auto dest!: dj64_obj_done_step [OF _ wf h] dest: step)
  qed
  show "prog_post G h st (dj64_rm_dosobj is_dos fa (int h) st)" if "fa \<noteq> 0"
  proof (cases is_dos)
    case True
    with wf at show ?thesis by (simp add: dj64_rm_dosobj_def)
  next
    case False
    with that show ?thesis
      by (cases "dj64_rm_dosobj is_dos fa (int h) st")
        (auto dest!: dj64_rm_dosobj_step [OF _ wf h] dest: step)
  qed
qed

lemma ctx_put_post:
  assumes wf: "wf_dj st" and at: "hooks_at h st" and hG: "h \<in> G" and k: "k < length (chooks st)"
  obtains c where "swctx_put v (chooks st ! k) = Inr c"
    and "prog_post G h st (Ret x (st\<lparr>chooks := (chooks st)[k := c]\<rparr>))"
proof -
  from at have "\<forall>c \<in> set (chooks st). swctx_wf c \<and> sw_cur c = Some h" by (simp add: hooks_at_def)
  from sw.put_nth [OF this k] obtain c where c: "swctx_put v (chooks st ! k) = Inr c"
    "\<forall>c \<in> set ((chooks st)[k := c]). swctx_wf c \<and> sw_cur c = Some h"
    "\<And>g. g \<noteq> h \<Longrightarrow> map (swctx_of g) ((chooks st)[k := c]) = map (swctx_of g) (chooks st)"
    by metis
  let ?s = "st\<lparr>chooks := (chooks st)[k := c]\<rparr>"
  have "wf_dj ?s" using wf wf_dj_cong [of ?s st] by simp
  moreover have "kept h st ?s" by (simp add: kept_def)
  moreover have "outside G st ?s"
    using c(3) hG by (fastforce simp: outside_def contents_def)
  ultimately show ?thesis using that [OF c(1)] c(2) by (simp add: hooks_at_def)
qed

lemma asm_calls_post:
  fixes st :: "'a dj"
  assumes wf: "wf_dj st" and h: "h < MAX_HANDLES" and hG: "h \<in> G" and at: "hooks_at h st"
    and asm: "\<And>pma s. wf_dj s \<Longrightarrow> hooks_safe G s \<Longrightarrow> asm_post G s (asm pma s)"
  shows "prog_post G h st (dj64_asm_call (int h) num flags asm st)"
    and "prog_post G h st (dj64_asm_call_u av (int h) libid num flags asm st)"
    and "prog_post G h st (dj64_asm_noret (int h) num asm st :: ('a dj, 'd) exec)"
    and "prog_post G h st (dj64_asm_noret_u (int h) libid num asm st :: ('a dj, 'd) exec)"
proof -
  have "asm_post G s (asm pma s)" if "wf_dj s" "hooks_safe {} s" for s pma
    using that asm hooks_safe_mono [of "{}" s G] by blast
  then have mid: "mid_post G h s (do_asm_call h p num flags asm s)"
    "mid_post G h s (do_asm_noret h p num asm s)" if "wf_dj s" "hooks_safe {} s" for s p
    using that do_asm_call_post [OF that(1) h] by blast+
  have call: "prog_post G h st (exec_bind (hooks_save st) (\<lambda>_ s.
      exec_bind (do_asm_call h p num flags asm s) (\<lambda>x s. Ret (through_int x) (hooks_restore h s))))" for p
    by (rule around_asm(1) [OF wf h hG at]) (rule mid(1))
  have noret: "prog_post G h st (exec_bind (hooks_save st) (\<lambda>_ s.
      exec_bind (do_asm_noret h p num asm s) (\<lambda>x s. do_longjmp h ASM_NORET (hooks_restore h s)))
      :: ('a dj, 'd) exec)" for p
    by (rule around_asm(2) [OF wf h hG at]) (rule mid(2))
  show "prog_post G h st (dj64_asm_call (int h) num flags asm st)"
    using call h by (simp add: dj64_asm_call_def)
  show "prog_post G h st (dj64_asm_noret (int h) num asm st :: ('a dj, 'd) exec)"
    using noret h by (simp add: dj64_asm_noret_def)
  show "prog_post G h st (dj64_asm_call_u av (int h) libid num flags asm st)"
    using call h wf at by (auto simp: dj64_asm_call_u_def split: option.split)
  have "prog_post G h st (do_longjmp h ASM_ABORT st :: ('a dj, 'd) exec)"
    using wf hooks_at_safe [OF at hG] by (auto simp: do_longjmp_def split: option.split)
  then show "prog_post G h st (dj64_asm_noret_u (int h) libid num asm st :: ('a dj, 'd) exec)"
    using noret h by (auto simp: dj64_asm_noret_u_def split: option.split)
qed

lemma run_post:
  fixes p :: "'v prog" and a :: "'v asm"
  assumes gh: "\<And>h. gh h = int h"
  shows "prog_ok p G h \<Longrightarrow> h \<in> G \<Longrightarrow> h < MAX_HANDLES \<Longrightarrow> wf_dj st \<Longrightarrow> hooks_at h st \<Longrightarrow>
      prog_post G h st (run_prog p av gh h st)"
    and "asm_ok a G \<Longrightarrow> wf_dj st \<Longrightarrow> hooks_safe G st \<Longrightarrow> asm_post G st (run_asm a av gh st)"
proof (induction p and a arbitrary: h st and st)
  case (PRet res len)
  then show ?case by simp
next
  case (PCtxGet k f)
  then show ?case
    by (auto simp: lift_sum_def swctx_get_of hooks_at_def)
next
  case (PCtxPut k v p)
  show ?case
  proof (cases "k < length (chooks st)")
    case True
    obtain c where c: "swctx_put v (chooks st ! k) = Inr c"
      and post: "prog_post G h st (Ret () (st\<lparr>chooks := (chooks st)[k := c]\<rparr>))"
      by (rule ctx_put_post [OF PCtxPut(5,6,3) True])
    have "prog_post G h st (exec_bind (Ret () (st\<lparr>chooks := (chooks st)[k := c]\<rparr>))
        (\<lambda>_. run_prog p av gh h))"
      using PCtxPut by (intro prog_post_bind [OF post]) auto
    with True c show ?thesis by (simp add: lift_sum_def)
  qed simp
next
  case (PObjInit is_dos pdata data is_out a f)
  then show ?case
    by (auto simp: gh dest: do_obj_init_val intro!: prog_post_bind [OF obj_ops_post(1)])
next
  case (PObjDone is_dos fa len f)
  then show ?case
    by (auto simp: gh intro!: prog_post_bind [OF obj_ops_post(2)])
next
  case (PRmDosobj is_dos fa p)
  then show ?case
    by (auto simp: gh intro!: prog_post_bind [OF obj_ops_post(3)])
next
  case (PAsmCall num flags a f)
  then show ?case
    by (auto simp: gh intro!: prog_post_bind [OF asm_calls_post(1)])
next
  case (PAsmCallU handle libid num flags a f)
  then show ?case
    by (auto simp: gh intro!: prog_post_bind [OF asm_calls_post(2)])
next
  case (PAsmNoret num a)
  then show ?case
    by (auto simp: gh intro!: asm_calls_post(3))
next
  case (PAsmNoretU handle libid num a)
  then show ?case
    by (auto simp: gh intro!: asm_calls_post(4))
next
  case (ARet rc r)
  then show ?case by simp
next
  case (AMem addr bs a)
  let ?s = "st\<lparr>dj_mem := mem_put addr bs (dj_mem st)\<rparr>"
  have "asm_post G st (exec_bind (Ret () ?s) (\<lambda>_. run_asm a av gh))"
    using AMem wf_dj_cong [of ?s st]
    by (intro asm_post_bind)
      (auto simp: kept_all_def outside_def contents_def hooks_safe_def)
  then show ?case by simp
next
  case (AReenter handle libid r p k)
  show ?case
  proof (cases "0 \<le> handle \<and> handle < int MAX_HANDLES")
    case True
    then obtain h where h: "handle = int h" "h < MAX_HANDLES" by (metis of_nat_less_iff zero_le_imp_eq_int)
    have "asm_post G st (dj64_call (int h) libid r (\<lambda>d. run_prog (p d) av gh h) st)"
      using AReenter h by (intro dj64_call_post) auto
    with AReenter h show ?thesis by (auto intro!: asm_post_bind)
  next
    case False
    then show ?thesis by (auto simp: dj64_call_def with_handle_def)
  qed
qed

end
