(* ===== verification/Thunk_Props.thy ===== *)
theory Thunk_Props
  imports Thunk_Safe
begin

text \<open>
  The properties of the thunk runtime: the states the host can bring it into, what a served
  call leaves behind, how the contexts of programs are kept apart, what happens to arguments
  and results on the way.
\<close>

section \<open>Reachable states\<close>

definition zero_regs :: regs where
  "zero_regs = \<lparr>eax = 0, ebx = 0, ecx = 0, edx = 0, esi = 0, edi = 0, ebp = 0\<rparr>"

definition zero_udisp :: udisp where
  "zero_udisp = \<lparr>disp = replicate MAX_DISPS None, eops = None, at = replicate MAX_DISPS None,
     pt = replicate MAX_DISPS None, core_at = \<lparr>at_names = [], at_tab = []\<rparr>,
     core_pt = \<lparr>at_names = [], at_tab = []\<rparr>, cs = 0, main_fn = None, full_init = False,
     s_regs = zero_regs, recur_cnt = 0, objcnt = 0, noret_jmp = None,
     objs = replicate MAX_RECUR (replicate MAX_OBJS 0)\<rparr>"

text \<open>The static variables before anything ran, with the given user tables and memory.\<close>

definition bss :: "(nat \<Rightarrow> athunks) \<Rightarrow> (u32 \<Rightarrow> u8) \<Rightarrow> u32 \<Rightarrow> 'v dj" where
  "bss tabs mem base = \<lparr>udisps = replicate MAX_HANDLES zero_udisp, api_set = False, api_ver = 0,
     disp_fn = None, u_athunks = None, u_pthunks = None, u_handle_p = None, u_libid_p = None,
     fatalerr = 0, dynapi_mism = 0, req_da_ver = 0, chooks = [], ihooks = [], ustore = tabs,
     ivars = (\<lambda>_. 0), startup_flags = 0, dj_mem = mem, dj_base = base, dos_live = [],
     next_jmp = 0, elf_log = [], exit_req = None\<rparr>"

text \<open>
  The states between two calls of the host: one rule per entry point. A hook is registered
  with its pointer null; a served call may behave in any way that \<open>prog_ok\<close> allows.
\<close>

inductive reach :: "'v dj \<Rightarrow> bool" where
  start: "reach (bss tabs mem base)"
| reg_dispatch: "reach st \<Longrightarrow> register_dispatch_fn fn ver st = Ret () st' \<Longrightarrow> reach st'"
| reg_athunks: "reach st \<Longrightarrow> register_athunks a ver st = Ret () st' \<Longrightarrow> reach st'"
| reg_pthunks: "reach st \<Longrightarrow> register_pthunks p hp lp ver st = Ret () st' \<Longrightarrow> reach st'"
| reg_ctx: "reach st \<Longrightarrow> swctx_wf c \<Longrightarrow> sw_cur c = None \<Longrightarrow>
    djregister_ctx_hooks c st = Ret () st' \<Longrightarrow> reach st'"
| reg_init: "reach st \<Longrightarrow> djregister_init_hook f st = Ret () st' \<Longrightarrow> reach st'"
| init_once: "reach st \<Longrightarrow> dj64_init_once min_ver ver st = (ret, st') \<Longrightarrow> reach st'"
| init: "reach st \<Longrightarrow> dj64_init tc asm_tab pl_tab handle ops main full st = Ret () st' \<Longrightarrow> reach st'"
| init2: "reach st \<Longrightarrow> dj64_init2 handle disp_id st = Ret ret st' \<Longrightarrow> reach st'"
| fini: "reach st \<Longrightarrow> dj64_done handle st = Ret () st' \<Longrightarrow> reach st'"
| call: "reach st \<Longrightarrow> h < MAX_HANDLES \<Longrightarrow> \<forall>d. prog_ok (p d) UNIV h \<Longrightarrow>
    dj64_call (int h) libid r (\<lambda>d. run_prog (p d) av int h) st = Ret x st' \<Longrightarrow> reach st'"
| dos_write: "reach st \<Longrightarrow> reach (st\<lparr>dj_mem := m\<rparr>)"

definition idle_udisp :: "udisp \<Rightarrow> bool" where
  "idle_udisp u \<longleftrightarrow> recur_cnt u = 0 \<and> noret_jmp u = None \<and> objcnt u = 0 \<and>
     objs u = replicate MAX_RECUR (replicate MAX_OBJS 0)"

definition idle :: "'v dj \<Rightarrow> bool" where
  "idle st \<longleftrightarrow> (\<forall>u \<in> set (udisps st). idle_udisp u) \<and> dos_live st = []"

lemma wf_bss: "wf_dj (bss tabs mem base)" and idle_bss: "idle (bss tabs mem base)"
  by (simp_all add: wf_dj_def bss_def zero_udisp_def wf_udisp_def udisp_objs_def all_objs_def idle_def
      idle_udisp_def max_defs)

text \<open>Operations that only set up tables leave the object tables and the frames alone.\<close>

definition tables :: "udisp \<Rightarrow> udisp \<Rightarrow> bool" where
  "tables u u' \<longleftrightarrow> objs u' = objs u \<and> recur_cnt u' = recur_cnt u \<and> noret_jmp u' = noret_jmp u \<and>
     objcnt u' = objcnt u \<and> length (disp u') = length (disp u) \<and> length (at u') = length (at u) \<and>
     length (pt u') = length (pt u)"

definition tables_all :: "'v dj \<Rightarrow> 'v dj \<Rightarrow> bool" where
  "tables_all st st' \<longleftrightarrow> length (udisps st') = length (udisps st) \<and> dos_live st' = dos_live st \<and>
     (\<forall>h < length (udisps st). tables (udisps st ! h) (udisps st' ! h)) \<and>
     ((\<forall>c \<in> set (chooks st). swctx_wf c) \<longrightarrow> (\<forall>c \<in> set (chooks st'). swctx_wf c))"

lemma tables_refl [simp]: "tables u u"
  by (simp add: tables_def)

lemma tables_trans: "tables u v \<Longrightarrow> tables v w \<Longrightarrow> tables u w"
  by (simp add: tables_def)

lemma tables_all_refl [simp]: "tables_all st st"
  by (simp add: tables_all_def)

lemma tables_all_trans:
  assumes "tables_all s t" and "tables_all t u"
  shows "tables_all s u"
proof -
  have "tables (udisps s ! h) (udisps u ! h)" if "h < length (udisps s)" for h
    using assms that unfolding tables_all_def by (metis tables_trans)
  then show ?thesis using assms unfolding tables_all_def by metis
qed

lemma tables_all_upd_u:
  assumes "\<And>u. tables u (f u)"
  shows "tables_all st (upd_u h f st)"
proof -
  have "tables (udisps st ! g) (udisps (upd_u h f st) ! g)" if "g < length (udisps st)" for g
    using that assms by (cases "g = h") simp_all
  then show ?thesis by (simp add: tables_all_def)
qed

lemma tables_wf_udisp: "tables u u' \<Longrightarrow> wf_udisp u \<Longrightarrow> wf_udisp u'"
  by (simp add: tables_def wf_udisp_def udisp_objs_def)

lemma tables_all_inv:
  assumes "tables_all st st'" and "wf_dj st" and "idle st"
  shows "wf_dj st'" and "idle st'"
proof -
  from assms(1) have u: "length (udisps st') = length (udisps st)" "dos_live st' = dos_live st"
    "\<And>h. h < length (udisps st) \<Longrightarrow> tables (udisps st ! h) (udisps st' ! h)"
    by (auto simp: tables_all_def)
  have "map udisp_objs (udisps st') = map udisp_objs (udisps st)"
    using u by (intro nth_equalityI) (auto simp: tables_def udisp_objs_def)
  then have "all_objs st' = all_objs st" by (simp only: all_objs_def)
  moreover have "wf_udisp (udisps st' ! h)" if "h < length (udisps st)" for h
    using u(3) [OF that] assms(2) that by (intro tables_wf_udisp [OF u(3) [OF that]]) (simp add: wf_dj_def)
  then have "\<forall>u \<in> set (udisps st'). wf_udisp u"
    using u(1) by (auto simp: in_set_conv_nth)
  ultimately show "wf_dj st'" using u assms(2) by (simp add: wf_dj_def)
  have "idle_udisp (udisps st' ! h)" if "h < length (udisps st)" for h
    using u(3) [OF that] assms(3) that by (auto simp: idle_def idle_udisp_def tables_def)
  then show "idle st'"
    using u(1,2) assms(3) by (auto simp: idle_def in_set_conv_nth)
qed

lemma store_int_tables: "tables_all st (store_int p v st)"
  by (simp add: store_int_def tables_all_def split: option.splits)

lemma take_registration_tables: "tables_all st (take_registration handle h d st)"
proof -
  let ?s1 = "upd_u h (\<lambda>u. u\<lparr>disp := (disp u)[d := disp_fn st],
      at := (at u)[d := map_option UserAt (u_athunks st)],
      pt := (pt u)[d := map_option UserAt (u_pthunks st)]\<rparr>) st"
  let ?s2 = "store_int (u_handle_p ?s1) handle ?s1"
  let ?s3 = "store_int (u_libid_p ?s2) (int d) ?s2"
  have "tables_all st ?s1" by (intro tables_all_upd_u) (simp add: tables_def)
  then have "tables_all st ?s3" by (blast intro: tables_all_trans store_int_tables)
  then show ?thesis by (simp add: take_registration_def Let_def tables_all_def)
qed

lemma hooks_run_wf:
  assumes "hooks_run f ks = Inr ks'" and "\<forall>c \<in> set ks. P c" and "\<And>c c'. P c \<Longrightarrow> f c = Inr c' \<Longrightarrow> P c'"
  shows "\<forall>c \<in> set ks'. P c"
  using assms by (induction ks arbitrary: ks') (auto split: sum.splits)

lemma hooks_exec_tables:
  assumes "hooks_exec f st = Ret () st'" and "\<And>c c'. swctx_wf c \<Longrightarrow> f c = Inr c' \<Longrightarrow> swctx_wf c'"
  shows "tables_all st st'"
proof -
  from assms(1) obtain hs where hr: "hooks_run f (chooks st) = Inr hs" and st': "st' = st\<lparr>chooks := hs\<rparr>"
    by (auto simp: hooks_exec_def split: sum.splits)
  have "\<forall>c \<in> set hs. swctx_wf c" if "\<forall>c \<in> set (chooks st). swctx_wf c"
    using hr that assms(2) by (rule hooks_run_wf)
  then show ?thesis by (simp add: tables_all_def st')
qed

lemma dj64_init_tables:
  assumes "dj64_init tc asm_tab pl_tab handle ops main full st = Ret () st'"
  shows "tables_all st st'"
proof -
  from assms obtain h where "handle = int h" and "h < MAX_HANDLES" by (auto simp: dj64_init_def)
  define s1 where "s1 = upd_u h (\<lambda>u. u\<lparr>disp := (disp u)[0 := Some tc], eops := ops,
     main_fn := main, full_init := full, at := (at u)[0 := Some CoreAt], pt := (pt u)[0 := Some CorePt]\<rparr>) st"
  define s2 where "s2 = take_registration handle h 1 s1"
  from assms \<open>handle = int h\<close> \<open>h < MAX_HANDLES\<close> obtain s3 where s3: "hooks_exec (swctx_init h) s2 = Ret () s3"
    and st': "st' = upd_u h (\<lambda>u. u\<lparr>core_at := asm_tab, core_pt := pl_tab\<rparr>) s3"
    by (auto simp: dj64_init_def s2_def s1_def Let_def split: if_splits)
  have "tables_all st s1" unfolding s1_def by (intro tables_all_upd_u) (simp add: tables_def)
  moreover have "tables_all s1 s2" unfolding s2_def by (rule take_registration_tables)
  moreover have "tables_all s2 s3"
    by (rule hooks_exec_tables [OF s3])
      (auto simp: swctx_init_def swctx_wf_def split: if_splits option.splits)
  moreover have "tables_all s3 st'" unfolding st' by (intro tables_all_upd_u) (simp add: tables_def)
  ultimately show ?thesis by (blast intro: tables_all_trans)
qed

lemma dj64_done_tables:
  assumes "dj64_done handle st = Ret () st'"
  shows "tables_all st st'"
proof -
  let ?s = "st\<lparr>chooks := map swctx_deinit (chooks st)\<rparr>"
  from assms obtain h where st': "st' = upd_u h (\<lambda>u. u\<lparr>core_at := (core_at u)\<lparr>at_tab := []\<rparr>,
      core_pt := (core_pt u)\<lparr>at_tab := []\<rparr>\<rparr>) ?s"
    by (auto simp: dj64_done_def)
  have "tables_all st ?s" by (auto simp: tables_all_def swctx_deinit_def swctx_wf_def split: option.splits)
  moreover have "tables_all ?s st'" unfolding st' by (intro tables_all_upd_u) (simp add: tables_def)
  ultimately show ?thesis by (rule tables_all_trans)
qed

lemma register_tables:
  "register_dispatch_fn fn ver st = Ret () st' \<Longrightarrow> tables_all st st'"
  "register_athunks a ver st = Ret () st' \<Longrightarrow> tables_all st st'"
  "register_pthunks p hp lp ver st = Ret () st' \<Longrightarrow> tables_all st st'"
  "djregister_init_hook f st = Ret () st' \<Longrightarrow> tables_all st st'"
  "dj64_init_once min_ver v st = (ret, st') \<Longrightarrow> tables_all st st'"
  "swctx_wf c \<Longrightarrow> djregister_ctx_hooks c st = Ret () st' \<Longrightarrow> tables_all st st'"
  by (auto simp: register_dispatch_fn_def register_athunks_def register_pthunks_def Let_def
      djregister_init_hook_def dj64_init_once_def djregister_ctx_hooks_def tables_all_def split: if_splits)

lemma dj64_init2_tables: "dj64_init2 handle disp_id st = Ret x st' \<Longrightarrow> tables_all st st'"
  by (auto simp: dj64_init2_def intro: take_registration_tables split: if_splits)

lemma hooks_safe_UNIV: "hooks_safe UNIV st \<longleftrightarrow> (\<forall>c \<in> set (chooks st). swctx_wf c)"
proof -
  have "swctx_synced c \<or> (\<exists>i. sw_cur c = Some i)" if "swctx_wf c" for c :: "'a swctx"
    using that by (cases "sw_cur c") (simp_all add: swctx_synced_def)
  then show ?thesis unfolding hooks_safe_def by blast
qed

lemma kept_all_idle:
  assumes "kept_all st st'" and "wf_dj st" and "wf_dj st'" and "idle st"
  shows "idle st'"
proof -
  note len = wf_dj_length [OF assms(2)] wf_dj_length [OF assms(3)]
  have u: "idle_udisp (udisps st' ! h)" if "h < MAX_HANDLES" for h
    using assms(1,4) len that by (auto simp: idle_def idle_udisp_def kept_all_def same_frame_def)
  have "udisp_objs (udisps st' ! h) = {#}" if "h < MAX_HANDLES" for h
    using u [OF that] by (simp add: idle_udisp_def udisp_objs_def)
  then have "\<forall>x \<in> set (map udisp_objs (udisps st')). x = {#}"
    using len by (auto simp: in_set_conv_nth)
  then have "all_objs st' = {#}"
    unfolding all_objs_def by (rule sum_list_all_empty)
  with u len assms(3) show ?thesis by (auto simp: idle_def in_set_conv_nth wf_dj_def)
qed

lemma call_post:
  assumes "wf_dj st" and "hooks_safe G st" and "h < MAX_HANDLES" and "h \<in> G" and "\<forall>d. prog_ok (p d) G h"
  shows "asm_post G (st :: 'a dj) (dj64_call (int h) libid r (\<lambda>d. run_prog (p d) av int h) st)"
proof (rule dj64_call_post [OF assms(1-4)])
  fix d and s :: "'a dj"
  assume "wf_dj s" and "hooks_at h s"
  moreover from assms(5) have "prog_ok (p d) G h" by blast
  ultimately show "prog_post G h s (run_prog (p d) av int h s)"
    using assms(3,4) by (intro run_post(1) [OF refl])
qed

definition settled :: "'v dj \<Rightarrow> bool" where
  "settled st \<longleftrightarrow> wf_dj st \<and> idle st \<and> (\<forall>c \<in> set (chooks st). swctx_wf c)"

lemma settled_tables: "settled st \<Longrightarrow> tables_all st st' \<Longrightarrow> settled st'"
  using tables_all_inv [of st st'] unfolding settled_def tables_all_def by blast

lemma settled_call:
  assumes "settled st" and "h < MAX_HANDLES" and "\<forall>d. prog_ok (p d) UNIV h"
    and "dj64_call (int h) libid r (\<lambda>d. run_prog (p d) av int h) st = Ret x st'"
  shows "settled st'"
proof -
  from assms(1) have st: "wf_dj st" "idle st" "hooks_safe UNIV st"
    by (simp_all add: settled_def hooks_safe_UNIV)
  from call_post [OF st(1,3) assms(2) _ assms(3), of libid r av] assms(4)
  have "asm_post UNIV st (Ret x st')" by simp
  then have "wf_dj st'" "kept_all st st'" "hooks_safe UNIV st'" by simp_all
  with kept_all_idle [OF _ st(1) _ st(2)] show ?thesis by (simp add: settled_def hooks_safe_UNIV)
qed

lemma reach_inv: "reach st \<Longrightarrow> settled st"
proof (induction rule: reach.induct)
  case (start tabs mem base)
  show ?case by (simp add: settled_def wf_bss idle_bss) (simp add: bss_def)
next
  case (call st h p libid r av x st')
  then show ?case by (blast intro: settled_call)
next
  case (dos_write st m)
  from dos_write.IH show ?case by (rule settled_tables) (simp add: tables_all_def)
qed (erule settled_tables,
    (erule register_tables dj64_init_tables dj64_init2_tables dj64_done_tables; assumption?))+

section \<open>A concrete program\<close>

text \<open>One program with a libc dispatcher, one resolved callback and one swappable context.\<close>

definition demo_hook :: "nat swctx" where
  "demo_hook = \<lparr>sw_cur = None, sw_contexts = replicate SW_CTX_MAX 0, sw_live = 0, sw_init = 0, sw_copies = True\<rparr>"

definition demo_bss :: "nat dj" where
  "demo_bss = bss (\<lambda>_. \<lparr>at_names = [], at_tab = []\<rparr>) (\<lambda>_. 0) 0"

definition demo_loaded :: "nat dj" where
  "demo_loaded = demo_bss\<lparr>chooks := [demo_hook], api_set := True, api_ver := 20\<rparr>"

definition demo :: "nat dj" where
  "demo = (case dj64_init 7 \<lparr>at_names = [], at_tab = []\<rparr> \<lparr>at_names = [''f''], at_tab = [5]\<rparr>
       0 None None False demo_loaded of Ret _ st \<Rightarrow> st | _ \<Rightarrow> demo_loaded)"

text \<open>A function that copies two bytes to the DOS heap and back, and changes its context.\<close>

definition demo_prog :: "nat \<Rightarrow> nat prog" where
  "demo_prog _ = PObjInit False 0 [1, 2] False 16 (\<lambda>fa.
     PCtxPut 0 9 (PObjDone False fa 2 (\<lambda>_. PRet 3 4)))"

text \<open>A function that leaves an object behind when the DOS program aborts its callback.\<close>

definition demo_abort :: "nat \<Rightarrow> nat prog" where
  "demo_abort _ = PObjInit False 0 [1, 2] False 16 (\<lambda>_.
     PAsmCall 0 0 (\<lambda>_. ARet ASM_CALL_ABORT zero_regs) (\<lambda>_. PRet 3 4))"

lemma demo_hook_wf: "swctx_wf demo_hook" "sw_cur demo_hook = None"
  by (simp_all add: demo_hook_def swctx_wf_def)

lemma demo_init:
  "dj64_init 7 \<lparr>at_names = [], at_tab = []\<rparr> \<lparr>at_names = [''f''], at_tab = [5]\<rparr> 0 None None False demo_loaded
     = Ret () demo"
  by (simp add: demo_def dj64_init_def with_handle_def max_defs take_registration_def store_int_def Let_def
      hooks_exec_def swctx_init_def demo_hook_def demo_loaded_def demo_bss_def bss_def upd_u_def)

lemma demo_reach: "reach demo"
proof -
  let ?s1 = "demo_bss\<lparr>chooks := [demo_hook]\<rparr>"
  have "reach ?s1"
    by (rule reach.reg_ctx [OF reach.start demo_hook_wf])
      (simp add: djregister_ctx_hooks_def demo_bss_def bss_def max_defs)
  then have "reach demo_loaded"
    by (rule reach.init_once [where min_ver = 0 and ver = 20 and ret = 1 and st = "demo_bss\<lparr>chooks := [demo_hook]\<rparr>"])
      (simp add: dj64_init_once_def demo_loaded_def demo_bss_def bss_def)
  then show ?thesis using demo_init by (rule reach.init)
qed

lemma demo_cur: "map sw_cur (chooks demo) = [None]"
  by code_simp

lemma demo_ok: "wf_dj demo" "hooks_safe G demo"
proof -
  from reach_inv [OF demo_reach] have "wf_dj demo" "\<forall>c \<in> set (chooks demo). swctx_wf c"
    by (simp_all add: settled_def)
  with demo_cur show "wf_dj demo" "hooks_safe G demo"
    by (auto simp: hooks_safe_def swctx_synced_def)
qed

lemma demo_prog_ok: "prog_ok (demo_prog d) G h" "prog_ok (demo_abort d) G h"
  by (simp_all add: demo_prog_def demo_abort_def)

lemma demo_run:
  "case dj64_call 0 0 zero_regs (\<lambda>d. run_prog (demo_prog d) 2 int 0) demo of
     Ret (ret, r) st' \<Rightarrow> ret = DJ64_RET_OK \<and> eax r = 3 \<and> contents 0 st' = [9] \<and> contents 1 st' = [0] \<and> dos_live st' = []
   | _ \<Rightarrow> False"
  by code_simp

lemma demo_abort_run:
  "case dj64_call 0 0 zero_regs (\<lambda>d. run_prog (demo_abort d) 2 int 0) demo of
     Ret (ret, r) st' \<Rightarrow> ret = DJ64_RET_ABORT \<and> dos_live st' = []
   | _ \<Rightarrow> False"
  by code_simp

section \<open>Serving a call\<close>

lemma kept_all_heap:
  assumes "kept_all st st'" and "wf_dj st" and "wf_dj st'"
  shows "mset (dos_live st') = mset (dos_live st)"
proof -
  have "map udisp_objs (udisps st') = map udisp_objs (udisps st)"
    using assms by (intro nth_equalityI) (simp_all add: wf_dj_length kept_all_def same_frame_def udisp_objs_def)
  then have "all_objs st' = all_objs st" by (simp only: all_objs_def)
  with assms(2,3) show ?thesis by (simp add: wf_dj_def)
qed



text \<open>
  C2. A served call returns to its caller with the frame it found: for every program the
  nesting level, the jump target, the object counter and the object table are what they were,
  and the DOS heap holds the same blocks. This is for every behaviour of the library function
  and of the DOS program it calls back, nested calls and non-local exits included, and the
  call never leaves by a jump of its own.
\<close>

theorem dj64_call_frame:
  assumes "wf_dj st" and "hooks_safe G st" and "h < MAX_HANDLES" and "h \<in> G"
    and "\<forall>d. prog_ok (p d) G h"
  shows "case dj64_call (int h) libid r (\<lambda>d. run_prog (p d) av int h) st of
      Ret _ st' \<Rightarrow> wf_dj st' \<and> kept_all st st' \<and> mset (dos_live st') = mset (dos_live st)
    | Jump _ _ _ \<Rightarrow> False
    | Fault _ \<Rightarrow> True"
  using call_post [OF assms, of libid r av] kept_all_heap [OF _ assms(1)]
  by (cases "dj64_call (int h) libid r (\<lambda>d. run_prog (p d) av int h) st") auto

theorem dj64_call_frame_witness:
  "\<exists>x st'. dj64_call 0 0 zero_regs (\<lambda>d. run_prog (demo_abort d) 2 int 0) demo = Ret x st'
     \<and> wf_dj st' \<and> kept_all demo st' \<and> mset (dos_live st') = mset (dos_live demo)"
  using dj64_call_frame [OF demo_ok, of 0 UNIV demo_abort 0 zero_regs 2] demo_abort_run demo_prog_ok
  by (auto simp: max_defs split: exec.splits)




lemma demo_jump:
  "disp (udisps demo ! 0) ! nat 0 = Some 7 \<and> recur_cnt (udisps demo ! 0) < MAX_RECUR \<and>
   (case run_prog (demo_abort 7) 2 int 0 (call_entry 0 zero_regs demo) of
      Jump j rc s \<Rightarrow> rc = ASM_ABORT \<and> dos_live s = [16] | _ \<Rightarrow> False)"
  by code_simp


section \<open>Calls into the DOS program\<close>

text \<open>
  C5. A library function that calls back into the DOS program finds its own context again:
  if the calls made meanwhile are for other programs, its swappable contexts hold what they
  held, and they are the current ones.
\<close>

theorem asm_call_own_context:
  assumes wf: "wf_dj st" and h: "h < MAX_HANDLES" and at: "hooks_at h st"
    and asm: "\<forall>x. asm_ok (a x) G" and hG: "h \<notin> G"
    and ret: "dj64_asm_call (int h) num flags (\<lambda>pma. run_asm (a pma) av int) st = Ret v st'"
  shows "hooks_at h st' \<and> contents h st' = contents h st"
proof -
  obtain s where save: "hooks_save st = Ret () s" and s: "udisps s = udisps st"
    "dos_live s = dos_live st" "hooks_safe {} s" "\<And>g. contents g s = contents g st"
    by (rule hooks_save_at [OF at]) blast
  have wfs: "wf_dj s" using wf wf_dj_cong [OF s(1,2)] by simp
  have safe: "hooks_safe G s" using s(3) by (rule hooks_safe_mono) simp
  have "asm_post G s (run_asm (a pma) av int s)" for pma
    using asm wfs safe by (intro run_post(2) [OF refl]) blast+
  then have mid: "mid_post G h s (do_asm_call h CorePt num flags (\<lambda>pma. run_asm (a pma) av int) s)"
    by (rule do_asm_call_post(1) [OF wfs h])
  from ret h save obtain w s' where
    call: "do_asm_call h CorePt num flags (\<lambda>pma. run_asm (a pma) av int) s = Ret w s'"
    and st': "st' = hooks_restore h s'"
    by (auto simp: dj64_asm_call_def)
  from mid call have s': "hooks_safe G s'" "outside G s s'" by (simp_all add: mid_post_def)
  have "contents h s' = contents h st" using s'(2) hG s(4) by (simp add: outside_def)
  with hooks_restore_at(1,3) [OF s'(1) h] show ?thesis by (simp add: st')
qed

definition demo_live :: "nat dj" where
  "demo_live = (call_entry 0 zero_regs demo)\<lparr>chooks := [demo_hook\<lparr>sw_cur := Some 0, sw_live := 9\<rparr>]\<rparr>"

text \<open>While it is called, the DOS program writes a byte of its memory.\<close>

definition demo_other :: "u32 \<times> u32 \<Rightarrow> nat asm" where
  "demo_other _ = AMem 8 [1] (ARet ASM_CALL_OK zero_regs)"

lemma demo_live_ok: "wf_dj demo_live" "hooks_at 0 demo_live" "contents 0 demo_live = [9]"
proof -
  have r: "recur_cnt (udisps demo ! 0) < MAX_RECUR" using demo_jump by simp
  note e = call_entry(1) [OF demo_ok(1) demo_ok(2) [of UNIV] _ r, where rg = zero_regs]
  then show "wf_dj demo_live"
    by (simp add: demo_live_def max_defs wf_dj_def all_objs_def)
  show "hooks_at 0 demo_live" "contents 0 demo_live = [9]"
    by (simp_all add: demo_live_def hooks_at_def swctx_wf_def demo_hook_def contents_def swctx_of_def max_defs)
qed

theorem asm_call_own_context_witness:
  "\<exists>v st'. dj64_asm_call 0 0 0 (\<lambda>pma. run_asm (demo_other pma) 2 int) demo_live = Ret v st'
     \<and> hooks_at 0 st' \<and> contents 0 st' = [9]"
proof -
  have "case dj64_asm_call 0 0 0 (\<lambda>pma. run_asm (demo_other pma) 2 int) demo_live of
      Ret v st' \<Rightarrow> v = 0 | _ \<Rightarrow> False"
    by code_simp
  then obtain v st' where
    "dj64_asm_call 0 0 0 (\<lambda>pma. run_asm (demo_other pma) 2 int) demo_live = Ret v st'"
    by (auto split: exec.splits)
  with asm_call_own_context [OF demo_live_ok(1), of 0 demo_other "{}"] demo_live_ok show ?thesis
    by (simp add: max_defs demo_other_def)
qed

section \<open>Arguments and results\<close>

lemma mem_put_other: "(\<And>i. i < length bs \<Longrightarrow> x \<noteq> a + of_nat i) \<Longrightarrow> mem_put a bs m x = m x"
proof (induction bs arbitrary: a m)
  case (Cons b bs)
  have "x \<noteq> a" using Cons.prems [of 0] by simp
  moreover have "mem_put (a + 1) bs (m(a := b)) x = (m(a := b)) x"
    using Cons.prems [of "Suc _"] by (intro Cons.IH) (simp add: add.assoc)
  ultimately show ?case by simp
qed simp

lemma mem_put_nth:
  "length bs \<le> 2 ^ 32 \<Longrightarrow> i < length bs \<Longrightarrow> mem_put a bs m (a + of_nat i) = bs ! i"
proof (induction bs arbitrary: a m i)
  case (Cons b bs)
  show ?case
  proof (cases i)
    case 0
    have "a \<noteq> a + 1 + of_nat j" if "j < length bs" for j
    proof -
      have "unat (of_nat (Suc j) :: u32) = Suc j"
        using Cons.prems(1) that by (simp del: of_nat_Suc add: unat_of_nat take_bit_nat_eq_self_iff)
      then have "(of_nat (Suc j) :: u32) \<noteq> 0" by (metis nat.distinct(1) unat_0)
      then show ?thesis by (simp add: add.assoc)
    qed
    with 0 show ?thesis by (simp add: mem_put_other)
  next
    case (Suc j)
    have "mem_put (a + 1) bs (m(a := b)) (a + 1 + of_nat j) = bs ! j"
      using Cons.prems Suc by (intro Cons.IH) simp_all
    then show ?thesis by (simp add: add.assoc Suc)
  qed
qed simp

lemma mem_get_put: "length bs \<le> 2 ^ 32 \<Longrightarrow> mem_get a (length bs) (mem_put a bs m) = bs"
  by (rule nth_equalityI) (simp_all add: mem_get_def mem_put_nth)

lemma put_oh_mem:
  "put_oh h addr v st = Ret x st' \<Longrightarrow> h < length (udisps st) \<Longrightarrow> dj_mem st' = dj_mem st \<and> dj_base st' = dj_base st
     \<and> dos_live st' = dos_live st \<and> objcnt (udisps st' ! h) = objcnt (udisps st ! h)
     \<and> recur_cnt (udisps st' ! h) = recur_cnt (udisps st ! h) \<and> length (udisps st') = length (udisps st)"
  by (elim put_oh_RetE) (simp add: upd_u_def)

text \<open>
  C6. Marshalling round trip: an argument that \<^verbatim>\<open>dj64_obj_init\<close> copied to the DOS heap comes
  back from \<^verbatim>\<open>dj64_obj_done\<close> byte for byte when nothing wrote to it meanwhile; the second
  call finds the entry the first made, frees the block and restores the counter.
\<close>

theorem obj_init_done:
  assumes init: "dj64_obj_init False pdata data a (int h) st = Ret fa s"
    and wf: "wf_dj st" and h: "h < MAX_HANDLES" and a: "a \<noteq> 0" and len: "length data \<le> 2 ^ 32"
  shows "\<exists>st'. dj64_obj_done False fa (length data) (int h) s = Ret (Some data) st'
    \<and> wf_dj st' \<and> dos_live st' = dos_live st \<and> objcnt (udisps st' ! h) = objcnt (udisps st ! h)"
proof -
  note lens = wf_dj_length [OF wf]
  from do_obj_init_step [OF init [unfolded dj64_obj_init_def] wf h a] obtain row
    where step: "obj_step h st s row" and fa: "fa = a" by blast
  note D = obj_stepD [OF wf h step]
  let ?s1 = "add_objcnt h 1 (pr_dosobj a data (snd (mk_dosobj a st)))"
  from init h obtain x where put1: "put_oh h 0 a ?s1 = Ret x s"
    by (auto simp: dj64_obj_init_def do_obj_init_def mk_dosobj_def Let_def)
  have s: "dj_mem s = mem_put (dj_base st + a) data (dj_mem st)" "dj_base s = dj_base st"
    "dos_live s = a # dos_live st" "objcnt (udisps s ! h) = objcnt (udisps st ! h) + 1"
    "length (udisps s) = MAX_HANDLES"
    using put_oh_mem [OF put1] a h lens by (simp_all add: add_objcnt_def pr_dosobj_def mk_dosobj_def)
  have r: "0 < recur_cnt (udisps s ! h)"
    using step kept_recur [OF D(2)] by (simp add: obj_step_def Let_def)
  have "entries row = add_mset a (entries (objs (udisps st ! h) ! (recur_cnt (udisps st ! h) - 1)))"
    using step s(3) by (simp add: obj_step_def Let_def)
  then have "a \<in># entries row" by simp
  then have "a \<in> set row" by (auto simp: entries_def)
  then have mem: "a \<in> set (objs (udisps s ! h) ! (recur_cnt (udisps s ! h) - 1))"
    using D(4) kept_recur [OF D(2)] by simp
  from put_oh_found [OF D(1) h r mem] obtain s2 where put2: "put_oh h a 0 (rm_dosobj a s) = Ret () s2" by blast
  have bytes: "cp_dosobj a (length data) s = data"
    using len by (simp add: cp_dosobj_def s mem_get_put)
  have s2: "dos_live s2 = dos_live st" "objcnt (udisps s2 ! h) = objcnt (udisps st ! h) + 1"
    "length (udisps s2) = MAX_HANDLES"
    using put_oh_mem [OF put2] s h by (simp_all add: rm_dosobj_def)
  have don: "dj64_obj_done False fa (length data) (int h) s = Ret (Some data) (add_objcnt h (-1) s2)"
    using h put2 bytes by (simp add: dj64_obj_done_def fa Let_def)
  from dj64_obj_done_step [OF don D(1) h] a fa obtain row' where "obj_step h s (add_objcnt h (-1) s2) row'"
    by blast
  with obj_stepD(1) [OF D(1) h] have "wf_dj (add_objcnt h (-1) s2)" by blast
  with don s2 h show ?thesis by (simp add: add_objcnt_def)
qed

theorem obj_init_done_witness:
  "\<exists>fa s st'. dj64_obj_init False 0 [1, 2, 3] 16 0 demo_live = Ret fa s
     \<and> dj64_obj_done False fa 3 0 s = Ret (Some [1, 2, 3]) st' \<and> wf_dj st'"
proof -
  have "case dj64_obj_init False 0 [1, 2, 3] 16 0 demo_live of Ret fa s \<Rightarrow> fa = 16 | _ \<Rightarrow> False"
    by code_simp
  then obtain fa s where "dj64_obj_init False 0 [1, 2, 3] 16 0 demo_live = Ret fa s"
    by (auto split: exec.splits)
  with obj_init_done [of 0 "[1, 2, 3]" 16 0 demo_live fa s] demo_live_ok(1) show ?thesis
    by (auto simp: max_defs numeral_3_eq_3)
qed

text \<open>
  C7. The DOS heap running out is not noticed: when \<^verbatim>\<open>malloc32\<close> answers 0, \<^verbatim>\<open>do_obj_init\<close>
  counts an object but records none, so the counter no longer agrees with the table and the
  check at the end of the call fails if the function is left by a non-local exit.
\<close>

theorem obj_init_exhausted:
  assumes init: "do_obj_init False pdata data is_out 0 (int h) st = Ret fa s"
    and wf: "wf_dj st" and h: "h < MAX_HANDLES"
  shows "fa = 0 \<and> objs (udisps s ! h) = objs (udisps st ! h)
    \<and> objcnt (udisps s ! h) = objcnt (udisps st ! h) + 1 \<and> \<not> wf_dj s"
proof -
  let ?u = "udisps st ! h"
  define s1 where "s1 = add_objcnt h 1 (if is_out then snd (mk_dosobj 0 st)
    else pr_dosobj 0 data (snd (mk_dosobj 0 st)))"
  have s1: "udisps s1 ! h = ?u\<lparr>objcnt := objcnt ?u + 1\<rparr>" "length (udisps s1) = MAX_HANDLES"
    using wf_dj_length [OF wf] h by (simp_all add: s1_def add_objcnt_def upd_u_def mk_dosobj_def pr_dosobj_def)
  from init h obtain x where put: "put_oh h 0 0 s1 = Ret x s" and fa: "fa = 0"
    by (auto simp: do_obj_init_def s1_def mk_dosobj_def Let_def split: if_splits)
  from put obtain i where i: "find_oh 0 (objs ?u) (recur_cnt ?u) = Some i"
    and st': "s = upd_u h (\<lambda>u. u\<lparr>objs := (objs u)[recur_cnt ?u - 1 := (objs u ! (recur_cnt ?u - 1))[i := 0]]\<rparr>) s1"
    by (rule put_oh_RetE) (simp add: s1)
  from i have "(objs ?u ! (recur_cnt ?u - 1))[i := 0] = objs ?u ! (recur_cnt ?u - 1)"
    by (auto simp: find_oh_def dest!: index_of_SomeD intro: list_update_same_conv [THEN iffD2])
  then have u: "udisps s ! h = ?u\<lparr>objcnt := objcnt ?u + 1\<rparr>"
    using h s1 by (simp add: st')
  have "objcnt ?u = int (size (udisp_objs ?u))" using wf_dj_udisp [OF wf h] by (simp add: wf_udisp_def)
  then have "\<not> wf_udisp (udisps s ! h)" by (simp add: u wf_udisp_def udisp_objs_def)
  with wf_dj_udisp [of s h] h have "\<not> wf_dj s" by blast
  with u fa show ?thesis by simp
qed

definition demo_oom :: "nat \<Rightarrow> nat prog" where
  "demo_oom _ = PObjInit False 0 [1, 2] False 0 (\<lambda>_.
     PAsmCall 0 0 (\<lambda>_. ARet ASM_CALL_ABORT zero_regs) (\<lambda>_. PRet 3 4))"

lemma demo_oom_asserts: "dj64_call 0 0 zero_regs (\<lambda>d. run_prog (demo_oom d) 2 int 0) demo = Fault AssertFail"
proof -
  have "case dj64_call 0 0 zero_regs (\<lambda>d. run_prog (demo_oom d) 2 int 0) demo of
      Fault e \<Rightarrow> e = AssertFail | _ \<Rightarrow> False"
    by code_simp
  then show ?thesis by (auto split: exec.splits)
qed

theorem obj_init_exhausted_witness:
  "(\<exists>fa s. do_obj_init False 0 [1] False 0 0 demo_live = Ret fa s \<and> \<not> wf_dj s) \<and>
   dj64_call 0 0 zero_regs (\<lambda>d. run_prog (demo_oom d) 2 int 0) demo = Fault AssertFail"
proof -
  have "case do_obj_init False 0 [1] False 0 0 demo_live of Ret fa s \<Rightarrow> fa = 0 | _ \<Rightarrow> False"
    by code_simp
  then obtain fa s where "do_obj_init False 0 [1] False 0 0 demo_live = Ret fa s"
    by (auto split: exec.splits)
  with obj_init_exhausted [of 0 "[1]" False 0 demo_live fa s] demo_live_ok(1) demo_oom_asserts show ?thesis
    by (auto simp: max_defs)
qed

lemma through_int_pair:
  fixes lo hi :: u32
  shows "through_int (ucast lo OR push_bit 32 (ucast hi)) = scast lo"
proof -
  have "(ucast (ucast lo OR push_bit 32 (ucast hi :: u64)) :: u32) = lo"
    by (rule bit_word_eqI) (simp add: bit_simps)
  then show ?thesis by (simp add: through_int_def)
qed

text \<open>
  C8. The 64-bit result of a call into the DOS program does not reach the library: whatever
  \<^verbatim>\<open>edx\<close> holds, the caller gets \<^verbatim>\<open>eax\<close> sign-extended, because the result passes through an
  \<^verbatim>\<open>int\<close> variable.
\<close>

theorem asm_call_result:
  assumes "dj64_asm_call (int h) num flags asm st = Ret v st'" and "h < MAX_HANDLES"
    and "\<And>pma s. asm pma s = Ret (ASM_CALL_OK, r) (f s)"
  shows "v = scast (eax r)"
  using assms by (auto simp: dj64_asm_call_def do_asm_call_def Let_def through_int_pair split: if_splits)

theorem asm_call_result_witness:
  "\<exists>v st'. dj64_asm_call 0 0 0 (\<lambda>_. Ret (ASM_CALL_OK, zero_regs\<lparr>eax := 5, edx := 1\<rparr>)) demo_live = Ret v st' \<and> v = 5"
proof -
  have "case dj64_asm_call 0 0 0 (\<lambda>_. Ret (ASM_CALL_OK, zero_regs\<lparr>eax := 5, edx := 1\<rparr>)) demo_live of
      Ret v st' \<Rightarrow> True | _ \<Rightarrow> False"
    by code_simp
  then obtain v st' where
    "dj64_asm_call 0 0 0 (\<lambda>_. Ret (ASM_CALL_OK, zero_regs\<lparr>eax := 5, edx := 1\<rparr>)) demo_live = Ret v st'"
    by (auto split: exec.splits)
  with asm_call_result [of 0 0 0 _ demo_live v st' "zero_regs\<lparr>eax := 5, edx := 1\<rparr>" id] show ?thesis
    by (auto simp: max_defs)
qed

end
