(* ===== verification/Thunk_Ctrl_Props.thy ===== *)
theory Thunk_Ctrl_Props
  imports Thunk_Ctrl Thunk_Props
begin

text \<open>
  The properties of loading: what resolving a thunk table leaves in it, that \<^verbatim>\<open>dj64_ctrl\<close> closes
  what it opens, that a loaded symbol is found again, and how a library's registration is
  taken over.
\<close>

section \<open>Resolving a table\<close>

lemma athunks_loop_spec:
  assumes "i + length ns \<le> length tab"
  shows "athunks_loop getsym base i ns tab =
    (let ok = takeWhile (\<lambda>n. getsym n \<noteq> 0) ns in
     Inr (if ok = ns then 0 else -1,
          take i tab @ map (\<lambda>n. base + getsym n) ok @ drop (i + length ok) tab))"
  using assms
proof (induction ns arbitrary: i tab)
  case (Cons n ns)
  from Cons.prems have i: "i < length tab" by simp
  show ?case
  proof (cases "getsym n = 0")
    case False
    have "take (Suc i) (tab[i := v]) = take i tab @ [v]" for v
      using i by (simp add: take_Suc_conv_app_nth)
    moreover have "drop (Suc (i + k)) (tab[i := v]) = drop (Suc (i + k)) tab" for v k by simp
    ultimately show ?thesis
      using False i Cons.prems Cons.IH [of "Suc i" "tab[i := base + getsym n]"] by (simp add: Let_def)
  qed (use i in simp)
qed simp

lemma pthunks_loop_spec:
  assumes "i + length ns \<le> length tab"
  shows "pthunks_loop getsym i ns tab =
    (let ok = takeWhile (\<lambda>n. getsym n \<noteq> 0) ns in
     if ok = ns then Inr (0, take i tab @ map getsym ns @ drop (i + length ns) tab)
     else Inr (-1, take i tab @ map getsym ok @ 0 # drop (Suc (i + length ok)) tab))"
  using assms
proof (induction ns arbitrary: i tab)
  case (Cons n ns)
  from Cons.prems have i: "i < length tab" by simp
  have tk: "take (Suc i) (tab[i := v]) = take i tab @ [v]" for v
    using i by (simp add: take_Suc_conv_app_nth)
  have dr: "drop (Suc (i + k)) (tab[i := v]) = drop (Suc (i + k)) tab" for v k by simp
  show ?case
  proof (cases "getsym n = 0")
    case False
    then show ?thesis
      using i tk dr Cons.prems Cons.IH [of "Suc i" "tab[i := getsym n]"] by (simp add: Let_def)
  next
    case True
    then show ?thesis using i upd_conv_take_nth_drop [OF i, of 0] by (simp add: Let_def nth_append)
  qed
qed simp

lemma process_athunks_eq:
  assumes "t = deref h p st" and "length (at_names t) \<le> length (at_tab t)"
    and "ok = takeWhile (\<lambda>n. elf_getsym ops eh n \<noteq> 0) (at_names t)"
  shows "process_athunks ops eh mem_base h p st =
    Ret (if ok = at_names t then 0 else -1)
      (store_thunks h p (t\<lparr>at_tab := map (\<lambda>n. mem_base + elf_getsym ops eh n) ok
         @ drop (length ok) (at_tab t)\<rparr>) st)"
  using assms by (simp add: process_athunks_def athunks_loop_spec lift_sum_def Let_def)

text \<open>
  C9. Resolving a thunk table fills its entries in order with the base plus the symbol's
  offset, returns 0 exactly when every symbol resolves, and otherwise stops at the first that
  does not, with the rest of the table as it was.
\<close>

theorem process_athunks_spec:
  assumes "t = deref h p st" and "length (at_names t) \<le> length (at_tab t)"
    and "ok = takeWhile (\<lambda>n. elf_getsym ops eh n \<noteq> 0) (at_names t)"
  shows "process_athunks ops eh mem_base h p st =
    Ret (if ok = at_names t then 0 else -1)
      (store_thunks h p (t\<lparr>at_tab := map (\<lambda>n. mem_base + elf_getsym ops eh n) ok
         @ drop (length ok) (at_tab t)\<rparr>) st)"
  using assms by (rule process_athunks_eq)

definition demo_ops :: elf_ops where
  "demo_ops = \<lparr>elf_open = (\<lambda>_ _. Some 1), elf_open_dyn = (\<lambda>_ _. Some 2),
     elf_getsym = (\<lambda>_ n. if n = ''bad'' then 0 else 64), elf_parse64 = (\<lambda>_. None),
     elf_parse64_h = (\<lambda>_. None), elf_reloc = (\<lambda>_ _ _ _. (0, 0))\<rparr>"

definition demo_unresolved :: "nat dj" where
  "demo_unresolved = demo\<lparr>ustore := (\<lambda>_. \<lparr>at_names = [''a'', ''bad'', ''c''], at_tab = [7, 7, 7]\<rparr>)\<rparr>"

theorem process_athunks_spec_witness:
  "\<exists>st'. process_athunks demo_ops 1 4096 0 (UserAt 0) demo_unresolved = Ret (-1) st'
     \<and> at_tab (ustore st' 0) = [4160, 7, 7]"
proof -
  have t: "deref 0 (UserAt 0) demo_unresolved = \<lparr>at_names = [''a'', ''bad'', ''c''], at_tab = [7, 7, 7]\<rparr>"
    by (simp add: deref_def demo_unresolved_def)
  show ?thesis
    using process_athunks_spec [OF t [symmetric] _ refl, of demo_ops 1 4096]
    by (simp add: demo_ops_def store_thunks_def)
qed

section \<open>ELF handles\<close>

lemma store_thunks_log [simp]: "elf_log (store_thunks h p t st) = elf_log st"
  by (simp add: store_thunks_def upd_u_def split: aptr.splits)

lemma lift_sum_RetE [elim!]:
  assumes "lift_sum x f = Ret v st"
  obtains a where "x = Inr a" and "f a = Ret v st"
  using assms by (auto simp: lift_sum_def split: sum.splits)

lemma process_thunks_log:
  "process_athunks ops eh base h p st = Ret ret st' \<Longrightarrow> elf_log st' = elf_log st"
  "process_pthunks ops eh h p st = Ret ret st' \<Longrightarrow> elf_log st' = elf_log st"
  by (auto simp: process_athunks_def process_pthunks_def Let_def)

lemma until_error_log:
  assumes "\<And>f s ret s'. f \<in> set fs \<Longrightarrow> f s = Ret ret s' \<Longrightarrow> elf_log s' = elf_log s"
    and "until_error fs st = Ret ret st'"
  shows "elf_log st' = elf_log st"
  using assms
proof (induction fs arbitrary: st)
  case (Cons f fs)
  from Cons.prems(2) obtain r s where f: "f st = Ret r s"
    and rest: "(if r \<noteq> 0 then Ret r s else until_error fs s) = Ret ret st'" by auto
  have "elf_log s = elf_log st" using Cons.prems(1) [of f st r s] f by simp
  moreover have "elf_log st' = elf_log s"
    using rest Cons.prems(1) by (cases "r = 0") (auto intro!: Cons.IH)
  ultimately show ?case by simp
qed simp

lemma calls_log:
  "f \<in> set (core_calls base h ops eh) \<Longrightarrow> f s = Ret ret s' \<Longrightarrow> elf_log s' = elf_log s"
  "f \<in> set (lib_calls base h u libid ops eh) \<Longrightarrow> f s = Ret ret s' \<Longrightarrow> elf_log s' = elf_log s"
  by (auto simp: core_calls_def lib_calls_def process_thunks_log split: option.splits)

definition balanced :: "elf_event list \<Rightarrow> bool" where
  "balanced es \<longleftrightarrow> (\<exists>hs. es = concat (map (\<lambda>e. [EOpen e, EClose e]) hs))"

lemma balanced_simps [simp]: "balanced []" "balanced [EOpen e, EClose e]"
  unfolding balanced_def by (rule exI [of _ "[]"], simp) (rule exI [of _ "[e]"], simp)

lemma balanced_append:
  assumes "balanced es" and "balanced fs"
  shows "balanced (es @ fs)"
proof -
  from assms obtain hs ks where "es = concat (map (\<lambda>e. [EOpen e, EClose e]) hs)"
    and "fs = concat (map (\<lambda>e. [EOpen e, EClose e]) ks)"
    unfolding balanced_def by blast
  then show ?thesis unfolding balanced_def by (intro exI [of _ "hs @ ks"]) simp
qed

lemma with_elf_balanced:
  assumes "\<And>ops eh f s ret s'. f \<in> set (calls ops eh) \<Longrightarrow> f s = Ret ret s' \<Longrightarrow> elf_log s' = elf_log s"
    and "with_elf h opn calls st = Ret ret st'"
  shows "\<exists>es. elf_log st' = elf_log st @ es \<and> balanced es"
proof -
  from assms(2) obtain ops where ops: "eops (udisps st ! h) = Some ops"
    by (cases "eops (udisps st ! h)") (auto simp: with_elf_def)
  show ?thesis
  proof (cases "opn ops")
    case None
    with assms(2) ops show ?thesis by (auto simp: with_elf_def)
  next
    case (Some eh)
    with assms(2) ops obtain r s where
      run: "until_error (calls ops eh) (st\<lparr>elf_log := elf_log st @ [EOpen eh]\<rparr>) = Ret r s"
      and st': "st' = elf_close eh s"
      by (auto simp: with_elf_def)
    from until_error_log [OF assms(1) run] have "elf_log st' = elf_log st @ [EOpen eh, EClose eh]"
      by (simp add: st' elf_close_def)
    then show ?thesis by (intro exI [of _ "[EOpen eh, EClose eh]"]) simp
  qed
qed

lemma do_early_init_frame:
  assumes "do_early_init handle st = Ret x st'"
  shows "elf_log st' = elf_log st" and "udisps st' = udisps st" and "ustore st' = ustore st"
  using assms by (auto simp: do_early_init_def djthunk_get_h_def with_handle_def split: if_splits)

lemma set_symtab_RetE:
  assumes "set_symtab handle h libid cs_sel r st = Ret ret st'"
  obtains (payload) r1 where "symtab_payload h libid r (upd_u h (\<lambda>u. u\<lparr>cs := cs_sel\<rparr>) st) = Ret r1 st'"
      and "r1 \<noteq> 0" and "ret = -1"
  | (core) s1 r2 where "symtab_payload h libid r (upd_u h (\<lambda>u. u\<lparr>cs := cs_sel\<rparr>) st) = Ret 0 s1"
      and "symtab_core handle h r s1 = Ret r2 st'" and "r2 \<noteq> 0" and "ret = -1"
  | (all) s1 s2 where "symtab_payload h libid r (upd_u h (\<lambda>u. u\<lparr>cs := cs_sel\<rparr>) st) = Ret 0 s1"
      and "symtab_core handle h r s1 = Ret 0 s2" and "do_early_init handle s2 = Ret () st'" and "ret = 0"
proof -
  from assms obtain r1 s1 where one: "symtab_payload h libid r (upd_u h (\<lambda>u. u\<lparr>cs := cs_sel\<rparr>) st) = Ret r1 s1"
    and rest: "(if r1 \<noteq> 0 then Ret (-1) s1 else exec_bind (symtab_core handle h r s1) (\<lambda>ret st.
      if ret \<noteq> 0 then Ret (-1) st else exec_bind (do_early_init handle st) (\<lambda>_ st. Ret 0 st))) = Ret ret st'"
    unfolding set_symtab_def by (rule exec_bind_RetE)
  show thesis
  proof (cases "r1 = 0")
    case False
    with one rest payload show ?thesis by simp
  next
    case True
    with rest obtain r2 s2 where two: "symtab_core handle h r s1 = Ret r2 s2"
      and rest2: "(if r2 \<noteq> 0 then Ret (-1) s2 else exec_bind (do_early_init handle s2) (\<lambda>_ st. Ret 0 st)) = Ret ret st'"
      by auto
    show ?thesis
    proof (cases "r2 = 0")
      case False
      with one True two rest2 core show ?thesis by simp
    next
      case r2: True
      with rest2 have "do_early_init handle s2 = Ret () st'" "ret = 0" by auto
      with one True two r2 all show ?thesis by simp
    qed
  qed
qed

lemma symtab_balanced:
  "symtab_payload h libid r st = Ret ret st' \<Longrightarrow> \<exists>es. elf_log st' = elf_log st @ es \<and> balanced es"
  "symtab_core handle h r st = Ret ret st' \<Longrightarrow> \<exists>es. elf_log st' = elf_log st @ es \<and> balanced es"
proof -
  have nil: "\<exists>es. elf_log st = elf_log st @ es \<and> balanced es" by (rule exI [of _ "[]"]) simp
  show "\<exists>es. elf_log st' = elf_log st @ es \<and> balanced es" if "symtab_payload h libid r st = Ret ret st'"
  proof (cases "ebx r = 0")
    case True
    with that nil show ?thesis by (auto simp: symtab_payload_def Let_def)
  next
    case False
    with that show ?thesis unfolding symtab_payload_def Let_def
      by (intro with_elf_balanced) (auto intro: calls_log split: if_splits)
  qed
  show "\<exists>es. elf_log st' = elf_log st @ es \<and> balanced es" if "symtab_core handle h r st = Ret ret st'"
  proof (cases "have_core r \<or> esi r = -1")
    case True
    with that nil show ?thesis by (auto simp: symtab_core_def Let_def split: if_splits)
  next
    case False
    with that show ?thesis unfolding symtab_core_def Let_def
      by (intro with_elf_balanced) (auto intro: calls_log)
  qed
qed

lemma set_symtab_balanced:
  assumes "set_symtab handle h libid cs_sel r st = Ret ret st'"
  shows "\<exists>es. elf_log st' = elf_log st @ es \<and> balanced es"
proof -
  let ?st = "upd_u h (\<lambda>u. u\<lparr>cs := cs_sel\<rparr>) st"
  have log: "elf_log ?st = elf_log st" by (simp add: upd_u_def)
  have two: "\<exists>es. elf_log st' = elf_log st @ es \<and> balanced es"
    if "symtab_payload h libid r ?st = Ret 0 s1" "symtab_core handle h r s1 = Ret r2 s2" "elf_log st' = elf_log s2"
    for s1 r2 s2
    using symtab_balanced(1) [OF that(1)] symtab_balanced(2) [OF that(2)] that(3) log balanced_append
    by (metis append.assoc)
  from assms show ?thesis
  proof (cases rule: set_symtab_RetE)
    case (payload r1)
    with symtab_balanced(1) [OF payload(1)] log show ?thesis by simp
  next
    case (core s1 r2)
    then show ?thesis using two by blast
  next
    case (all s1 s2)
    with two do_early_init_frame(1) [OF all(3)] show ?thesis by blast
  qed
qed

lemma elfload_balanced:
  assumes "elfload handle h libid by_fd r st = Ret ret st'"
  shows "\<exists>es. elf_log st' = elf_log st @ es \<and> balanced es"
proof -
  have nil: "\<exists>es. elf_log st = elf_log st @ es \<and> balanced es" by (rule exI [of _ "[]"]) simp
  let ?u = "udisps st ! h"
  show ?thesis
  proof (cases "eops ?u")
    case None
    with assms show ?thesis by (simp add: elfload_def Let_def)
  next
    case (Some ops)
    show ?thesis
    proof (cases "if by_fd then elf_parse64 ops (eax r) else elf_parse64_h ops handle")
      case None
      with assms Some nil show ?thesis by (simp add: elfload_def Let_def)
    next
      case (Some x)
      obtain elf esize where x: "x = (elf, esize)" by (cases x)
      from assms \<open>eops ?u = Some ops\<close> Some x obtain r1 where
        "with_elf h (\<lambda>ops. elf_open ops elf esize) (\<lambda>ops' eh.
           (\<lambda>st. Ret (fst (elf_reloc ops eh (edx r + ebx r) (ecx r) (ebx r))) st)
           # lib_calls (edx r) h ?u libid ops' eh) st = Ret r1 st'"
        by (auto simp: elfload_def Let_def)
      then show ?thesis
        by (rule with_elf_balanced [rotated]) (auto intro: calls_log)
    qed
  qed
qed



section \<open>After a successful load\<close>

text \<open>A table all of whose entries are resolved against handle \<open>eh\<close> of the loader.\<close>

definition resolved_at :: "elf_ops \<Rightarrow> nat \<Rightarrow> u32 \<Rightarrow> athunks \<Rightarrow> bool" where
  "resolved_at ops eh base t \<longleftrightarrow> length (at_names t) \<le> length (at_tab t) \<and>
     (\<forall>i < length (at_names t). elf_getsym ops eh (at_names t ! i) \<noteq> 0 \<and>
        at_tab t ! i = base + elf_getsym ops eh (at_names t ! i))"

lemma takeWhile_all: "takeWhile P xs = xs \<longleftrightarrow> (\<forall>x \<in> set xs. P x)"
  by (metis set_takeWhileD takeWhile_eq_all_conv)

lemma process_athunks_resolved:
  assumes "process_athunks ops eh base h p st = Ret 0 st'"
    and "length (at_names (deref h p st)) \<le> length (at_tab (deref h p st))"
  shows "\<exists>t. st' = store_thunks h p t st \<and> at_names t = at_names (deref h p st)
    \<and> resolved_at ops eh base t"
proof -
  let ?t = "deref h p st"
  let ?ok = "takeWhile (\<lambda>n. elf_getsym ops eh n \<noteq> 0) (at_names ?t)"
  from process_athunks_eq [OF refl assms(2) refl, of ops eh base] assms(1)
  have ok: "?ok = at_names ?t"
    and st': "st' = store_thunks h p (?t\<lparr>at_tab := map (\<lambda>n. base + elf_getsym ops eh n) ?ok
      @ drop (length ?ok) (at_tab ?t)\<rparr>) st"
    by (auto split: if_splits)
  have "\<forall>n \<in> set (at_names ?t). elf_getsym ops eh n \<noteq> 0" using ok by (simp only: takeWhile_all)
  with assms(2) have "resolved_at ops eh base (?t\<lparr>at_tab := map (\<lambda>n. base + elf_getsym ops eh n) (at_names ?t)
      @ drop (length (at_names ?t)) (at_tab ?t)\<rparr>)"
    by (auto simp: resolved_at_def nth_append)
  then show ?thesis by (intro exI conjI) (rule st' [unfolded ok], simp_all)
qed

text \<open>What every step of \<^verbatim>\<open>DL_SET_SYMTAB\<close> leaves alone in the record of the program.\<close>

definition core_shape :: "nat \<Rightarrow> 'v dj \<Rightarrow> 'v dj \<Rightarrow> bool" where
  "core_shape h s s' \<longleftrightarrow> length (udisps s') = length (udisps s) \<and>
     at_names (core_at (udisps s' ! h)) = at_names (core_at (udisps s ! h)) \<and>
     length (at_tab (core_at (udisps s' ! h))) = length (at_tab (core_at (udisps s ! h))) \<and>
     eops (udisps s' ! h) = eops (udisps s ! h) \<and> at (udisps s' ! h) = at (udisps s ! h)"

lemma core_shape_refl [simp]: "core_shape h s s"
  by (simp add: core_shape_def)

lemma core_shape_trans: "core_shape h s t \<Longrightarrow> core_shape h t u \<Longrightarrow> core_shape h s u"
  by (simp add: core_shape_def)

lemma athunks_loop_length: "athunks_loop g b i ns tab = Inr (r, tab') \<Longrightarrow> length tab' = length tab"
  by (induction g b i ns tab rule: athunks_loop.induct) (auto simp: Let_def split: if_splits)

lemma store_thunks_core:
  "h < length (udisps st) \<Longrightarrow> core_at (udisps (store_thunks h p t st) ! h) =
     (if p = CoreAt then t else core_at (udisps st ! h))"
  "length (udisps (store_thunks h p t st)) = length (udisps st)"
  "h < length (udisps st) \<Longrightarrow> eops (udisps (store_thunks h p t st) ! h) = eops (udisps st ! h)"
  "h < length (udisps st) \<Longrightarrow> at (udisps (store_thunks h p t st) ! h) = at (udisps st ! h)"
  by (auto simp: store_thunks_def split: aptr.splits)

lemma process_athunks_shape:
  assumes "process_athunks ops eh base h p st = Ret ret st'" and "h < length (udisps st)"
  shows "core_shape h st st'"
  using assms
  by (auto simp: process_athunks_def Let_def core_shape_def store_thunks_core deref_def
      dest: athunks_loop_length)

lemma process_pthunks_shape:
  assumes "process_pthunks ops eh h p st = Ret ret st'" and "h < length (udisps st)" and "p \<noteq> CoreAt"
  shows "core_shape h st st' \<and> core_at (udisps st' ! h) = core_at (udisps st ! h)"
  using assms by (auto simp: process_pthunks_def Let_def core_shape_def store_thunks_core)

lemma process_athunks_keeps:
  assumes run: "process_athunks ops eh base h p st = Ret ret st'" and h: "h < length (udisps st)"
    and res: "resolved_at ops eh base (core_at (udisps st ! h))"
  shows "resolved_at ops eh base (core_at (udisps st' ! h))"
proof (cases "p = CoreAt")
  case True
  let ?t = "deref h p st"
  have t: "?t = core_at (udisps st ! h)" using True by (simp add: deref_def)
  from res have len: "length (at_names ?t) \<le> length (at_tab ?t)"
    and all: "\<forall>n \<in> set (at_names ?t). elf_getsym ops eh n \<noteq> 0"
    by (auto simp: t resolved_at_def in_set_conv_nth)
  then have "takeWhile (\<lambda>n. elf_getsym ops eh n \<noteq> 0) (at_names ?t) = at_names ?t"
    by (simp add: takeWhile_all)
  with process_athunks_eq [OF refl len refl, of ops eh base] run have "ret = 0" by simp
  with process_athunks_resolved [OF run [unfolded this] len] obtain t' where
    "st' = store_thunks h p t' st" and "resolved_at ops eh base t'" by blast
  with True h show ?thesis by (simp add: store_thunks_core)
next
  case False
  with run h res show ?thesis by (auto simp: process_athunks_def Let_def store_thunks_core)
qed

lemma until_error_inv:
  assumes "P st" and "\<And>f s ret s'. f \<in> set fs \<Longrightarrow> P s \<Longrightarrow> f s = Ret ret s' \<Longrightarrow> P s'"
    and "until_error fs st = Ret ret st'"
  shows "P st'"
  using assms
proof (induction fs arbitrary: st)
  case (Cons f fs)
  from Cons.prems(3) obtain r s where f: "f st = Ret r s"
    and rest: "(if r \<noteq> 0 then Ret r s else until_error fs s) = Ret ret st'" by auto
  have s: "P s" using Cons.prems(2) [of f st r s] Cons.prems(1) f by simp
  show ?case
  proof (cases "r = 0")
    case True
    show ?thesis
    proof (rule Cons.IH [OF s])
      show "until_error fs s = Ret ret st'" using rest True by simp
      show "\<And>f s ret s'. f \<in> set fs \<Longrightarrow> P s \<Longrightarrow> f s = Ret ret s' \<Longrightarrow> P s'"
        using Cons.prems(2) by (metis list.set_intros(2))
    qed
  qed (use rest s in simp)
qed simp

text \<open>The pointers \<^verbatim>\<open>DJ64_INIT_FN\<close> stores: a plain table never stands in the other's place.\<close>

definition proper_ptrs :: "udisp \<Rightarrow> nat \<Rightarrow> bool" where
  "proper_ptrs u libid \<longleftrightarrow> at u ! libid \<noteq> Some CorePt \<and> pt u ! libid \<noteq> Some CoreAt"

lemma calls_shape:
  assumes "f \<in> set (core_calls base h ops eh) \<union> set (lib_calls base h u libid ops eh)"
    and "proper_ptrs u libid" and "h < length (udisps s)" and "f s = Ret ret s'"
  shows "core_shape h s s'"
    and "resolved_at ops eh base (core_at (udisps s ! h)) \<Longrightarrow>
      resolved_at ops eh base (core_at (udisps s' ! h))"
proof -
  from assms(1,2) consider p where "f = process_athunks ops eh base h p"
    | p where "f = process_pthunks ops eh h p" "p \<noteq> CoreAt"
    by (cases "at u ! libid"; cases "pt u ! libid") (auto simp: core_calls_def lib_calls_def proper_ptrs_def)
  note c = this
  from c show "core_shape h s s'"
    using assms(3,4) process_athunks_shape process_pthunks_shape by cases blast+
  assume "resolved_at ops eh base (core_at (udisps s ! h))"
  with c show "resolved_at ops eh base (core_at (udisps s' ! h))"
  proof cases
    case (1 p)
    then show ?thesis using assms(3,4) \<open>resolved_at _ _ _ _\<close> process_athunks_keeps by blast
  next
    case (2 p)
    then show ?thesis using assms(3,4) \<open>resolved_at _ _ _ _\<close> process_pthunks_shape [of ops eh h p s ret s'] by simp
  qed
qed

lemma core_first_resolved:
  assumes run: "until_error (core_calls base h ops eh @ fs) st = Ret 0 st'"
    and fs: "set fs \<subseteq> set (lib_calls base h u libid ops eh)" and ptrs: "proper_ptrs u libid"
    and h: "h < length (udisps st)"
    and len: "length (at_names (core_at (udisps st ! h))) \<le> length (at_tab (core_at (udisps st ! h)))"
  shows "resolved_at ops eh base (core_at (udisps st' ! h)) \<and>
    at_names (core_at (udisps st' ! h)) = at_names (core_at (udisps st ! h))"
proof -
  let ?fs = "process_pthunks ops eh h CorePt # fs"
  from run obtain r s where f: "process_athunks ops eh base h CoreAt st = Ret r s"
    and rest: "(if r \<noteq> 0 then Ret r s else until_error ?fs s) = Ret 0 st'"
    by (auto simp: core_calls_def)
  from rest have r: "r = 0" and run': "until_error ?fs s = Ret 0 st'" by (auto split: if_splits)
  from process_athunks_resolved [OF f [unfolded r]] len obtain t where
    t: "s = store_thunks h CoreAt t st" "at_names t = at_names (core_at (udisps st ! h))"
      "resolved_at ops eh base t"
    by (auto simp: deref_def)
  let ?P = "\<lambda>x. core_shape h s x \<and> h < length (udisps x) \<and> resolved_at ops eh base (core_at (udisps x ! h))"
  have s: "?P s" using t h by (simp add: store_thunks_core)
  have "?P st'"
  proof (rule until_error_inv [where P = ?P, OF s _ run'])
    fix g x ret x'
    assume g: "g \<in> set ?fs" and x: "?P x" and run: "g x = Ret ret x'"
    from g fs have g': "g \<in> set (core_calls base h ops eh) \<union> set (lib_calls base h u libid ops eh)"
      by (auto simp: core_calls_def)
    from x have hx: "h < length (udisps x)" by simp
    note c = calls_shape [OF g' ptrs hx run]
    from c x have "core_shape h s x'" by (blast intro: core_shape_trans)
    moreover from c(1) hx have "h < length (udisps x')" by (simp add: core_shape_def)
    ultimately show "?P x'" using c(2) x by blast
  qed
  with t h show ?thesis by (simp add: core_shape_def store_thunks_core)
qed

lemma with_elf_Ret0:
  assumes "with_elf h opn calls st = Ret 0 st'"
  obtains ops eh s where "eops (udisps st ! h) = Some ops" and "opn ops = Some eh"
    and "until_error (calls ops eh) (st\<lparr>elf_log := elf_log st @ [EOpen eh]\<rparr>) = Ret 0 s"
    and "st' = elf_close eh s"
  using assms by (auto simp: with_elf_def split: option.splits if_splits)

lemma elf_log_frame [simp]: "udisps (st\<lparr>elf_log := l\<rparr>) = udisps st" "udisps (elf_close eh st) = udisps st"
  by (simp_all add: elf_close_def)

lemma with_elf_shape:
  assumes run: "with_elf h opn calls st = Ret ret st'" and h: "h < length (udisps st)"
    and ptrs: "proper_ptrs u libid"
    and calls: "\<And>ops eh. set (calls ops eh) \<subseteq> set (core_calls base h ops eh) \<union> set (lib_calls base h u libid ops eh)"
  shows "core_shape h st st'"
proof -
  let ?P = "\<lambda>x. core_shape h st x \<and> h < length (udisps x)"
  from run obtain ops where ops: "eops (udisps st ! h) = Some ops"
    by (cases "eops (udisps st ! h)") (auto simp: with_elf_def)
  show ?thesis
  proof (cases "opn ops")
    case None
    with run ops show ?thesis by (simp add: with_elf_def)
  next
    case (Some eh)
    let ?st = "st\<lparr>elf_log := elf_log st @ [EOpen eh]\<rparr>"
    from run ops Some obtain r s where r: "until_error (calls ops eh) ?st = Ret r s" and st': "st' = elf_close eh s"
      by (auto simp: with_elf_def)
    have "?P s"
    proof (rule until_error_inv [where P = ?P, OF _ _ r])
      show "?P ?st" using h by (simp add: core_shape_def)
    next
      fix f x ret x'
      assume "f \<in> set (calls ops eh)" and x: "?P x" and run: "f x = Ret ret x'"
      with calls have f: "f \<in> set (core_calls base h ops eh) \<union> set (lib_calls base h u libid ops eh)" by blast
      from x have hx: "h < length (udisps x)" by simp
      note c = calls_shape(1) [OF f ptrs hx run]
      with x hx show "?P x'" by (metis core_shape_def core_shape_trans)
    qed
    then show ?thesis by (simp add: st' core_shape_def)
  qed
qed

lemma symtab_payload_shape:
  assumes run: "symtab_payload h libid r st = Ret ret st'" and h: "h < length (udisps st)"
    and ptrs: "proper_ptrs (udisps st ! h) libid"
  shows "core_shape h st st'"
proof (cases "ebx r = 0")
  case True
  with run show ?thesis by (simp add: symtab_payload_def)
next
  case False
  with run show ?thesis unfolding symtab_payload_def Let_def
    by (intro with_elf_shape [OF _ h ptrs, where base = "edx r"]) (auto split: if_splits)
qed

lemma symtab_core_shape:
  assumes run: "symtab_core handle h r st = Ret ret st'" and h: "h < length (udisps st)"
    and ptrs: "proper_ptrs u libid"
  shows "core_shape h st st'"
proof (cases "have_core r \<or> esi r = -1")
  case True
  with run show ?thesis by (auto simp: symtab_core_def Let_def split: if_splits)
next
  case False
  with run show ?thesis unfolding symtab_core_def Let_def
    by (intro with_elf_shape [OF _ h ptrs, where base = "edx r"]) auto
qed

lemma symtab_payload_resolves:
  assumes core: "have_core r" and run: "symtab_payload h libid r st = Ret 0 st'" and h: "h < length (udisps st)"
    and ptrs: "proper_ptrs (udisps st ! h) libid" and ops: "eops (udisps st ! h) = Some ops"
    and len: "length (at_names (core_at (udisps st ! h))) \<le> length (at_tab (core_at (udisps st ! h)))"
  shows "\<exists>eh. resolved_at ops eh (edx r) (core_at (udisps st' ! h))"
proof -
  let ?fs = "\<lambda>ops eh. if \<not> have_core r \<or> \<not> eax r AND SIFLG_SPLITPL \<noteq> 0
    then lib_calls (edx r) h (udisps st ! h) libid ops eh else []"
  from core run have "with_elf h (\<lambda>ops. elf_open ops (ebx r) (ecx r))
      (\<lambda>ops eh. core_calls (edx r) h ops eh @ ?fs ops eh) st = Ret 0 st'"
    by (auto simp: symtab_payload_def Let_def split: if_splits)
  then obtain ops' eh s where o: "eops (udisps st ! h) = Some ops'"
    and run1: "until_error (core_calls (edx r) h ops' eh @ ?fs ops' eh) (st\<lparr>elf_log := elf_log st @ [EOpen eh]\<rparr>) = Ret 0 s"
    and s: "st' = elf_close eh s" by (rule with_elf_Ret0)
  have ops': "ops' = ops" using o ops by simp
  have "set (?fs ops eh) \<subseteq> set (lib_calls (edx r) h (udisps st ! h) libid ops eh)" by auto
  from core_first_resolved [OF run1 [unfolded ops'] this ptrs] h len s show ?thesis by auto
qed

lemma symtab_core_resolves:
  assumes core: "\<not> have_core r" and run: "symtab_core handle h r st = Ret 0 st'" and h: "h < length (udisps st)"
    and ptrs: "proper_ptrs u libid" and ops: "eops (udisps st ! h) = Some ops"
    and len: "length (at_names (core_at (udisps st ! h))) \<le> length (at_tab (core_at (udisps st ! h)))"
  shows "\<exists>eh. resolved_at ops eh (edx r) (core_at (udisps st' ! h))"
proof -
  from core run have "with_elf h (\<lambda>ops. elf_open_dyn ops handle (esi r)) (core_calls (edx r) h) st = Ret 0 st'"
    by (auto simp: symtab_core_def Let_def split: if_splits)
  then obtain ops' eh s where o: "eops (udisps st ! h) = Some ops'"
    and run1: "until_error (core_calls (edx r) h ops' eh) (st\<lparr>elf_log := elf_log st @ [EOpen eh]\<rparr>) = Ret 0 s"
    and s: "st' = elf_close eh s" by (rule with_elf_Ret0)
  have ops': "ops' = ops" using o ops by simp
  from core_first_resolved [OF _ _ ptrs, of "edx r" h ops eh "[]" "st\<lparr>elf_log := elf_log st @ [EOpen eh]\<rparr>" s]
    run1 ops' h len s show ?thesis by auto
qed

lemma set_symtab_resolves:
  assumes run: "set_symtab handle h libid cs_sel r st = Ret 0 st'" and h: "h < length (udisps st)"
    and ptrs: "proper_ptrs (udisps st ! h) libid" and ops: "eops (udisps st ! h) = Some ops"
    and len: "length (at_names (core_at (udisps st ! h))) \<le> length (at_tab (core_at (udisps st ! h)))"
  shows "core_shape h st st' \<and> (\<exists>eh. resolved_at ops eh (edx r) (core_at (udisps st' ! h)))"
proof -
  let ?st = "upd_u h (\<lambda>u. u\<lparr>cs := cs_sel\<rparr>) st"
  from run obtain s1 s2 where one: "symtab_payload h libid r ?st = Ret 0 s1"
    and two: "symtab_core handle h r s1 = Ret 0 s2" and three: "do_early_init handle s2 = Ret () st'"
    by (cases rule: set_symtab_RetE) auto
  have ptrs': "proper_ptrs (udisps ?st ! h) libid" using ptrs h by (simp add: proper_ptrs_def)
  have sh0: "core_shape h st ?st" using h by (simp add: core_shape_def)
  have sh1: "core_shape h ?st s1" using symtab_payload_shape [OF one _ ptrs'] h by simp
  have h1: "h < length (udisps s1)" using sh1 h by (simp add: core_shape_def)
  have sh2: "core_shape h s1 s2" by (rule symtab_core_shape [OF two h1 ptrs])
  have "\<exists>eh. resolved_at ops eh (edx r) (core_at (udisps s2 ! h))"
  proof (cases "have_core r")
    case True
    with two have "s2 = s1" by (simp add: symtab_core_def)
    with symtab_payload_resolves [OF True one _ ptrs'] h ops len show ?thesis by simp
  next
    case False
    have "core_shape h st s1" by (rule core_shape_trans [OF sh0 sh1])
    with symtab_core_resolves [OF False two h1 ptrs] ops len show ?thesis by (simp add: core_shape_def)
  qed
  moreover have "core_shape h st s2" by (blast intro: core_shape_trans sh0 sh1 sh2)
  ultimately show ?thesis using do_early_init_frame(2) [OF three] by (simp add: core_shape_def)
qed

lemma do_thunk_get_resolved:
  assumes "i < length ns" and "ns ! i = name" and "\<And>j. j < length ns \<Longrightarrow> k + j < length tab \<and> tab ! (k + j) = f (ns ! j)"
  shows "do_thunk_get ns tab k name = Inr (f name)"
  using assms
proof (induction ns arbitrary: i k)
  case (Cons n ns)
  show ?case
  proof (cases "n = name")
    case True
    with Cons.prems(3) [of 0] show ?thesis by simp
  next
    case False
    with Cons.prems(1,2) obtain j where j: "i = Suc j" by (cases i) auto
    have "do_thunk_get ns tab (Suc k) name = Inr (f name)"
    proof (rule Cons.IH [of j])
      show "j < length ns" "ns ! j = name" using Cons.prems(1,2) j by auto
    next
      fix m
      assume "m < length ns"
      then show "Suc k + m < length tab \<and> tab ! (Suc k + m) = f (ns ! m)"
        using Cons.prems(3) [of "Suc m"] by simp
    qed
    with False show ?thesis by simp
  qed
qed simp


definition demo_symtab :: "nat dj" where
  "demo_symtab = upd_u 0 (\<lambda>u. u\<lparr>eops := Some demo_ops,
     core_at := \<lparr>at_names = [''x'', ''__crt0_startup_flags''], at_tab = [0, 0]\<rparr>\<rparr>) demo"

definition demo_symtab_regs :: regs where
  "demo_symtab_regs = zero_regs\<lparr>eax := 0x4000, ebx := 1, edx := 4096\<rparr>"


section \<open>Registration\<close>

text \<open>
  C12. A library built against another version of the interface never gets to run: its
  registration is recorded as a fatal error, nothing of it is kept, and from then on the host's
  \<^verbatim>\<open>DJ64_INIT_ONCE_FN\<close> call fails.
\<close>

theorem register_mismatch:
  assumes "ver \<noteq> DJ64_DYNAPI_VER" and "0 \<le> fatalerr st"
  shows "\<exists>st'. register_dispatch_fn fn ver st = Ret () st' \<and> disp_fn st' = disp_fn st
    \<and> 0 < fatalerr st' \<and> fst (dj64_init_once min_ver api st') = -1"
  using assms by (auto simp: register_dispatch_fn_def dj64_init_once_def Let_def)

theorem register_mismatch_witness:
  "\<exists>st'. register_dispatch_fn 7 1 demo = Ret () st' \<and> 0 < fatalerr st' \<and> fst (dj64_init_once 0 20 st') = -1"
proof -
  have "0 \<le> fatalerr demo" by code_simp
  from register_mismatch [OF _ this, of 1 7 0 20] show ?thesis by (auto simp: DJ64_DYNAPI_VER_def)
qed



end
