(* ===== verification/Ctype.thy ===== *)
theory Ctype
  imports Prelude
begin

text \<open>
  Character classification: the tables of \<^verbatim>\<open>src/libc/ansi/ctype/ct_flags.c\<close>, \<^verbatim>\<open>ct_lower.c\<close> and
  \<^verbatim>\<open>ct_upper.c\<close> (runs of equal entries are written with \<open>replicate\<close>), the predicates of
  \<^verbatim>\<open>include/inlines/ctype.ha\<close> that index them with the character plus one, so that \<^verbatim>\<open>EOF\<close> has an
  entry, and the wide-character predicates that need no table.
\<close>

section \<open>Tables\<close>

definition dj_ISALNUM :: u16 where "dj_ISALNUM = 0x0001"
definition dj_ISALPHA :: u16 where "dj_ISALPHA = 0x0002"
definition dj_ISCNTRL :: u16 where "dj_ISCNTRL = 0x0004"
definition dj_ISDIGIT :: u16 where "dj_ISDIGIT = 0x0008"
definition dj_ISGRAPH :: u16 where "dj_ISGRAPH = 0x0010"
definition dj_ISLOWER :: u16 where "dj_ISLOWER = 0x0020"
definition dj_ISPRINT :: u16 where "dj_ISPRINT = 0x0040"
definition dj_ISPUNCT :: u16 where "dj_ISPUNCT = 0x0080"
definition dj_ISSPACE :: u16 where "dj_ISSPACE = 0x0100"
definition dj_ISUPPER :: u16 where "dj_ISUPPER = 0x0200"
definition dj_ISXDIGIT :: u16 where "dj_ISXDIGIT = 0x0400"
definition dj_ISBLANK :: u16 where "dj_ISBLANK = 0x0800"

lemmas dj_flag_defs = dj_ISALNUM_def dj_ISALPHA_def dj_ISCNTRL_def dj_ISDIGIT_def dj_ISGRAPH_def dj_ISLOWER_def
  dj_ISPRINT_def dj_ISPUNCT_def dj_ISSPACE_def dj_ISUPPER_def dj_ISXDIGIT_def dj_ISBLANK_def

definition dj_ctype_flags_low :: "u16 list" where
  "dj_ctype_flags_low =
     [0] @
     replicate 9 (dj_ISCNTRL) @
     [dj_ISCNTRL OR dj_ISSPACE OR dj_ISBLANK] @
     replicate 4 (dj_ISCNTRL OR dj_ISSPACE) @
     replicate 18 (dj_ISCNTRL) @
     [dj_ISPRINT OR dj_ISSPACE OR dj_ISBLANK] @
     replicate 15 (dj_ISGRAPH OR dj_ISPRINT OR dj_ISPUNCT) @
     replicate 10 (dj_ISALNUM OR dj_ISDIGIT OR dj_ISGRAPH OR dj_ISPRINT OR dj_ISXDIGIT) @
     replicate 7 (dj_ISGRAPH OR dj_ISPRINT OR dj_ISPUNCT) @
     replicate 6 (dj_ISALNUM OR dj_ISALPHA OR dj_ISGRAPH OR dj_ISPRINT OR dj_ISUPPER OR dj_ISXDIGIT) @
     replicate 20 (dj_ISALNUM OR dj_ISALPHA OR dj_ISGRAPH OR dj_ISPRINT OR dj_ISUPPER) @
     replicate 6 (dj_ISGRAPH OR dj_ISPRINT OR dj_ISPUNCT) @
     replicate 6 (dj_ISALNUM OR dj_ISALPHA OR dj_ISGRAPH OR dj_ISLOWER OR dj_ISPRINT OR dj_ISXDIGIT) @
     replicate 20 (dj_ISALNUM OR dj_ISALPHA OR dj_ISGRAPH OR dj_ISLOWER OR dj_ISPRINT) @
     replicate 4 (dj_ISGRAPH OR dj_ISPRINT OR dj_ISPUNCT) @
     [dj_ISCNTRL]"

definition dj_ctype_flags_high :: "u16 list" where
  "dj_ctype_flags_high =
     replicate 128 (0)"

definition dj_ctype_flags :: "u16 list" where
  "dj_ctype_flags = dj_ctype_flags_low @ dj_ctype_flags_high"

definition dj_ctype_tolower :: "u8 list" where
  "dj_ctype_tolower =
     [0x00,
      0x00, 0x01, 0x02, 0x03, 0x04, 0x05, 0x06, 0x07, 0x08, 0x09, 0x0a, 0x0b, 0x0c, 0x0d, 0x0e, 0x0f,
      0x10, 0x11, 0x12, 0x13, 0x14, 0x15, 0x16, 0x17, 0x18, 0x19, 0x1a, 0x1b, 0x1c, 0x1d, 0x1e, 0x1f,
      0x20, 0x21, 0x22, 0x23, 0x24, 0x25, 0x26, 0x27, 0x28, 0x29, 0x2a, 0x2b, 0x2c, 0x2d, 0x2e, 0x2f,
      0x30, 0x31, 0x32, 0x33, 0x34, 0x35, 0x36, 0x37, 0x38, 0x39, 0x3a, 0x3b, 0x3c, 0x3d, 0x3e, 0x3f,
      0x40, 0x61, 0x62, 0x63, 0x64, 0x65, 0x66, 0x67, 0x68, 0x69, 0x6a, 0x6b, 0x6c, 0x6d, 0x6e, 0x6f,
      0x70, 0x71, 0x72, 0x73, 0x74, 0x75, 0x76, 0x77, 0x78, 0x79, 0x7a, 0x5b, 0x5c, 0x5d, 0x5e, 0x5f,
      0x60, 0x61, 0x62, 0x63, 0x64, 0x65, 0x66, 0x67, 0x68, 0x69, 0x6a, 0x6b, 0x6c, 0x6d, 0x6e, 0x6f,
      0x70, 0x71, 0x72, 0x73, 0x74, 0x75, 0x76, 0x77, 0x78, 0x79, 0x7a, 0x7b, 0x7c, 0x7d, 0x7e, 0x7f,
      0x80, 0x81, 0x82, 0x83, 0x84, 0x85, 0x86, 0x87, 0x88, 0x89, 0x8a, 0x8b, 0x8c, 0x8d, 0x8e, 0x8f,
      0x90, 0x91, 0x92, 0x93, 0x94, 0x95, 0x96, 0x97, 0x98, 0x99, 0x9a, 0x9b, 0x9c, 0x9d, 0x9e, 0x9f,
      0xa0, 0xa1, 0xa2, 0xa3, 0xa4, 0xa5, 0xa6, 0xa7, 0xa8, 0xa9, 0xaa, 0xab, 0xac, 0xad, 0xae, 0xaf,
      0xb0, 0xb1, 0xb2, 0xb3, 0xb4, 0xb5, 0xb6, 0xb7, 0xb8, 0xb9, 0xba, 0xbb, 0xbc, 0xbd, 0xbe, 0xbf,
      0xc0, 0xc1, 0xc2, 0xc3, 0xc4, 0xc5, 0xc6, 0xc7, 0xc8, 0xc9, 0xca, 0xcb, 0xcc, 0xcd, 0xce, 0xcf,
      0xd0, 0xd1, 0xd2, 0xd3, 0xd4, 0xd5, 0xd6, 0xd7, 0xd8, 0xd9, 0xda, 0xdb, 0xdc, 0xdd, 0xde, 0xdf,
      0xe0, 0xe1, 0xe2, 0xe3, 0xe4, 0xe5, 0xe6, 0xe7, 0xe8, 0xe9, 0xea, 0xeb, 0xec, 0xed, 0xee, 0xef,
      0xf0, 0xf1, 0xf2, 0xf3, 0xf4, 0xf5, 0xf6, 0xf7, 0xf8, 0xf9, 0xfa, 0xfb, 0xfc, 0xfd, 0xfe, 0xff]"

definition dj_ctype_toupper :: "u8 list" where
  "dj_ctype_toupper =
     [0x00,
      0x00, 0x01, 0x02, 0x03, 0x04, 0x05, 0x06, 0x07, 0x08, 0x09, 0x0a, 0x0b, 0x0c, 0x0d, 0x0e, 0x0f,
      0x10, 0x11, 0x12, 0x13, 0x14, 0x15, 0x16, 0x17, 0x18, 0x19, 0x1a, 0x1b, 0x1c, 0x1d, 0x1e, 0x1f,
      0x20, 0x21, 0x22, 0x23, 0x24, 0x25, 0x26, 0x27, 0x28, 0x29, 0x2a, 0x2b, 0x2c, 0x2d, 0x2e, 0x2f,
      0x30, 0x31, 0x32, 0x33, 0x34, 0x35, 0x36, 0x37, 0x38, 0x39, 0x3a, 0x3b, 0x3c, 0x3d, 0x3e, 0x3f,
      0x40, 0x41, 0x42, 0x43, 0x44, 0x45, 0x46, 0x47, 0x48, 0x49, 0x4a, 0x4b, 0x4c, 0x4d, 0x4e, 0x4f,
      0x50, 0x51, 0x52, 0x53, 0x54, 0x55, 0x56, 0x57, 0x58, 0x59, 0x5a, 0x5b, 0x5c, 0x5d, 0x5e, 0x5f,
      0x60, 0x41, 0x42, 0x43, 0x44, 0x45, 0x46, 0x47, 0x48, 0x49, 0x4a, 0x4b, 0x4c, 0x4d, 0x4e, 0x4f,
      0x50, 0x51, 0x52, 0x53, 0x54, 0x55, 0x56, 0x57, 0x58, 0x59, 0x5a, 0x7b, 0x7c, 0x7d, 0x7e, 0x7f,
      0x80, 0x81, 0x82, 0x83, 0x84, 0x85, 0x86, 0x87, 0x88, 0x89, 0x8a, 0x8b, 0x8c, 0x8d, 0x8e, 0x8f,
      0x90, 0x91, 0x92, 0x93, 0x94, 0x95, 0x96, 0x97, 0x98, 0x99, 0x9a, 0x9b, 0x9c, 0x9d, 0x9e, 0x9f,
      0xa0, 0xa1, 0xa2, 0xa3, 0xa4, 0xa5, 0xa6, 0xa7, 0xa8, 0xa9, 0xaa, 0xab, 0xac, 0xad, 0xae, 0xaf,
      0xb0, 0xb1, 0xb2, 0xb3, 0xb4, 0xb5, 0xb6, 0xb7, 0xb8, 0xb9, 0xba, 0xbb, 0xbc, 0xbd, 0xbe, 0xbf,
      0xc0, 0xc1, 0xc2, 0xc3, 0xc4, 0xc5, 0xc6, 0xc7, 0xc8, 0xc9, 0xca, 0xcb, 0xcc, 0xcd, 0xce, 0xcf,
      0xd0, 0xd1, 0xd2, 0xd3, 0xd4, 0xd5, 0xd6, 0xd7, 0xd8, 0xd9, 0xda, 0xdb, 0xdc, 0xdd, 0xde, 0xdf,
      0xe0, 0xe1, 0xe2, 0xe3, 0xe4, 0xe5, 0xe6, 0xe7, 0xe8, 0xe9, 0xea, 0xeb, 0xec, 0xed, 0xee, 0xef,
      0xf0, 0xf1, 0xf2, 0xf3, 0xf4, 0xf5, 0xf6, 0xf7, 0xf8, 0xf9, 0xfa, 0xfb, 0xfc, 0xfd, 0xfe, 0xff]"

section \<open>Predicates\<close>

text \<open>An index outside the 257 entries is a read outside the array.\<close>

definition ctype_entry :: "'a list \<Rightarrow> int \<Rightarrow> fault + 'a" where
  "ctype_entry tab c =
     (if 0 \<le> c + 1 \<and> c + 1 < int (length tab) then Inr (tab ! nat (c + 1)) else Inl OutOfBounds)"

definition ctype_test :: "u16 \<Rightarrow> int \<Rightarrow> fault + int" where
  "ctype_test flag c = map_sum id (\<lambda>w. uint (w AND flag)) (ctype_entry dj_ctype_flags c)"

definition isalnum :: "int \<Rightarrow> fault + int" where "isalnum = ctype_test dj_ISALNUM"
definition isalpha :: "int \<Rightarrow> fault + int" where "isalpha = ctype_test dj_ISALPHA"
definition iscntrl :: "int \<Rightarrow> fault + int" where "iscntrl = ctype_test dj_ISCNTRL"
definition isdigit :: "int \<Rightarrow> fault + int" where "isdigit = ctype_test dj_ISDIGIT"
definition isgraph :: "int \<Rightarrow> fault + int" where "isgraph = ctype_test dj_ISGRAPH"
definition islower :: "int \<Rightarrow> fault + int" where "islower = ctype_test dj_ISLOWER"
definition isprint :: "int \<Rightarrow> fault + int" where "isprint = ctype_test dj_ISPRINT"
definition ispunct :: "int \<Rightarrow> fault + int" where "ispunct = ctype_test dj_ISPUNCT"
definition isspace :: "int \<Rightarrow> fault + int" where "isspace = ctype_test dj_ISSPACE"
definition isupper :: "int \<Rightarrow> fault + int" where "isupper = ctype_test dj_ISUPPER"
definition isxdigit :: "int \<Rightarrow> fault + int" where "isxdigit = ctype_test dj_ISXDIGIT"
definition isblank :: "int \<Rightarrow> fault + int" where "isblank = ctype_test dj_ISBLANK"

definition tolower :: "int \<Rightarrow> fault + int" where
  "tolower c = map_sum id uint (ctype_entry dj_ctype_tolower c)"

definition toupper :: "int \<Rightarrow> fault + int" where
  "toupper c = map_sum id uint (ctype_entry dj_ctype_toupper c)"

text \<open>A \<^verbatim>\<open>char\<close> cast to \<^verbatim>\<open>unsigned char\<close> always has an entry.\<close>

definition lower8 :: "u8 \<Rightarrow> u8" where
  "lower8 c = dj_ctype_tolower ! (unat c + 1)"

definition upper8 :: "u8 \<Rightarrow> u8" where
  "upper8 c = dj_ctype_toupper ! (unat c + 1)"

definition isascii :: "u32 \<Rightarrow> bool" where
  "isascii c \<longleftrightarrow> c AND NOT 0x7f = 0"

definition toascii :: "u32 \<Rightarrow> u32" where
  "toascii c = c AND 0x7f"

definition iswdigit :: "u32 \<Rightarrow> bool" where
  "iswdigit wc \<longleftrightarrow> wc - 48 < 10"

text \<open>\<^verbatim>\<open>wint_t\<close> is \<^verbatim>\<open>int\<close>, so the first two comparisons are signed.\<close>

definition iswprint :: "u32 \<Rightarrow> bool" where
  "iswprint wc =
     (if sint wc < 0xff then 0x21 \<le> (wc + 1) AND 0x7f
      else if sint wc < 0x2028 \<or> wc - 0x202a < 0xd800 - 0x202a \<or> wc - 0xe000 < 0xfff9 - 0xe000 then True
      else if 0x10ffff - 0xfffc < wc - 0xfffc \<or> wc AND 0xfffe = 0xfffe then False
      else True)"

section \<open>What the tables say\<close>

definition ascii_upper :: "int \<Rightarrow> bool" where "ascii_upper c \<longleftrightarrow> 65 \<le> c \<and> c \<le> 90"
definition ascii_lower :: "int \<Rightarrow> bool" where "ascii_lower c \<longleftrightarrow> 97 \<le> c \<and> c \<le> 122"
definition ascii_digit :: "int \<Rightarrow> bool" where "ascii_digit c \<longleftrightarrow> 48 \<le> c \<and> c \<le> 57"

text \<open>The flags a character should have, from its class in ASCII.\<close>

definition ascii_flags :: "int \<Rightarrow> u16" where
  "ascii_flags c =
     (let al = ascii_upper c \<or> ascii_lower c; dg = ascii_digit c; gr = 33 \<le> c \<and> c \<le> 126; f = (\<lambda>b w. if b then w else 0) in
      f (al \<or> dg) dj_ISALNUM OR f al dj_ISALPHA OR f (0 \<le> c \<and> c < 32 \<or> c = 127) dj_ISCNTRL OR f dg dj_ISDIGIT OR
      f gr dj_ISGRAPH OR f (ascii_lower c) dj_ISLOWER OR f (32 \<le> c \<and> c \<le> 126) dj_ISPRINT OR
      f (gr \<and> \<not> al \<and> \<not> dg) dj_ISPUNCT OR f (9 \<le> c \<and> c \<le> 13 \<or> c = 32) dj_ISSPACE OR
      f (ascii_upper c) dj_ISUPPER OR
      f (dg \<or> 65 \<le> c \<and> c \<le> 70 \<or> 97 \<le> c \<and> c \<le> 102) dj_ISXDIGIT OR f (c = 9 \<or> c = 32) dj_ISBLANK)"

lemma nth_map_upto:
  fixes c lo hi :: int
  assumes "tab = map f [lo..hi]" and "lo \<le> c" and "c \<le> hi"
  shows "tab ! nat (c - lo) = f c"
  using assms by simp

lemma ctype_tables:
  "dj_ctype_flags = map ascii_flags [-1..255]"
  "dj_ctype_tolower = map (\<lambda>c. if c = -1 then 0 else word_of_int (if ascii_upper c then c + 32 else c)) [-1..255]"
  "dj_ctype_toupper = map (\<lambda>c. if c = -1 then 0 else word_of_int (if ascii_lower c then c - 32 else c)) [-1..255]"
  by code_simp+

lemma ctype_lengths: "length dj_ctype_flags = 257" "length dj_ctype_tolower = 257" "length dj_ctype_toupper = 257"
  by (simp_all add: ctype_tables)

lemma ctype_test_ascii:
  assumes "-1 \<le> c" and "c \<le> 255"
  shows "ctype_test flag c = Inr (uint (ascii_flags c AND flag))"
  using nth_map_upto [OF ctype_tables(1) assms] assms
  by (simp add: ctype_test_def ctype_entry_def ctype_lengths)

definition class_table :: "int \<Rightarrow> bool" where
  "class_table c \<longleftrightarrow>
     (let al = ascii_upper c \<or> ascii_lower c; dg = ascii_digit c; gr = 33 \<le> c \<and> c \<le> 126; w = ascii_flags c;
          v = (\<lambda>f. uint (w AND f)) in
      v dj_ISALNUM = (if al \<or> dg then 1 else 0) \<and> v dj_ISALPHA = (if al then 2 else 0) \<and>
      v dj_ISCNTRL = (if 0 \<le> c \<and> c < 32 \<or> c = 127 then 4 else 0) \<and> v dj_ISDIGIT = (if dg then 8 else 0) \<and>
      v dj_ISGRAPH = (if gr then 16 else 0) \<and> v dj_ISLOWER = (if ascii_lower c then 32 else 0) \<and>
      v dj_ISPRINT = (if 32 \<le> c \<and> c \<le> 126 then 64 else 0) \<and>
      v dj_ISPUNCT = (if gr \<and> \<not> al \<and> \<not> dg then 128 else 0) \<and>
      v dj_ISSPACE = (if 9 \<le> c \<and> c \<le> 13 \<or> c = 32 then 256 else 0) \<and>
      v dj_ISUPPER = (if ascii_upper c then 512 else 0) \<and>
      v dj_ISXDIGIT = (if dg \<or> 65 \<le> c \<and> c \<le> 70 \<or> 97 \<le> c \<and> c \<le> 102 then 1024 else 0) \<and>
      v dj_ISBLANK = (if c = 9 \<or> c = 32 then 2048 else 0))"

lemma class_table_all: "list_all class_table [-1..255]"
  by code_simp



lemma tolower_ascii:
  assumes "-1 \<le> c" and "c \<le> 255"
  shows "tolower c = Inr (if c = -1 then 0 else if ascii_upper c then c + 32 else c)"
    and "toupper c = Inr (if c = -1 then 0 else if ascii_lower c then c - 32 else c)"
  using nth_map_upto [OF ctype_tables(2) assms] nth_map_upto [OF ctype_tables(3) assms] assms
  by (simp_all add: tolower_def toupper_def ctype_entry_def ctype_lengths ascii_upper_def ascii_lower_def
      uint_word_of_int take_bit_int_eq_self)

text \<open>
  C15. Case conversion changes the 26 letters and nothing else, the two directions undo each
  other on letters, and both give 0 for \<^verbatim>\<open>EOF\<close>, which the C standard wants returned unchanged.
\<close>

theorem case_conversion:
  assumes "0 \<le> c" and "c \<le> 255"
  shows "tolower c = Inr (if ascii_upper c then c + 32 else c) \<and>
    toupper c = Inr (if ascii_lower c then c - 32 else c) \<and>
    (ascii_upper c \<longrightarrow> tolower c = Inr (c + 32) \<and> toupper (c + 32) = Inr c) \<and>
    tolower (-1) = Inr 0 \<and> toupper (-1) = Inr 0"
  using tolower_ascii [of c] tolower_ascii [of "-1"] tolower_ascii [of "c + 32"] assms
  by (auto simp: ascii_upper_def ascii_lower_def)

theorem case_conversion_witness: "tolower 65 = Inr 97 \<and> toupper 97 = Inr 65 \<and> tolower 64 = Inr 64"
  using case_conversion [of 65] case_conversion [of 97] case_conversion [of 64]
  by (simp add: ascii_upper_def ascii_lower_def)

lemma uint_word8: "0 \<le> k \<Longrightarrow> k < 256 \<Longrightarrow> uint (word_of_int k :: u8) = k"
  by (simp add: uint_word_of_int take_bit_int_eq_self)

lemma uint_u8: "0 \<le> uint (c :: u8)" "uint (c :: u8) < 256"
  using uint_lt2p [of c] by simp_all

lemma u8_entry:
  assumes "tab = map (\<lambda>c. if c = -1 then 0 else word_of_int (f c)) [-1..255]"
  shows "tab ! (unat (c :: u8) + 1) = (word_of_int (f (uint c)) :: u8)"
proof -
  have n: "nat (uint c - -1) = unat c + 1" using uint_u8(1) [of c] by (simp add: nat_add_distrib)
  have "tab ! nat (uint c - -1) = (if uint c = -1 then 0 else word_of_int (f (uint c)))"
    using uint_u8 [of c] by (intro nth_map_upto [OF assms]) linarith+
  moreover have "uint c \<noteq> -1" using uint_u8(1) [of c] by linarith
  ultimately show ?thesis unfolding n by (simp only: if_False)
qed

lemma lower8_ascii: "uint (lower8 c) = (if ascii_upper (uint c) then uint c + 32 else uint c)"
proof -
  have "lower8 c = word_of_int (if ascii_upper (uint c) then uint c + 32 else uint c)"
    unfolding lower8_def by (rule u8_entry [OF ctype_tables(2)])
  moreover have "0 \<le> (if ascii_upper (uint c) then uint c + 32 else uint c)"
    "(if ascii_upper (uint c) then uint c + 32 else uint c) < 256"
    using uint_u8 [of c] by (auto simp: ascii_upper_def)
  ultimately show ?thesis by (simp only: uint_word8)
qed

lemma upper8_ascii: "uint (upper8 c) = (if ascii_lower (uint c) then uint c - 32 else uint c)"
proof -
  have "upper8 c = word_of_int (if ascii_lower (uint c) then uint c - 32 else uint c)"
    unfolding upper8_def by (rule u8_entry [OF ctype_tables(3)])
  moreover have "0 \<le> (if ascii_lower (uint c) then uint c - 32 else uint c)"
    "(if ascii_lower (uint c) then uint c - 32 else uint c) < 256"
    using uint_u8 [of c] by (auto simp: ascii_lower_def)
  ultimately show ?thesis by (simp only: uint_word8)
qed

lemma lower8_0 [simp]: "lower8 c = 0 \<longleftrightarrow> c = 0"
proof -
  have "uint (lower8 c) = 0 \<longleftrightarrow> uint c = 0" using lower8_ascii [of c] by (auto simp: ascii_upper_def)
  then show ?thesis by (simp only: uint_0_iff)
qed

lemma upper8_0 [simp]: "upper8 c = 0 \<longleftrightarrow> c = 0"
proof -
  have "uint (upper8 c) = 0 \<longleftrightarrow> uint c = 0" using upper8_ascii [of c] by (auto simp: ascii_lower_def)
  then show ?thesis by (simp only: uint_0_iff)
qed

lemma lower8_idem [simp]: "lower8 (lower8 c) = lower8 c"
  by (rule word_uint_eqI) (simp add: lower8_ascii ascii_upper_def)

definition printable :: "nat \<Rightarrow> bool" where
  "printable n \<longleftrightarrow> n \<le> 0x10ffff \<and> \<not> (n < 0x20 \<or> 0x7f \<le> n \<and> n < 0xa0) \<and> n \<noteq> 0x2028 \<and> n \<noteq> 0x2029 \<and>
     \<not> (0xd800 \<le> n \<and> n < 0xe000) \<and> \<not> (0xfff9 \<le> n \<and> n \<le> 0xfffb) \<and> \<not> (0xfffe \<le> n mod 0x10000)"

lemma nat_and_7fff: "(n :: nat) AND 0x7fff = n mod 32768"
  using take_bit_eq_mask [of 15 n] by (simp add: take_bit_eq_mod mask_numeral)

lemma nat_and_fffe: "(n :: nat) AND 0xfffe = 2 * (n div 2 mod 32768)"
proof -
  have "n AND 0xfffe = of_bool (odd n \<and> odd (0xfffe :: nat)) + 2 * ((n div 2) AND (0xfffe div 2))"
    by (rule and_rec)
  also have "(0xfffe :: nat) div 2 = 0x7fff" by simp
  also have "(n div 2) AND 0x7fff = n div 2 mod 32768" by (rule nat_and_7fff)
  also have "of_bool (odd n \<and> odd (0xfffe :: nat)) = (0 :: nat)" by simp
  finally show ?thesis by (simp only: add_0)
qed

lemma and_fffe:
  fixes wc :: u32
  shows "wc AND 0xfffe = 0xfffe \<longleftrightarrow> 0xfffe \<le> unat wc mod 0x10000"
proof -
  have 1: "wc AND 0xfffe = 0xfffe \<longleftrightarrow> unat (wc AND 0xfffe) = 0xfffe" by (simp add: word_unat_eq_iff)
  have 2: "unat (wc AND 0xfffe) = 2 * (unat wc div 2 mod 32768)"
    using nat_and_fffe [of "unat wc"] by (simp add: unsigned_and_eq)
  have 3: "unat wc mod 65536 = 2 * (unat wc div 2 mod 32768) + unat wc mod 2"
    using mod_mult2_eq [of "unat wc" 2 32768] by simp
  have "2 * x = 65534 \<longleftrightarrow> 65534 \<le> 2 * x + r" if "x < 32768" "r < 2" for x r :: nat
  proof -
    from that(1) have "x = 32767 \<or> x \<le> 32766" by linarith
    with that(2) show ?thesis by auto
  qed
  from this [of "unat wc div 2 mod 32768" "unat wc mod 2"] show ?thesis
    unfolding 1 2 3 by (simp only: mod_less_divisor zero_less_numeral if_True)
qed

lemma and_7f:
  fixes wc :: u32
  assumes "wc < 0xff"
  shows "unat ((wc + 1) AND 0x7f) = (unat wc + 1) mod 128"
proof -
  from assms have n: "unat (wc + 1) = unat wc + 1" by (simp add: word_less_nat_alt unat_plus_if')
  have "unat ((wc + 1) AND 0x7f) = unat (wc + 1) AND 0x7f" by (simp add: unsigned_and_eq)
  also have "\<dots> = unat (wc + 1) mod 128"
    using take_bit_eq_mask [of 7 "unat (wc + 1)"] by (simp add: take_bit_eq_mod mask_numeral)
  finally show ?thesis by (simp add: n)
qed

lemma wrapped_range:
  fixes wc lo hi :: u32
  assumes "lo \<le> hi"
  shows "wc - lo < hi - lo \<longleftrightarrow> lo \<le> wc \<and> wc < hi"
proof -
  have "unat hi < 2 ^ 32" using uint_lt2p [of hi] nat_less_iff [of "uint hi" "2 ^ 32"] by simp
  with assms show ?thesis by (auto simp: word_less_nat_alt word_le_nat_alt unat_sub_if')
qed

lemma sint_nonneg:
  fixes wc :: u32
  assumes "0 \<le> sint wc"
  shows "sint wc = int (unat wc)"
proof -
  have "sint wc < 2 ^ 31" using sint_lt [of wc] by simp
  then have "uint wc = sint wc" using assms by (simp add: uint_sint take_bit_int_eq_self)
  then show ?thesis by simp
qed

lemma iswprint_nonneg:
  assumes "0 \<le> sint wc"
  shows "iswprint wc \<longleftrightarrow> printable (unat wc)"
proof (cases "wc < 0xff")
  case True
  then have small: "sint wc < 0xff" using sint_nonneg [OF assms] by (simp add: word_less_def)
  from True have n: "unat wc < 255" by (simp add: word_less_nat_alt)
  have "0x21 \<le> (wc + 1) AND 0x7f \<longleftrightarrow> 33 \<le> (unat wc + 1) mod 128"
    using and_7f [OF True] by (simp add: word_le_nat_alt)
  also have "\<dots> \<longleftrightarrow> printable (unat wc)"
  proof (cases "unat wc < 127")
    case False
    then have "(unat wc + 1) mod 128 = unat wc + 1 - 128" using n by (simp add: mod_if)
    with n False show ?thesis by (simp add: printable_def) linarith
  qed (use n in \<open>auto simp: printable_def\<close>)
  finally show ?thesis using small by (simp add: iswprint_def)
next
  case False
  let ?n = "unat wc"
  from False have n: "255 \<le> ?n" by (simp add: word_less_nat_alt)
  from False have big: "\<not> sint wc < 0xff" using sint_nonneg [OF assms] by (simp add: word_less_def)
  have 1: "sint wc < 0x2028 \<longleftrightarrow> ?n < 0x2028"
    using sint_nonneg [OF assms] word_less_def [of wc "0x2028"] by (simp add: word_less_nat_alt)
  have 2: "wc - 0x202a < 0xd800 - 0x202a \<longleftrightarrow> 0x202a \<le> ?n \<and> ?n < 0xd800"
    using wrapped_range [of "0x202a" "0xd800" wc] by (simp add: word_less_nat_alt word_le_nat_alt)
  have 3: "wc - 0xe000 < 0xfff9 - 0xe000 \<longleftrightarrow> 0xe000 \<le> ?n \<and> ?n < 0xfff9"
    using wrapped_range [of "0xe000" "0xfff9" wc] by (simp add: word_less_nat_alt word_le_nat_alt)
  have 4: "0x10ffff - 0xfffc < wc - 0xfffc \<longleftrightarrow> \<not> (0xfffc \<le> ?n \<and> ?n < 0x110000)"
    using wrapped_range [of "0xfffc" "0x110000" wc]
    by (simp add: word_less_nat_alt word_le_nat_alt) linarith
  have "iswprint wc \<longleftrightarrow> ?n < 0x2028 \<or> 0x202a \<le> ?n \<and> ?n < 0xd800 \<or> 0xe000 \<le> ?n \<and> ?n < 0xfff9 \<or>
      0xfffc \<le> ?n \<and> ?n < 0x110000 \<and> \<not> 0xfffe \<le> ?n mod 0x10000"
    using big unfolding iswprint_def 1 2 3 4 and_fffe by auto
  also have "\<dots> \<longleftrightarrow> printable ?n"
  proof (cases "?n < 0x10000")
    case True
    then have "?n mod 0x10000 = ?n" by simp
    with True n show ?thesis unfolding printable_def by (simp only:) arith
  next
    case big: False
    define m where "m = ?n mod 0x10000"
    show ?thesis using big n unfolding printable_def m_def [symmetric] by arith
  qed
  finally show ?thesis .
qed

text \<open>
  C16. \<^verbatim>\<open>iswprint\<close>, written as a chain of range tests with wrap-around subtraction, accepts of the
  non-negative values exactly the code points its comment names: all but the C0 and C1 controls,
  U+2028 and U+2029, the surrogates, U+FFF9 to U+FFFB, the noncharacters ending in FFFE or FFFF
  from there on, and everything above U+10FFFF. \<^verbatim>\<open>wint_t\<close> is signed here, so a negative value
  takes the first branch and is judged by its low seven bits alone; \<^verbatim>\<open>WEOF\<close> is still refused.
\<close>

theorem iswprint_printable:
  "(0 \<le> sint wc \<longrightarrow> (iswprint wc \<longleftrightarrow> printable (unat wc))) \<and>
   (sint wc < 0 \<longrightarrow> (iswprint wc \<longleftrightarrow> 0x21 \<le> (wc + 1) AND 0x7f)) \<and> \<not> iswprint (- 1)"
  using iswprint_nonneg [of wc] by (simp add: iswprint_def)

theorem iswprint_printable_witness:
  "iswprint 0x41 \<and> printable (unat (0x41 :: u32)) \<and> sint (- 64 :: u32) < 0 \<and> iswprint (- 64)"
proof -
  have "sint (0x41 :: u32) = 65" "sint (- 64 :: u32) = - 64" "(- 64 :: u32) + 1 = - 63" by simp_all
  moreover have "0x21 \<le> (- 63 :: u32) AND 0x7f" by code_simp
  ultimately show ?thesis
    using iswprint_printable [of "0x41"] iswprint_printable [of "- 64"] by (simp add: printable_def)
qed

end
