(* ===== verification/Cstring.thy ===== *)
theory Cstring
  imports Ctype
begin

text \<open>
  The string and memory functions of \<^verbatim>\<open>src/libc/ansi/string\<close>, \<^verbatim>\<open>compat/string\<close> and \<^verbatim>\<open>posix/string\<close>.
  A pointer argument is the list of bytes from the pointer to the end of its object, so a
  loop that runs past the object reads \<open>Inl OutOfBounds\<close>; a pointer result is an offset from the
  argument it was made from; a function that writes returns the bytes of its destination.
  Objects given as different arguments do not overlap, except for \<^verbatim>\<open>memmove\<close>, which gets one
  object and two offsets.
\<close>

section \<open>Length and copying\<close>

fun strlen_at :: "u8 list \<Rightarrow> fault + nat" where
  "strlen_at [] = Inl OutOfBounds"
| "strlen_at (c # cs) = (if c = 0 then Inr 0 else rmap Suc (strlen_at cs))"

definition strlen :: "u8 list option \<Rightarrow> fault + nat" where
  "strlen str = (case str of None \<Rightarrow> Inr 0 | Some s \<Rightarrow> strlen_at s)"

text \<open>\<^verbatim>\<open>_str[i] && i < _n\<close> reads the byte before it tests the index.\<close>

fun strnlen_loop :: "u8 list \<Rightarrow> nat \<Rightarrow> nat \<Rightarrow> fault + nat" where
  "strnlen_loop [] i n = Inl OutOfBounds"
| "strnlen_loop (c # cs) i n = (if c \<noteq> 0 \<and> i < n then strnlen_loop cs (Suc i) n else Inr i)"

definition strnlen :: "u8 list \<Rightarrow> nat \<Rightarrow> fault + nat" where
  "strnlen s n =
     (case s of [] \<Rightarrow> Inl OutOfBounds
      | c # cs \<Rightarrow> if c = 0 \<or> n = 0 then Inr 0 else strnlen_loop cs 1 n)"

fun strcpy :: "u8 list \<Rightarrow> u8 list \<Rightarrow> fault + u8 list" where
  "strcpy (d # ds) (c # cs) = (if c = 0 then Inr (0 # ds) else rmap (Cons c) (strcpy ds cs))"
| "strcpy _ _ = Inl OutOfBounds"

text \<open>The loop that looks for the end of the destination, then \<open>f\<close> from there.\<close>

fun at_nul :: "(u8 list \<Rightarrow> fault + u8 list) \<Rightarrow> u8 list \<Rightarrow> fault + u8 list" where
  "at_nul f [] = Inl OutOfBounds"
| "at_nul f (d # ds) = (if d = 0 then f (d # ds) else rmap (Cons d) (at_nul f ds))"

definition strcat :: "u8 list \<Rightarrow> u8 list \<Rightarrow> fault + u8 list" where
  "strcat s app = at_nul (\<lambda>d. strcpy d app) s"

fun put_nul :: "u8 list \<Rightarrow> fault + u8 list" where
  "put_nul [] = Inl OutOfBounds"
| "put_nul (d # ds) = Inr (0 # ds)"

fun strncat_loop :: "u8 list \<Rightarrow> u8 list \<Rightarrow> nat \<Rightarrow> fault + u8 list" where
  "strncat_loop ds cs 0 = put_nul ds"
| "strncat_loop (d # ds) (c # cs) (Suc n) =
     (if c = 0 then Inr (0 # ds) else rmap (Cons c) (strncat_loop ds cs n))"
| "strncat_loop _ _ _ = Inl OutOfBounds"

definition strncat :: "u8 list \<Rightarrow> u8 list \<Rightarrow> nat \<Rightarrow> fault + u8 list" where
  "strncat dst src n = (if n \<noteq> 0 then at_nul (\<lambda>d. strncat_loop d src n) dst else Inr dst)"

fun zero_fill :: "u8 list \<Rightarrow> nat \<Rightarrow> fault + u8 list" where
  "zero_fill ds 0 = Inr ds"
| "zero_fill [] (Suc n) = Inl OutOfBounds"
| "zero_fill (d # ds) (Suc n) = rmap (Cons 0) (zero_fill ds n)"

fun strncpy :: "u8 list \<Rightarrow> u8 list \<Rightarrow> nat \<Rightarrow> fault + u8 list" where
  "strncpy ds cs 0 = Inr ds"
| "strncpy (d # ds) (c # cs) (Suc n) =
     (if c = 0 then rmap (Cons 0) (zero_fill ds n) else rmap (Cons c) (strncpy ds cs n))"
| "strncpy _ _ _ = Inl OutOfBounds"

text \<open>\<^verbatim>\<open>stpcpy\<close> and \<^verbatim>\<open>stpncpy\<close> also return the offset of the end; null pointers give a null result.\<close>

fun stpcpy_loop :: "u8 list \<Rightarrow> u8 list \<Rightarrow> nat \<Rightarrow> fault + nat \<times> u8 list" where
  "stpcpy_loop (d # ds) (c # cs) i =
     (if c = 0 then Inr (i, 0 # ds) else rmap (map_prod id (Cons c)) (stpcpy_loop ds cs (Suc i)))"
| "stpcpy_loop _ _ i = Inl OutOfBounds"

definition stpcpy :: "u8 list option \<Rightarrow> u8 list option \<Rightarrow> fault + (nat \<times> u8 list) option" where
  "stpcpy dest src =
     (case (dest, src) of (Some d, Some s) \<Rightarrow> rmap Some (stpcpy_loop d s 0) | _ \<Rightarrow> Inr None)"

fun stpncpy_loop :: "u8 list \<Rightarrow> u8 list \<Rightarrow> nat \<Rightarrow> nat \<Rightarrow> fault + nat \<times> u8 list" where
  "stpncpy_loop ds cs 0 i = Inr (i, ds)"
| "stpncpy_loop (d # ds) (c # cs) (Suc n) i =
     (if c = 0 then (if Suc n \<le> Suc (length ds) then Inr (i, replicate (Suc n) 0 @ drop n ds) else Inl OutOfBounds)
      else rmap (map_prod id (Cons c)) (stpncpy_loop ds cs n (Suc i)))"
| "stpncpy_loop _ _ _ i = Inl OutOfBounds"

definition stpncpy :: "u8 list option \<Rightarrow> u8 list option \<Rightarrow> nat \<Rightarrow> fault + (nat \<times> u8 list) option" where
  "stpncpy dst src n =
     (case (dst, src) of (Some d, Some s) \<Rightarrow> rmap Some (stpncpy_loop d s n 0) | _ \<Rightarrow> Inr None)"

fun memcpy :: "u8 list \<Rightarrow> u8 list \<Rightarrow> nat \<Rightarrow> fault + u8 list" where
  "memcpy ds cs 0 = Inr ds"
| "memcpy (d # ds) (c # cs) (Suc n) = rmap (Cons c) (memcpy ds cs n)"
| "memcpy _ _ _ = Inl OutOfBounds"

fun memccpy_loop :: "u8 list \<Rightarrow> u8 list \<Rightarrow> u8 \<Rightarrow> nat \<Rightarrow> nat \<Rightarrow> fault + nat option \<times> u8 list" where
  "memccpy_loop tt ff c 0 i = Inr (None, tt)"
| "memccpy_loop (t # tt) (f # ff) c (Suc n) i =
     (if f = c then Inr (Some (Suc i), f # tt)
      else rmap (map_prod id (Cons f)) (memccpy_loop tt ff c n (Suc i)))"
| "memccpy_loop _ _ c _ i = Inl OutOfBounds"

text \<open>\<^verbatim>\<open>c &= 0xff\<close>\<close>

definition memccpy :: "u8 list \<Rightarrow> u8 list \<Rightarrow> u32 \<Rightarrow> nat \<Rightarrow> fault + nat option \<times> u8 list" where
  "memccpy t f c n = memccpy_loop t f (ucast (c AND 0xff)) n 0"

text \<open>\<open>alloc n\<close> is the object \<^verbatim>\<open>malloc(n)\<close> answers, with whatever it contains.\<close>

definition strdup :: "(nat \<Rightarrow> u8 list option) \<Rightarrow> u8 list \<Rightarrow> fault + u8 list option" where
  "strdup alloc s =
     rbind (strlen (Some s)) (\<lambda>n.
       case alloc (n + 1) of None \<Rightarrow> Inr None | Some rv \<Rightarrow> rmap Some (strcpy rv s))"

definition strndup :: "(nat \<Rightarrow> u8 list option) \<Rightarrow> u8 list \<Rightarrow> nat \<Rightarrow> fault + u8 list option" where
  "strndup alloc s n =
     rbind (strlen (Some s)) (\<lambda>len.
       let bytes = (if n < len then n else len) in
       case alloc (bytes + 1) of
         None \<Rightarrow> Inr None
       | Some new_string \<Rightarrow>
           rbind (memcpy new_string s bytes) (\<lambda>m.
             if bytes < length m then Inr (Some (m[bytes := 0])) else Inl OutOfBounds))"

definition strlcpy :: "u8 list \<Rightarrow> u8 list \<Rightarrow> nat \<Rightarrow> fault + nat \<times> u8 list" where
  "strlcpy dst src sz =
     rbind (strlen (Some src)) (\<lambda>srclen.
       if sz = 0 then Inr (srclen, dst)
       else if srclen < sz then rmap (Pair srclen) (strcpy dst src)
       else rbind (memcpy dst src (sz - 1)) (\<lambda>d.
         if sz - 1 < length d then Inr (srclen, d[sz - 1 := 0]) else Inl OutOfBounds))"

text \<open>The loop of \<^verbatim>\<open>strlcat\<close> that looks for the end of \<^verbatim>\<open>dst\<close>, at most \<^verbatim>\<open>size\<close> bytes.\<close>

fun nul_within :: "u8 list \<Rightarrow> nat \<Rightarrow> fault + nat" where
  "nul_within ds 0 = Inr 0"
| "nul_within [] (Suc n) = Inl OutOfBounds"
| "nul_within (d # ds) (Suc n) = (if d = 0 then Inr 0 else rmap Suc (nul_within ds n))"

definition strlcat :: "u8 list \<Rightarrow> u8 list \<Rightarrow> nat \<Rightarrow> fault + nat \<times> u8 list" where
  "strlcat dst src sz =
     rbind (strlen (Some src)) (\<lambda>srclen.
     rbind (nul_within dst sz) (\<lambda>i.
       if i = sz then Inr (sz + srclen, dst)
       else if i + srclen < sz
       then rmap (\<lambda>d. (i + srclen, take i dst @ d)) (strcpy (drop i dst) src)
       else rbind (memcpy (drop i dst) src (sz - i - 1)) (\<lambda>d.
         let d = take i dst @ d in
         if sz - 1 < length d then Inr (i + srclen, d[sz - 1 := 0]) else Inl OutOfBounds)))"

fun strlwr :: "u8 list \<Rightarrow> fault + u8 list" where
  "strlwr [] = Inl OutOfBounds"
| "strlwr (c # cs) = (if c = 0 then Inr (c # cs) else rmap (Cons (lower8 c)) (strlwr cs))"

fun strupr :: "u8 list \<Rightarrow> fault + u8 list" where
  "strupr [] = Inl OutOfBounds"
| "strupr (c # cs) = (if c = 0 then Inr (c # cs) else rmap (Cons (upper8 c)) (strupr cs))"

section \<open>Comparing\<close>

fun memcmp :: "u8 list \<Rightarrow> u8 list \<Rightarrow> nat \<Rightarrow> fault + int" where
  "memcmp _ _ 0 = Inr 0"
| "memcmp (a # as) (b # bs) (Suc n) = (if a \<noteq> b then Inr (uint a - uint b) else memcmp as bs n)"
| "memcmp _ _ _ = Inl OutOfBounds"

fun memicmp :: "u8 list \<Rightarrow> u8 list \<Rightarrow> nat \<Rightarrow> fault + int" where
  "memicmp _ _ 0 = Inr 0"
| "memicmp (a # as) (b # bs) (Suc n) =
     (let c = uint (upper8 a) - uint (upper8 b) in
      if a \<noteq> b \<and> c \<noteq> 0 then Inr c else memicmp as bs n)"
| "memicmp _ _ _ = Inl OutOfBounds"

fun strcmp :: "u8 list \<Rightarrow> u8 list \<Rightarrow> fault + int" where
  "strcmp (a # as) (b # bs) =
     (if a = b then if a = 0 then Inr 0 else strcmp as bs else Inr (uint a - uint b))"
| "strcmp _ _ = Inl OutOfBounds"

fun strncmp :: "u8 list \<Rightarrow> u8 list \<Rightarrow> nat \<Rightarrow> fault + int" where
  "strncmp _ _ 0 = Inr 0"
| "strncmp (a # as) (b # bs) (Suc n) =
     (if a \<noteq> b then Inr (uint a - uint b) else if a = 0 then Inr 0 else strncmp as bs n)"
| "strncmp _ _ _ = Inl OutOfBounds"

fun stricmp :: "u8 list \<Rightarrow> u8 list \<Rightarrow> fault + int" where
  "stricmp (a # as) (b # bs) =
     (if lower8 a = lower8 b then if a = 0 then Inr 0 else stricmp as bs
      else Inr (uint (lower8 a) - uint (lower8 b)))"
| "stricmp _ _ = Inl OutOfBounds"

fun strnicmp :: "u8 list \<Rightarrow> u8 list \<Rightarrow> nat \<Rightarrow> fault + int" where
  "strnicmp _ _ 0 = Inr 0"
| "strnicmp (a # as) (b # bs) (Suc n) =
     (if lower8 a \<noteq> lower8 b then Inr (uint (lower8 a) - uint (lower8 b))
      else if a = 0 then Inr 0 else strnicmp as bs n)"
| "strnicmp _ _ _ = Inl OutOfBounds"

definition strcasecmp :: "u8 list \<Rightarrow> u8 list \<Rightarrow> fault + int" where
  "strcasecmp = stricmp"

definition strncasecmp :: "u8 list \<Rightarrow> u8 list \<Rightarrow> nat \<Rightarrow> fault + int" where
  "strncasecmp = strnicmp"

definition dj_collate_table :: "u8 list" where
  "dj_collate_table =
     [0x00, 0x01, 0x02, 0x03, 0x04, 0x05, 0x06, 0x07, 0x08, 0x09, 0x0a, 0x0b, 0x0c, 0x0d, 0x0e, 0x0f,
      0x10, 0x11, 0x12, 0x13, 0x14, 0x15, 0x16, 0x17, 0x18, 0x19, 0x1a, 0x1b, 0x1c, 0x1d, 0x1e, 0x1f,
      0x20, 0x21, 0x22, 0x23, 0x24, 0x25, 0x26, 0x27, 0x28, 0x29, 0x2a, 0x2b, 0x2c, 0x2d, 0x2e, 0x2f,
      0x30, 0x31, 0x32, 0x33, 0x34, 0x35, 0x36, 0x37, 0x38, 0x39, 0x3a, 0x3b, 0x3c, 0x3d, 0x3e, 0x3f,
      0x40, 0x41, 0x42, 0x43, 0x44, 0x45, 0x46, 0x47, 0x48, 0x49, 0x4a, 0x4b, 0x4c, 0x4d, 0x4e, 0x4f,
      0x50, 0x51, 0x52, 0x53, 0x54, 0x55, 0x56, 0x57, 0x58, 0x59, 0x5a, 0x5b, 0x5c, 0x5d, 0x5e, 0x5f,
      0x60, 0x61, 0x62, 0x63, 0x64, 0x65, 0x66, 0x67, 0x68, 0x69, 0x6a, 0x6b, 0x6c, 0x6d, 0x6e, 0x6f,
      0x70, 0x71, 0x72, 0x73, 0x74, 0x75, 0x76, 0x77, 0x78, 0x79, 0x7a, 0x7b, 0x7c, 0x7d, 0x7e, 0x7f,
      0x80, 0x81, 0x82, 0x83, 0x84, 0x85, 0x86, 0x87, 0x88, 0x89, 0x8a, 0x8b, 0x8c, 0x8d, 0x8e, 0x8f,
      0x90, 0x91, 0x92, 0x93, 0x94, 0x95, 0x96, 0x97, 0x98, 0x99, 0x9a, 0x9b, 0x9c, 0x9d, 0x9e, 0x9f,
      0xa0, 0xa1, 0xa2, 0xa3, 0xa4, 0xa5, 0xa6, 0xa7, 0xa8, 0xa9, 0xaa, 0xab, 0xac, 0xad, 0xae, 0xaf,
      0xb0, 0xb1, 0xb2, 0xb3, 0xb4, 0xb5, 0xb6, 0xb7, 0xb8, 0xb9, 0xba, 0xbb, 0xbc, 0xbd, 0xbe, 0xbf,
      0xc0, 0xc1, 0xc2, 0xc3, 0xc4, 0xc5, 0xc6, 0xc7, 0xc8, 0xc9, 0xca, 0xcb, 0xcc, 0xcd, 0xce, 0xcf,
      0xd0, 0xd1, 0xd2, 0xd3, 0xd4, 0xd5, 0xd6, 0xd7, 0xd8, 0xd9, 0xda, 0xdb, 0xdc, 0xdd, 0xde, 0xdf,
      0xe0, 0xe1, 0xe2, 0xe3, 0xe4, 0xe5, 0xe6, 0xe7, 0xe8, 0xe9, 0xea, 0xeb, 0xec, 0xed, 0xee, 0xef,
      0xf0, 0xf1, 0xf2, 0xf3, 0xf4, 0xf5, 0xf6, 0xf7, 0xf8, 0xf9, 0xfa, 0xfb, 0xfc, 0xfd, 0xfe, 0xff]"

definition coll :: "u8 \<Rightarrow> u8" where
  "coll c = dj_collate_table ! unat c"

fun strcoll :: "u8 list \<Rightarrow> u8 list \<Rightarrow> fault + int" where
  "strcoll (a # as) (b # bs) =
     (if coll a = coll b then if a = 0 then Inr 0 else strcoll as bs
      else Inr (uint (coll a) - uint (coll b)))"
| "strcoll _ _ = Inl OutOfBounds"

fun strxfrm_loop :: "u8 list \<Rightarrow> u8 list \<Rightarrow> nat \<Rightarrow> fault + nat \<times> u8 list" where
  "strxfrm_loop ds [] n = Inl OutOfBounds"
| "strxfrm_loop ds (c # cs) n =
     (if c = 0 then rmap (Pair 0) (put_nul ds)
      else if n = 1 then rbind (strlen_at cs) (\<lambda>k. rmap (Pair (Suc k)) (put_nul ds))
      else case ds of
             [] \<Rightarrow> Inl OutOfBounds
           | d # ds \<Rightarrow> rmap (map_prod Suc (Cons c)) (strxfrm_loop ds cs (n - 1)))"

definition strxfrm :: "u8 list \<Rightarrow> u8 list \<Rightarrow> nat \<Rightarrow> fault + nat \<times> u8 list" where
  "strxfrm dst src n = (if n \<noteq> 0 then strxfrm_loop dst src n else Inr (0, dst))"

section \<open>Searching\<close>

fun memchr_loop :: "u8 list \<Rightarrow> u8 \<Rightarrow> nat \<Rightarrow> nat \<Rightarrow> fault + nat option" where
  "memchr_loop _ c 0 i = Inr None"
| "memchr_loop [] c (Suc n) i = Inl OutOfBounds"
| "memchr_loop (x # xs) c (Suc n) i = (if x = c then Inr (Some i) else memchr_loop xs c n (Suc i))"

definition memchr :: "u8 list \<Rightarrow> u8 \<Rightarrow> nat \<Rightarrow> fault + nat option" where
  "memchr s c n = memchr_loop s c n 0"

fun strchr_loop :: "u8 list \<Rightarrow> u8 \<Rightarrow> nat \<Rightarrow> fault + nat option" where
  "strchr_loop [] c i = Inl OutOfBounds"
| "strchr_loop (x # xs) c i =
     (if x \<noteq> 0 then if x = c then Inr (Some i) else strchr_loop xs c (Suc i)
      else Inr (if c = 0 then Some i else None))"

definition strchr :: "u8 list \<Rightarrow> u8 \<Rightarrow> fault + nat option" where
  "strchr s c = strchr_loop s c 0"

fun strrchr_loop :: "u8 list \<Rightarrow> u8 \<Rightarrow> nat \<Rightarrow> nat option \<Rightarrow> fault + nat option" where
  "strrchr_loop [] c i sp = Inl OutOfBounds"
| "strrchr_loop (x # xs) c i sp =
     (if x \<noteq> 0 then strrchr_loop xs c (Suc i) (if x = c then Some i else sp)
      else Inr (if c = 0 then Some i else sp))"

definition strrchr :: "u8 list \<Rightarrow> u8 \<Rightarrow> fault + nat option" where
  "strrchr s c = strrchr_loop s c 0 None"

text \<open>The inner loops of the span functions: without and with the terminator.\<close>

fun in_span :: "u8 list \<Rightarrow> u8 \<Rightarrow> fault + bool" where
  "in_span [] c = Inl OutOfBounds"
| "in_span (sc # sp) c = (if sc = 0 then Inr False else if sc = c then Inr True else in_span sp c)"

fun in_span0 :: "u8 list \<Rightarrow> u8 \<Rightarrow> fault + bool" where
  "in_span0 [] c = Inl OutOfBounds"
| "in_span0 (sc # sp) c = (if sc = c then Inr True else if sc = 0 then Inr False else in_span0 sp c)"

fun strspn :: "u8 list \<Rightarrow> u8 list \<Rightarrow> fault + nat" where
  "strspn [] s2 = Inl OutOfBounds"
| "strspn (c # cs) s2 = rbind (in_span s2 c) (\<lambda>m. if m then rmap Suc (strspn cs s2) else Inr 0)"

fun strcspn :: "u8 list \<Rightarrow> u8 list \<Rightarrow> fault + nat" where
  "strcspn [] s2 = Inl OutOfBounds"
| "strcspn (c # cs) s2 = rbind (in_span0 s2 c) (\<lambda>m. if m then Inr 0 else rmap Suc (strcspn cs s2))"

fun strpbrk_loop :: "u8 list \<Rightarrow> u8 list \<Rightarrow> nat \<Rightarrow> fault + nat option" where
  "strpbrk_loop [] s2 i = Inl OutOfBounds"
| "strpbrk_loop (c # cs) s2 i =
     (if c = 0 then Inr None
      else rbind (in_span s2 c) (\<lambda>m. if m then Inr (Some i) else strpbrk_loop cs s2 (Suc i)))"

definition strpbrk :: "u8 list \<Rightarrow> u8 list \<Rightarrow> fault + nat option" where
  "strpbrk s1 s2 = strpbrk_loop s1 s2 0"

fun strstr_loop :: "u8 list \<Rightarrow> u8 \<Rightarrow> u8 list \<Rightarrow> nat \<Rightarrow> nat \<Rightarrow> fault + nat option" where
  "strstr_loop [] c needle len i = Inl OutOfBounds"
| "strstr_loop (sc # s) c needle len i =
     (if sc = 0 then Inr None
      else if sc \<noteq> c then strstr_loop s c needle len (Suc i)
      else rbind (strncmp s needle len) (\<lambda>r. if r \<noteq> 0 then strstr_loop s c needle len (Suc i) else Inr (Some i)))"

definition strstr :: "u8 list \<Rightarrow> u8 list \<Rightarrow> fault + nat option" where
  "strstr s needle =
     (case needle of
        [] \<Rightarrow> Inl OutOfBounds
      | c # needle \<Rightarrow> if c \<noteq> 0 then rbind (strlen (Some needle)) (\<lambda>len. strstr_loop s c needle len 0) else Inr (Some 0))"

text \<open>\<open>n\<close> candidates are left, the first at offset \<open>i\<close>.\<close>

fun memmem_loop :: "u8 list \<Rightarrow> u8 list \<Rightarrow> nat \<Rightarrow> nat \<Rightarrow> nat \<Rightarrow> fault + nat option" where
  "memmem_loop cur cs s_len 0 i = Inr None"
| "memmem_loop cur cs s_len (Suc n) i =
     (if cur = [] \<or> cs = [] then Inl OutOfBounds
      else if hd cur = hd cs
      then rbind (memcmp cur cs s_len) (\<lambda>r. if r = 0 then Inr (Some i) else memmem_loop (tl cur) cs s_len n (Suc i))
      else memmem_loop (tl cur) cs s_len n (Suc i))"

definition memmem :: "u8 list \<Rightarrow> nat \<Rightarrow> u8 list \<Rightarrow> nat \<Rightarrow> fault + nat option" where
  "memmem l l_len s s_len =
     (if l_len = 0 \<or> s_len = 0 then Inr None
      else if l_len < s_len then Inr None
      else if s_len = 1 then (if s = [] then Inl OutOfBounds else memchr l (hd s) l_len)
      else memmem_loop l s s_len (l_len - s_len + 1) 0)"

section \<open>Tokens\<close>

text \<open>
  \<^verbatim>\<open>strtok_r\<close> works on the object \<open>b\<close> with pointers as offsets into it: skip the delimiters,
  then find the end of the token. The loops run over the bytes from the pointer on.
\<close>

fun skip_delim :: "u8 list \<Rightarrow> u8 list \<Rightarrow> nat \<Rightarrow> fault + nat \<times> u8" where
  "skip_delim delim [] i = Inl OutOfBounds"
| "skip_delim delim (c # cs) i =
     rbind (in_span delim c) (\<lambda>m. if m then skip_delim delim cs (Suc i) else Inr (i, c))"

fun find_delim :: "u8 list \<Rightarrow> u8 list \<Rightarrow> nat \<Rightarrow> fault + nat \<times> u8" where
  "find_delim delim [] i = Inl OutOfBounds"
| "find_delim delim (c # cs) i =
     rbind (in_span0 delim c) (\<lambda>m. if m then Inr (i, c) else find_delim delim cs (Suc i))"

text \<open>The result, the object and \<^verbatim>\<open>*last\<close> afterwards.\<close>

definition strtok_r :: "nat option \<Rightarrow> u8 list \<Rightarrow> nat option \<Rightarrow> u8 list
    \<Rightarrow> fault + nat option \<times> u8 list \<times> nat option" where
  "strtok_r s delim lastp b =
     (case (case s of None \<Rightarrow> lastp | Some p \<Rightarrow> Some p) of
        None \<Rightarrow> Inr (None, b, None)
      | Some p \<Rightarrow>
          rbind (skip_delim delim (drop p b) p) (\<lambda>(tok, c).
            if c = 0 then Inr (None, b, None)
            else rbind (find_delim delim (drop (Suc tok) b) (Suc tok)) (\<lambda>(e, c).
              if c = 0 then Inr (Some tok, b, None)
              else Inr (Some tok, b[e := 0], Some (Suc e)))))"

text \<open>\<^verbatim>\<open>strtok\<close> is the same with \<^verbatim>\<open>last\<close> in a static variable.\<close>

definition strtok :: "nat option \<Rightarrow> u8 list \<Rightarrow> nat option \<Rightarrow> u8 list
    \<Rightarrow> fault + nat option \<times> u8 list \<times> nat option" where
  "strtok s delim static_last b = strtok_r s delim static_last b"

definition strsep :: "nat option \<Rightarrow> u8 list \<Rightarrow> u8 list \<Rightarrow> fault + nat option \<times> u8 list \<times> nat option" where
  "strsep stringp delim b =
     (case stringp of
        None \<Rightarrow> Inr (None, b, None)
      | Some tok \<Rightarrow>
          rbind (find_delim delim (drop tok b) tok) (\<lambda>(e, c).
            if c = 0 then Inr (Some tok, b, None) else Inr (Some tok, b[e := 0], Some (Suc e))))"

section \<open>Filling and moving\<close>

definition put_byte :: "nat \<Rightarrow> u8 \<Rightarrow> u8 list \<Rightarrow> fault + u8 list" where
  "put_byte i c b = (if i < length b then Inr (b[i := c]) else Inl OutOfBounds)"

fun put_bytes :: "nat list \<Rightarrow> u8 \<Rightarrow> u8 list \<Rightarrow> fault + u8 list" where
  "put_bytes [] c b = Inr b"
| "put_bytes (i # is) c b = rbind (put_byte i c b) (put_bytes is c)"

text \<open>
  \<^verbatim>\<open>memset\<close>: the head and tail first, then the aligned middle; \<open>a\<close> is the address of the
  destination.
\<close>

definition memset :: "u64 \<Rightarrow> u8 list \<Rightarrow> u8 \<Rightarrow> nat \<Rightarrow> fault + u8 list" where
  "memset a b c n =
     (if n = 0 then Inr b
      else rbind (put_bytes [0, n - 1] c b) (\<lambda>b.
        if n \<le> 2 then Inr b
        else rbind (put_bytes [1, 2, n - 2, n - 3] c b) (\<lambda>b.
          if n \<le> 6 then Inr b
          else rbind (put_bytes [3, n - 4] c b) (\<lambda>b.
            if n \<le> 8 then Inr b
            else let k = unat ((- a) AND 3); m = (n - k) div 4 * 4
                 in put_bytes [k..<k + m] c b))))"

text \<open>One byte, or one aligned 8-byte word, of \<^verbatim>\<open>memmove\<close> within the object \<open>b\<close>.\<close>

definition move_block :: "nat \<Rightarrow> nat \<Rightarrow> nat \<Rightarrow> u8 list \<Rightarrow> fault + u8 list" where
  "move_block w d s b =
     (if d + w \<le> length b \<and> s + w \<le> length b
      then Inr (take d b @ take w (drop s b) @ drop (d + w) b) else Inl OutOfBounds)"

fun move_up :: "nat \<Rightarrow> nat \<Rightarrow> nat \<Rightarrow> nat \<Rightarrow> u8 list \<Rightarrow> fault + u8 list" where
  "move_up w d s 0 b = Inr b"
| "move_up w d s (Suc k) b = rbind (move_block w d s b) (move_up w (d + w) (s + w) k)"

fun move_down :: "nat \<Rightarrow> nat \<Rightarrow> nat \<Rightarrow> nat \<Rightarrow> u8 list \<Rightarrow> fault + u8 list" where
  "move_down w d s 0 b = Inr b"
| "move_down w d s (Suc k) b = rbind (move_block w (d + k * w) (s + k * w) b) (move_down w d s k)"

text \<open>
  The alignment loops: \<open>None\<close> when the function returned from inside the loop, otherwise what
  is left. \<open>a\<close> is the address of the object.
\<close>

fun align_up :: "nat \<Rightarrow> nat \<Rightarrow> nat \<Rightarrow> nat \<Rightarrow> u8 list \<Rightarrow> fault + u8 list \<times> (nat \<times> nat \<times> nat) option" where
  "align_up a d s 0 b = Inr (b, if (a + d) mod 8 \<noteq> 0 then None else Some (d, s, 0))"
| "align_up a d s (Suc n) b =
     (if (a + d) mod 8 \<noteq> 0
      then rbind (move_block 1 d s b) (align_up a (Suc d) (Suc s) n)
      else Inr (b, Some (d, s, Suc n)))"

fun align_down :: "nat \<Rightarrow> nat \<Rightarrow> nat \<Rightarrow> nat \<Rightarrow> u8 list \<Rightarrow> fault + u8 list \<times> nat option" where
  "align_down a d s 0 b = Inr (b, if (a + d) mod 8 \<noteq> 0 then None else Some 0)"
| "align_down a d s (Suc n) b =
     (if (a + d + Suc n) mod 8 \<noteq> 0
      then rbind (move_block 1 (d + n) (s + n) b) (align_down a d s n)
      else Inr (b, Some (Suc n)))"

definition memmove :: "nat \<Rightarrow> nat \<Rightarrow> nat \<Rightarrow> nat \<Rightarrow> u8 list \<Rightarrow> fault + u8 list" where
  "memmove a d s n b =
     (if d = s then Inr b
      else if s + n \<le> d \<or> d + n \<le> s then move_up 1 d s n b
      else if d < s
      then if (a + s) mod 8 = (a + d) mod 8
           then rbind (align_up a d s n b) (\<lambda>(b, rest).
             case rest of
               None \<Rightarrow> Inr b
             | Some (d, s, n) \<Rightarrow>
                 rbind (move_up 8 d s (n div 8) b) (\<lambda>b.
                   move_up 1 (d + n div 8 * 8) (s + n div 8 * 8) (n mod 8) b))
           else move_up 1 d s n b
      else if (a + s) mod 8 = (a + d) mod 8
           then rbind (align_down a d s n b) (\<lambda>(b, rest).
             case rest of
               None \<Rightarrow> Inr b
             | Some n \<Rightarrow>
                 rbind (move_down 8 (d + n mod 8) (s + n mod 8) (n div 8) b) (\<lambda>b.
                   move_down 1 d s (n mod 8) b))
           else move_down 1 d s n b)"

end
