(* ===== verification/Cstring_Props.thy ===== *)
theory Cstring_Props
  imports Cstring "HOL-Library.Sublist"
begin

text \<open>
  Correctness of the string functions of \<^verbatim>\<open>libc\<close>: a C string is read as the bytes before its
  first zero, copying and bounded copying are described on every branch, comparison is the
  lexicographic order, \<^verbatim>\<open>strstr\<close> finds the first occurrence, \<^verbatim>\<open>memmove\<close> and \<^verbatim>\<open>memset\<close> do what the
  one-line reference definitions do, and \<^verbatim>\<open>strtok\<close> yields the tokens of the string.
\<close>

section \<open>Strings as lists\<close>

definition cstr :: "u8 list \<Rightarrow> u8 list" where
  "cstr b = takeWhile (\<lambda>c. c \<noteq> 0) b"

definition is_cstr :: "u8 list \<Rightarrow> bool" where
  "is_cstr b \<longleftrightarrow> 0 \<in> set b"

lemma cstr_simps [simp]:
  "cstr [] = []" "cstr (c # cs) = (if c = 0 then [] else c # cstr cs)"
  by (simp_all add: cstr_def)

lemma is_cstr_simps [simp]: "\<not> is_cstr []" "is_cstr (c # cs) \<longleftrightarrow> c = 0 \<or> is_cstr cs"
  by (auto simp: is_cstr_def)

lemma cstr_length: "length (cstr b) \<le> length b" "is_cstr b \<Longrightarrow> length (cstr b) < length b"
  by (induction b) auto

lemma cstr_nonzero: "0 \<notin> set (cstr b)"
  by (induction b) auto

lemma cstr_split: "is_cstr b \<Longrightarrow> b = cstr b @ 0 # drop (Suc (length (cstr b))) b"
  by (induction b) auto

lemma cstr_append [simp]: "0 \<notin> set s \<Longrightarrow> cstr (s @ 0 # r) = s" "is_cstr (s @ 0 # r)"
  by (induction s) (auto simp: is_cstr_def)

section \<open>Length and copying\<close>

lemma strlen_at_spec: "strlen_at b = (if is_cstr b then Inr (length (cstr b)) else Inl OutOfBounds)"
  by (induction b) auto

lemma strcpy_spec:
  "strcpy ds cs = (if is_cstr cs \<and> length (cstr cs) < length ds
     then Inr (cstr cs @ 0 # drop (Suc (length (cstr cs))) ds) else Inl OutOfBounds)"
  by (induction ds cs rule: strcpy.induct) auto

lemma strcat_spec:
  assumes "is_cstr s" and "is_cstr a" and "length (cstr s) + length (cstr a) < length s"
  shows "strcat s a = Inr (cstr s @ cstr a @ 0 # drop (Suc (length (cstr s) + length (cstr a))) s)"
proof -
  have "at_nul f s = rmap (append (cstr s)) (f (drop (length (cstr s)) s))" if "is_cstr s" for f s
    using that
  proof (induction s)
    case (Cons c s)
    then show ?case by (cases "f (drop (length (cstr s)) s)") (auto simp: rmap_def rbind_def split: sum.splits)
  qed simp
  from this [OF assms(1)] assms show ?thesis
    by (simp add: strcat_def strcpy_spec less_diff_conv add.commute)
qed

lemma memcpy_spec:
  "memcpy ds cs n = (if n \<le> length ds \<and> n \<le> length cs then Inr (take n cs @ drop n ds) else Inl OutOfBounds)"
  by (induction ds cs n rule: memcpy.induct) auto

lemma zero_fill_spec: "zero_fill ds n = (if n \<le> length ds then Inr (replicate n 0 @ drop n ds) else Inl OutOfBounds)"
  by (induction ds n rule: zero_fill.induct) auto

text \<open>\<^verbatim>\<open>strncpy\<close> pads with zeros and leaves the result unterminated when it is cut.\<close>

lemma strncpy_spec:
  assumes "n \<le> length ds" and "is_cstr cs \<or> n \<le> length cs"
  shows "strncpy ds cs n =
    Inr (take n (cstr cs) @ replicate (n - length (cstr cs)) 0 @ drop n ds)"
  using assms
proof (induction ds cs n rule: strncpy.induct)
  case (2 d ds c cs n)
  then show ?case by (auto simp: zero_fill_spec)
qed auto

lemma stpcpy_spec:
  "stpcpy_loop ds cs i = rmap (Pair (i + length (cstr cs))) (strcpy ds cs)"
  by (induction ds cs i rule: stpcpy_loop.induct) (auto simp: strcpy_spec)

lemma nul_within_spec:
  "nul_within ds n = (if is_cstr ds \<or> n \<le> length ds then Inr (min n (length (cstr ds))) else Inl OutOfBounds)"
proof (induction ds n rule: nul_within.induct)
  case (3 d ds n)
  then show ?case by auto
qed auto

lemma strdup_spec:
  assumes "is_cstr s" and "\<And>n m. alloc n = Some m \<Longrightarrow> n \<le> length m"
  shows "(case alloc (Suc (length (cstr s))) of None \<Rightarrow> strdup alloc s = Inr None
    | Some m \<Rightarrow> \<exists>r. strdup alloc s = Inr (Some r) \<and> is_cstr r \<and> cstr r = cstr s)"
  using assms(1) assms(2) [of "Suc (length (cstr s))"] cstr_nonzero [of s]
  by (auto simp: strdup_def strlen_def strlen_at_spec strcpy_spec Suc_le_eq split: option.splits)

lemma strlwr_spec: "is_cstr s \<Longrightarrow> strlwr s = Inr (map lower8 (cstr s) @ drop (length (cstr s)) s)"
  by (induction s) auto

lemma cstr_take: "is_cstr (take n b) \<Longrightarrow> is_cstr b \<and> length (cstr b) < n"
proof (induction b arbitrary: n)
  case (Cons c b)
  then show ?case by (cases n) (auto simp: is_cstr_def)
qed simp

lemma take_cstr: "k \<le> length (cstr b) \<Longrightarrow> take k b = take k (cstr b)"
proof (induction b arbitrary: k)
  case (Cons c b)
  then show ?case by (cases k) (auto split: if_splits)
qed simp

lemma cut_nul:
  "k < length d \<Longrightarrow> k \<le> length x \<Longrightarrow> (take k x @ drop k d)[k := 0] = take k x @ 0 # drop (Suc k) d"
  by (simp add: list_update_append Cons_nth_drop_Suc [symmetric])

lemma strlcpy_spec:
  assumes src: "is_cstr src" and size: "0 < sz" "sz \<le> length dst"
  shows "strlcpy dst src sz = (let n = min (sz - 1) (length (cstr src)) in
      Inr (length (cstr src), take n (cstr src) @ 0 # drop (Suc n) dst))"
proof (cases "length (cstr src) < sz")
  case True
  with assms show ?thesis by (simp add: strlcpy_def strlen_def strlen_at_spec strcpy_spec min_absorb2 Let_def)
next
  case False
  then have k: "sz - 1 \<le> length (cstr src)" "sz - 1 < length src"
    using cstr_length(2) [OF src] by auto
  have "take (sz - 1) src = take (sz - 1) (cstr src)" by (rule take_cstr [OF k(1)])
  with False k assms cut_nul [of "sz - 1" dst "cstr src"] show ?thesis
    by (simp add: strlcpy_def strlen_def strlen_at_spec memcpy_spec Let_def min_absorb1)
qed

lemma strlcat_spec:
  assumes src: "is_cstr src" and size: "sz \<le> length dst" and dst: "is_cstr (take sz dst)"
  shows "strlcat dst src sz = (let i = length (cstr dst); n = min (sz - 1 - i) (length (cstr src)) in
      Inr (i + length (cstr src), cstr dst @ take n (cstr src) @ 0 # drop (Suc (i + n)) dst))"
proof -
  let ?i = "length (cstr dst)" and ?n = "length (cstr src)"
  from cstr_take [OF dst] have d: "is_cstr dst" "?i < sz" by auto
  have tk: "take ?i dst = cstr dst" using take_cstr [of ?i dst] by simp
  have nul: "nul_within dst sz = Inr ?i" using d by (simp add: nul_within_spec)
  show ?thesis
  proof (cases "?i + ?n < sz")
    case True
    with nul d src size tk show ?thesis
      by (simp add: strlcat_def strlen_def strlen_at_spec strcpy_spec Let_def min_absorb2 add.commute)
  next
    case False
    let ?k = "sz - ?i - 1"
    have k: "?k \<le> ?n" "?k < length src" using False d cstr_length(2) [OF src] by auto
    have "take ?k src = take ?k (cstr src)" by (rule take_cstr [OF k(1)])
    moreover have "(cstr dst @ take ?k (cstr src) @ drop (?k + ?i) dst)[sz - 1 := 0] =
        cstr dst @ take ?k (cstr src) @ 0 # drop sz dst"
    proof -
      have "sz - 1 = ?i + ?k" and "?k + ?i < length dst" using d size by auto
      moreover have "drop (?k + ?i) dst = dst ! (?k + ?i) # drop sz dst"
        using \<open>?k + ?i < length dst\<close> d by (simp add: Cons_nth_drop_Suc [symmetric])
      ultimately show ?thesis using k(1) by (simp add: list_update_append)
    qed
    moreover have "sz - 1 < length dst" "?k \<le> length dst - ?i" using d size by simp_all
    ultimately show ?thesis
      using False nul d k src size tk
      by (simp add: strlcat_def strlen_def strlen_at_spec memcpy_spec Let_def min_absorb1)
  qed
qed



lemma strnlen_loop_spec:
  "i \<le> n \<Longrightarrow> strnlen_loop s i n = (if is_cstr s \<or> n < i + length s then Inr (min n (i + length (cstr s)))
     else Inl OutOfBounds)"
proof (induction s arbitrary: i)
  case (Cons c s)
  show ?case
  proof (cases "c \<noteq> 0 \<and> i < n")
    case True
    with Cons.IH [of "Suc i"] show ?thesis by auto
  next
    case False
    with Cons.prems show ?thesis by auto
  qed
qed auto

text \<open>
  C18. \<^verbatim>\<open>strnlen\<close> looks one byte too far: on an object of exactly \<^verbatim>\<open>n\<close> bytes without a terminator,
  which is the case the function exists for, it reads the byte after the object. With a byte to
  spare it returns the smaller of \<^verbatim>\<open>n\<close> and the string's length.
\<close>

theorem strnlen_overread:
  "(0 \<notin> set s \<and> length s = n \<and> 0 < n \<longrightarrow> strnlen s n = Inl OutOfBounds) \<and>
   (is_cstr s \<or> n < length s \<longrightarrow> strnlen s n = Inr (min n (length (cstr s))))"
proof (cases s)
  case Nil
  then show ?thesis by auto
next
  case (Cons c cs)
  then show ?thesis
    using strnlen_loop_spec [of 1 n cs]
    by (auto simp: strnlen_def is_cstr_def min_def)
qed

theorem strnlen_overread_witness:
  "strnlen [97, 98] 2 = Inl OutOfBounds \<and> strnlen [97, 98, 99] 2 = Inr 2"
  using strnlen_overread [of "[97, 98]" 2] strnlen_overread [of "[97, 98, 99]" 2] by (simp add: is_cstr_def min_def)

section \<open>Comparing\<close>

definition byte_less :: "u8 list \<Rightarrow> u8 list \<Rightarrow> bool" where
  "byte_less x y \<longleftrightarrow> (x, y) \<in> lexord {(a, b). a < b}"

lemma byte_less_simps [simp]:
  "\<not> byte_less x []" "byte_less [] (b # y)"
  "byte_less (a # x) (b # y) \<longleftrightarrow> a < b \<or> a = b \<and> byte_less x y"
  by (auto simp: byte_less_def)

lemma uint_diff_sign:
  fixes a b :: u8
  shows "uint a - uint b < 0 \<longleftrightarrow> a < b" "uint a - uint b = 0 \<longleftrightarrow> a = b"
  by (simp_all add: word_less_def word_uint_eq_iff)

lemma u8_pos: "(c :: u8) \<noteq> 0 \<longleftrightarrow> 0 < c"
  by (simp add: word_neq_0_conv)

lemma strcmp_spec:
  assumes "is_cstr a" and "is_cstr b"
  shows "\<exists>r. strcmp a b = Inr r \<and> strcmp b a = Inr (- r) \<and> (r = 0 \<longleftrightarrow> cstr a = cstr b) \<and> (r < 0 \<longleftrightarrow> byte_less (cstr a) (cstr b))"
  using assms
proof (induction a b rule: strcmp.induct)
  case (1 a as b bs)
  show ?case
  proof (cases "a = b \<and> a \<noteq> 0")
    case True
    with 1 show ?thesis by auto
  next
    case False
    then show ?thesis using uint_diff_sign [of a b] u8_pos [of b] u8_pos [of a] by auto
  qed
qed auto

lemma dj_collate_identity: "dj_collate_table = map of_nat [0..<256]"
  by code_simp

lemma coll_id [simp]: "coll c = c"
proof -
  have "unat c < 256" using uint_u8(2) [of c] nat_less_iff [of "uint c" 256] uint_u8(1) [of c] by simp
  then show ?thesis by (simp add: coll_def dj_collate_identity)
qed

lemma strcoll_strcmp: "strcoll a b = strcmp a b"
  by (induction a b rule: strcmp.induct) auto

text \<open>
  C19. \<^verbatim>\<open>strcmp\<close> orders strings as the standard asks: it returns 0 for equal strings, a negative
  number exactly when the first is before the second in the lexicographic order of unsigned
  bytes, and swapping the arguments negates the result. \<^verbatim>\<open>strcoll\<close>, through its collation table,
  gives the same result.
\<close>

theorem strcmp_order:
  assumes "is_cstr a" and "is_cstr b"
  shows "\<exists>r. strcmp a b = Inr r \<and> strcmp b a = Inr (- r) \<and> strcoll a b = Inr r \<and>
    (r = 0 \<longleftrightarrow> cstr a = cstr b) \<and> (r < 0 \<longleftrightarrow> byte_less (cstr a) (cstr b))"
  using strcmp_spec [OF assms] by (auto simp: strcoll_strcmp)

theorem strcmp_order_witness:
  "\<exists>r. strcmp [97, 0] [97, 200, 0] = Inr r \<and> strcoll [97, 0] [97, 200, 0] = Inr r \<and> r < 0"
  using strcmp_order [of "[97, 0]" "[97, 200, 0]"] by auto

section \<open>Searching\<close>

lemma strncmp_prefix:
  assumes "is_cstr s" and "is_cstr f"
  shows "\<exists>r. strncmp s f (length (cstr f)) = Inr r \<and> (r = 0 \<longleftrightarrow> prefix (cstr f) (cstr s))"
  using assms
proof (induction f arbitrary: s)
  case (Cons c f)
  show ?case
  proof (cases "c = 0")
    case False
    obtain x xs where s: "s = x # xs" using Cons.prems by (cases s) auto
    show ?thesis
    proof (cases "x = c")
      case True
      with False s Cons show ?thesis by auto
    next
      case ne: False
      with False s uint_diff_sign(2) [of x c] show ?thesis by auto
    qed
  qed simp
qed simp

lemma strstr_loop_spec:
  assumes "is_cstr s" and "is_cstr f" and "c \<noteq> 0"
  shows "case strstr_loop s c f (length (cstr f)) i of
      Inl _ \<Rightarrow> False
    | Inr None \<Rightarrow> (\<forall>j. \<not> prefix (c # cstr f) (drop j (cstr s)))
    | Inr (Some k) \<Rightarrow> i \<le> k \<and> prefix (c # cstr f) (drop (k - i) (cstr s)) \<and>
        (\<forall>j < k - i. \<not> prefix (c # cstr f) (drop j (cstr s)))"
  using assms(1)
proof (induction s arbitrary: i)
  case (Cons x s)
  let ?w = "c # cstr f"
  show ?case
  proof (cases "x = 0")
    case True
    then show ?thesis by simp
  next
    case False
    with Cons.prems have s: "is_cstr s" by simp
    obtain r where r: "strncmp s f (length (cstr f)) = Inr r" "r = 0 \<longleftrightarrow> prefix (cstr f) (cstr s)"
      using strncmp_prefix [OF s assms(2)] by blast
    have here: "prefix ?w (cstr (x # s)) \<longleftrightarrow> x = c \<and> r = 0" using False r(2) by auto
    show ?thesis
    proof (cases "x = c \<and> r = 0")
      case True
      with False r here show ?thesis by simp
    next
      case no: False
      have step: "strstr_loop (x # s) c f (length (cstr f)) i = strstr_loop s c f (length (cstr f)) (Suc i)"
        using False no r(1) by auto
      have dr: "(\<forall>j < n. \<not> prefix ?w (drop j (cstr (x # s)))) \<longleftrightarrow> (\<forall>j < n - 1. \<not> prefix ?w (drop j (cstr s)))" for n
      proof -
        have "(\<forall>j < n. \<not> prefix ?w (drop j (cstr (x # s)))) \<longleftrightarrow> (\<forall>j. Suc j < n \<longrightarrow> \<not> prefix ?w (drop j (cstr s)))"
          using here no False by (metis (no_types, lifting) cstr_simps(2) drop0 drop_Suc_Cons not0_implies_Suc)
        then show ?thesis by (simp add: less_diff_conv)
      qed
      have drall: "(\<forall>j. \<not> prefix ?w (drop j (cstr (x # s)))) \<longleftrightarrow> (\<forall>j. \<not> prefix ?w (drop j (cstr s)))"
        using here no False by (metis cstr_simps(2) drop0 drop_Suc_Cons not0_implies_Suc)
      from Cons.IH [OF s, of "Suc i"] show ?thesis
        unfolding step
      proof (cases "strstr_loop s c f (length (cstr f)) (Suc i)")
        case (Inr o')
        with Cons.IH [OF s, of "Suc i"] dr drall False show "case strstr_loop s c f (length (cstr f)) (Suc i) of
          Inl _ \<Rightarrow> False | Inr None \<Rightarrow> (\<forall>j. \<not> prefix ?w (drop j (cstr (x # s))))
          | Inr (Some k) \<Rightarrow> i \<le> k \<and> prefix ?w (drop (k - i) (cstr (x # s))) \<and> (\<forall>j < k - i. \<not> prefix ?w (drop j (cstr (x # s))))"
        proof (cases o')
          case (Some k)
          with Inr Cons.IH [OF s, of "Suc i"] have k: "Suc i \<le> k" "prefix ?w (drop (k - Suc i) (cstr s))"
            "\<forall>j < k - Suc i. \<not> prefix ?w (drop j (cstr s))" by simp_all
          then have "k - i = Suc (k - Suc i)" by simp
          with k dr [of "k - i"] False Inr Some show ?thesis by simp
        qed simp
      qed simp
    qed
  qed
qed simp

text \<open>
  C20. \<^verbatim>\<open>strstr\<close> returns the first place where the needle occurs, and null exactly when it occurs
  nowhere; it never reads past the two strings.
\<close>

theorem strstr_first:
  assumes "is_cstr s" and "is_cstr f"
  shows "case strstr s f of
      Inl _ \<Rightarrow> False
    | Inr None \<Rightarrow> (\<forall>j. \<not> prefix (cstr f) (drop j (cstr s)))
    | Inr (Some k) \<Rightarrow> prefix (cstr f) (drop k (cstr s)) \<and> (\<forall>j < k. \<not> prefix (cstr f) (drop j (cstr s)))"
proof (cases f)
  case Nil
  with assms show ?thesis by simp
next
  case (Cons c f')
  show ?thesis
  proof (cases "c = 0")
    case True
    with Cons show ?thesis by (simp add: strstr_def)
  next
    case False
    with assms Cons have f': "is_cstr f'" by simp
    have c: "cstr f = c # cstr f'" using Cons False by simp
    have "strstr s f = strstr_loop s c f' (length (cstr f')) 0"
      using Cons False f' by (simp add: strstr_def strlen_def strlen_at_spec)
    with strstr_loop_spec [OF assms(1) f' False, of 0] show ?thesis by (simp only: c diff_zero le0 simp_thms)
  qed
qed

theorem strstr_first_witness:
  "prefix [98, 99] (drop 3 [97, 98, 98, 98, 99 :: u8]) \<and> strstr [97, 98, 98, 98, 99, 0] [98, 99, 0] = Inr (Some 3)"
  using strstr_first [of "[97, 98, 98, 98, 99, 0]" "[98, 99, 0]"] by (simp add: strstr_def strlen_def)

section \<open>Moving and filling\<close>

text \<open>What \<^verbatim>\<open>memmove\<close> promises: all of the source is read before any of it is written.\<close>

definition moved :: "'a list \<Rightarrow> nat \<Rightarrow> nat \<Rightarrow> nat \<Rightarrow> 'a list" where
  "moved b d s n = take d b @ take n (drop s b) @ drop (d + n) b"

lemma moved_length [simp]:
  "d + n \<le> length b \<Longrightarrow> s + n \<le> length b \<Longrightarrow> length (moved b d s n) = length b"
  by (simp add: moved_def)

lemma moved_nth:
  "d + n \<le> length b \<Longrightarrow> s + n \<le> length b \<Longrightarrow> i < length b \<Longrightarrow>
   moved b d s n ! i = (if d \<le> i \<and> i < d + n then b ! (s + (i - d)) else b ! i)"
  by (auto simp: moved_def nth_append)

lemma moved_0 [simp]: "moved b d s 0 = b" by (simp add: moved_def)

lemma moved_same: "moved b d d n = b"
  by (metis add.commute append_take_drop_id drop_drop moved_def)

lemma moved_forward:
  assumes "d + m + n \<le> length b" and "s + m + n \<le> length b" and "d \<le> s \<or> s + m + n \<le> d"
  shows "moved (moved b d s m) (d + m) (s + m) n = moved b d s (m + n)"
  by (rule nth_equalityI) (use assms in \<open>auto simp: moved_nth\<close>)

lemma moved_backward:
  assumes "d + m + n \<le> length b" and "s + m + n \<le> length b" and "s \<le> d"
  shows "moved (moved b (d + m) (s + m) n) d s m = moved b d s (m + n)"
  by (rule nth_equalityI) (use assms in \<open>auto simp: moved_nth\<close>)

lemma move_block_moved:
  "d + w \<le> length b \<Longrightarrow> s + w \<le> length b \<Longrightarrow> move_block w d s b = Inr (moved b d s w)"
  by (simp add: move_block_def moved_def)

lemma move_up_spec:
  "d + k * w \<le> length b \<Longrightarrow> s + k * w \<le> length b \<Longrightarrow> d \<le> s \<or> s + k * w \<le> d \<Longrightarrow>
   move_up w d s k b = Inr (moved b d s (k * w))"
proof (induction k arbitrary: d s b)
  case (Suc k)
  have "move_up w (d + w) (s + w) k (moved b d s w) = Inr (moved (moved b d s w) (d + w) (s + w) (k * w))"
    by (rule Suc.IH) (use Suc.prems in auto)
  with Suc.prems show ?case
    by (simp add: move_block_moved moved_forward add.assoc)
qed simp

lemma move_down_spec:
  "d + k * w \<le> length b \<Longrightarrow> s + k * w \<le> length b \<Longrightarrow> s \<le> d \<Longrightarrow>
   move_down w d s k b = Inr (moved b d s (k * w))"
proof (induction k arbitrary: b)
  case (Suc k)
  have "move_down w d s k (moved b (d + k * w) (s + k * w) w) = Inr (moved (moved b (d + k * w) (s + k * w) w) d s (k * w))"
    by (rule Suc.IH) (use Suc.prems in auto)
  with Suc.prems show ?case
    by (simp add: move_block_moved moved_backward add.assoc add.commute [of w])
qed simp

lemma align_up_spec:
  "d + n \<le> length b \<Longrightarrow> s + n \<le> length b \<Longrightarrow> d \<le> s \<Longrightarrow>
   align_up a d s n b = Inr (moved b d s n, None) \<or>
   (\<exists>m \<le> n. align_up a d s n b = Inr (moved b d s m, Some (d + m, s + m, n - m)))"
proof (induction n arbitrary: d s b)
  case (Suc n)
  show ?case
  proof (cases "(a + d) mod 8 = 0")
    case True
    then show ?thesis by (intro disjI2 exI [of _ 0]) simp
  next
    case False
    let ?b = "moved b d s 1"
    have step: "align_up a d s (Suc n) b = align_up a (Suc d) (Suc s) n ?b"
      using False Suc.prems by (simp add: move_block_moved)
    have fwd: "m \<le> n \<Longrightarrow> moved ?b (Suc d) (Suc s) m = moved b d s (Suc m)" for m
      using moved_forward [of d 1 m b s] Suc.prems by simp
    from Suc.IH [of "Suc d" ?b "Suc s"] Suc.prems
    consider "align_up a (Suc d) (Suc s) n ?b = Inr (moved ?b (Suc d) (Suc s) n, None)"
      | m where "m \<le> n" "align_up a (Suc d) (Suc s) n ?b = Inr (moved ?b (Suc d) (Suc s) m, Some (Suc d + m, Suc s + m, n - m))"
      by auto
    then show ?thesis
    proof cases
      case 1
      with step fwd [of n] show ?thesis by simp
    next
      case 2
      with step fwd [of m] show ?thesis by (intro disjI2 exI [of _ "Suc m"]) simp
    qed
  qed
qed auto

lemma align_down_spec:
  "d + n \<le> length b \<Longrightarrow> s + n \<le> length b \<Longrightarrow> s \<le> d \<Longrightarrow>
   align_down a d s n b = Inr (moved b d s n, None) \<or>
   (\<exists>m \<le> n. align_down a d s n b = Inr (moved b (d + m) (s + m) (n - m), Some m))"
proof (induction n arbitrary: b)
  case (Suc n)
  show ?case
  proof (cases "(a + d + Suc n) mod 8 = 0")
    case True
    then show ?thesis by (intro disjI2 exI [of _ "Suc n"]) simp
  next
    case False
    let ?b = "moved b (d + n) (s + n) 1"
    have step: "align_down a d s (Suc n) b = align_down a d s n ?b"
      using False Suc.prems by (simp add: move_block_moved)
    have bwd: "moved ?b (d + m) (s + m) (n - m) = moved b (d + m) (s + m) (Suc n - m)" if "m \<le> n" for m
      using moved_backward [of "d + m" "n - m" 1 b "s + m"] Suc.prems that by (simp add: Suc_diff_le)
    from Suc.IH [of ?b] Suc.prems
    consider "align_down a d s n ?b = Inr (moved ?b d s n, None)"
      | m where "m \<le> n" "align_down a d s n ?b = Inr (moved ?b (d + m) (s + m) (n - m), Some m)"
      by auto
    then show ?thesis
    proof cases
      case 1
      with step bwd [of 0] show ?thesis by simp
    next
      case 2
      with step bwd [of m] show ?thesis by (intro disjI2 exI [of _ m]) simp
    qed
  qed
qed auto

lemma memmove_up:
  assumes "d + n \<le> length b" and "s + n \<le> length b" and "d < s"
  shows "memmove a d s n b = Inr (moved b d s n)"
proof -
  have bytes: "move_up 1 d s n b = Inr (moved b d s n)" using assms by (simp add: move_up_spec)
  from align_up_spec [of d n b s a] assms consider
      "align_up a d s n b = Inr (moved b d s n, None)"
    | m where "m \<le> n" "align_up a d s n b = Inr (moved b d s m, Some (d + m, s + m, n - m))" by auto
  then show ?thesis
  proof cases
    case 1
    with bytes assms show ?thesis by (simp add: memmove_def)
  next
    case 2
    let ?r = "n - m" and ?w = "(n - m) div 8 * 8"
    have w: "?w + ?r mod 8 = ?r" "?w \<le> ?r" by simp_all
    have "move_up 8 (d + m) (s + m) (?r div 8) (moved b d s m) = Inr (moved (moved b d s m) (d + m) (s + m) ?w)"
      by (rule move_up_spec) (use assms 2 w in auto)
    also have "moved (moved b d s m) (d + m) (s + m) ?w = moved b d s (m + ?w)"
      by (rule moved_forward) (use assms 2 w in auto)
    finally have words: "move_up 8 (d + m) (s + m) (?r div 8) (moved b d s m) = Inr (moved b d s (m + ?w))" .
    have "move_up 1 (d + m + ?w) (s + m + ?w) (?r mod 8) (moved b d s (m + ?w)) =
        Inr (moved (moved b d s (m + ?w)) (d + (m + ?w)) (s + (m + ?w)) (?r mod 8))"
      using move_up_spec [of "d + m + ?w" "?r mod 8" 1 "moved b d s (m + ?w)" "s + m + ?w"] assms 2 w
      by (simp add: add.assoc)
    also have "moved (moved b d s (m + ?w)) (d + (m + ?w)) (s + (m + ?w)) (?r mod 8) = moved b d s (m + ?w + ?r mod 8)"
      by (rule moved_forward) (use assms 2 w in auto)
    also have "m + ?w + ?r mod 8 = n" using 2 w by linarith
    finally have "move_up 1 (d + m + ?w) (s + m + ?w) (?r mod 8) (moved b d s (m + ?w)) = Inr (moved b d s n)" .
    with words 2 bytes assms show ?thesis by (simp add: memmove_def)
  qed
qed

lemma memmove_down:
  assumes "d + n \<le> length b" and "s + n \<le> length b" and "s < d"
  shows "memmove a d s n b = Inr (moved b d s n)"
proof (cases "s + n \<le> d")
  case True
  with assms show ?thesis by (simp add: memmove_def move_up_spec)
next
  case ov: False
  have bytes: "move_down 1 d s n b = Inr (moved b d s n)" using assms by (simp add: move_down_spec)
  from align_down_spec [of d n b s a] assms consider
      "align_down a d s n b = Inr (moved b d s n, None)"
    | m where "m \<le> n" "align_down a d s n b = Inr (moved b (d + m) (s + m) (n - m), Some m)" by auto
  then show ?thesis
  proof cases
    case 1
    with bytes assms ov show ?thesis by (simp add: memmove_def)
  next
    case 2
    let ?r = "m mod 8" and ?w = "m div 8 * 8" and ?b = "moved b (d + m) (s + m) (n - m)"
    have w: "?r + ?w = m" by simp
    have len: "length ?b = length b" using assms 2 by simp
    have "move_down 8 (d + ?r) (s + ?r) (m div 8) ?b = Inr (moved ?b (d + ?r) (s + ?r) ?w)"
      by (rule move_down_spec) (use assms 2 w len in linarith)+
    also have "moved ?b (d + ?r) (s + ?r) ?w = moved b (d + ?r) (s + ?r) (?w + (n - m))"
      using moved_backward [of "d + ?r" ?w "n - m" b "s + ?r"] assms 2 w by (simp add: add.assoc)
    finally have words: "move_down 8 (d + ?r) (s + ?r) (m div 8) ?b = Inr (moved b (d + ?r) (s + ?r) (?w + (n - m)))" .
    let ?c = "moved b (d + ?r) (s + ?r) (?w + (n - m))"
    have len: "length ?c = length b" using assms 2 w by (intro moved_length) linarith+
    have "move_down 1 d s ?r ?c = Inr (moved ?c d s ?r)"
      using move_down_spec [of d ?r 1 ?c s] assms 2 w len by simp
    also have "moved ?c d s ?r = moved b d s (?r + (?w + (n - m)))"
      by (rule moved_backward) (use assms 2 w in linarith)+
    also have "?r + (?w + (n - m)) = n" using 2 w by linarith
    finally have "move_down 1 d s ?r ?c = Inr (moved b d s n)" .
    with words 2 bytes assms ov show ?thesis by (simp add: memmove_def)
  qed
qed

text \<open>
  C21. \<^verbatim>\<open>memmove\<close> copies as if through a temporary buffer, whatever the overlap of source and
  destination and whatever their alignment: the forward and backward word-at-a-time loops, with
  the byte loops that reach the alignment and finish the rest, are one simultaneous copy.
\<close>

theorem memmove_simultaneous:
  assumes "d + n \<le> length b" and "s + n \<le> length b"
  shows "memmove a d s n b = Inr (take d b @ take n (drop s b) @ drop (d + n) b)"
proof -
  consider "d = s" | "d < s" | "s < d" by linarith
  then have "memmove a d s n b = Inr (moved b d s n)"
  proof cases
    case 1
    then show ?thesis by (simp add: memmove_def moved_same)
  qed (simp_all add: memmove_up memmove_down assms)
  then show ?thesis by (simp add: moved_def)
qed

theorem memmove_simultaneous_witness:
  "memmove 3 2 0 4 [1, 2, 3, 4, 5, 6, 7] = Inr [1, 2, 1, 2, 3, 4, 7]"
  using memmove_simultaneous [of 2 4 "[1, 2, 3, 4, 5, 6, 7]" 0 3] by simp

lemma put_bytes_spec:
  "\<forall>i \<in> set is. i < length b \<Longrightarrow>
   put_bytes is c b = Inr (map (\<lambda>i. if i \<in> set is then c else b ! i) [0..<length b])"
proof (induction "is" arbitrary: b)
  case Nil
  then show ?case by (simp add: map_nth)
next
  case (Cons i "is")
  then show ?case by (auto simp: put_byte_def nth_list_update)
qed

lemma rbind_unit [simp]: "rbind x Inr = x"
  by (cases x) auto

lemma put_bytes_append:
  "put_bytes (is @ js) c b = rbind (put_bytes is c b) (\<lambda>b. put_bytes js c b)"
proof (induction "is" arbitrary: b)
  case (Cons i "is")
  then show ?case by (cases "put_byte i c b") auto
qed simp

lemma put_bytes_fill:
  assumes "set is = {..<n}" and "n \<le> length b"
  shows "put_bytes is c b = Inr (replicate n c @ drop n b)"
proof -
  have "put_bytes is c b = Inr (map (\<lambda>i. if i \<in> set is then c else b ! i) [0..<length b])"
    by (rule put_bytes_spec) (use assms in auto)
  also have "map (\<lambda>i. if i \<in> set is then c else b ! i) [0..<length b] = replicate n c @ drop n b"
    by (rule nth_equalityI) (use assms in \<open>auto simp: nth_append\<close>)
  finally show ?thesis .
qed

lemma memset_writes:
  "memset a b c n = put_bytes
     (if n = 0 then [] else if n \<le> 2 then [0, n - 1] else if n \<le> 6 then [0, n - 1] @ [1, 2, n - 2, n - 3]
      else if n \<le> 8 then [0, n - 1] @ [1, 2, n - 2, n - 3] @ [3, n - 4]
      else let k = unat ((- a) AND 3); m = (n - k) div 4 * 4
           in [0, n - 1] @ [1, 2, n - 2, n - 3] @ [3, n - 4] @ [k..<k + m]) c b"
  unfolding memset_def Let_def fun_eq_iff by (simp add: put_bytes_append [abs_def] put_bytes_append del: put_bytes.simps(2) append.simps)

lemma memset_cover:
  assumes k: "k \<le> 3" and m: "m \<le> n - k" "n - k < m + 4"
  shows "set (if n = 0 then [] else if n \<le> 2 then [0, n - 1] else if n \<le> 6 then [0, n - 1] @ [1, 2, n - 2, n - 3]
      else if n \<le> 8 then [0, n - 1] @ [1, 2, n - 2, n - 3] @ [3, n - 4]
      else [0, n - 1] @ [1, 2, n - 2, n - 3] @ [3, n - 4] @ [k..<k + m]) = {..<n}" (is "set ?l = _")
proof (cases "n \<le> 8")
  case True
  then have "n \<in> {0, 1, 2, 3, 4, 5, 6, 7, 8}" by auto
  then show ?thesis by (auto simp: lessThan_def)
next
  case False
  then have l: "set ?l = {0, n - 1, 1, 2, n - 2, n - 3, 3, n - 4} \<union> {k..<k + m}" by auto
  show ?thesis unfolding l
  proof (rule set_eqI)
    fix x
    have "x \<in> {0, 1, 2}" if "x < k" using that k by auto
    moreover have "x \<in> {n - 1, n - 2, n - 3, n - 4}" if "k + m \<le> x" "x < n" using that m k False by auto
    ultimately show "x \<in> {0, n - 1, 1, 2, n - 2, n - 3, 3, n - 4} \<union> {k..<k + m} \<longleftrightarrow> x \<in> {..<n}"
      using False k m by (cases "x < k"; cases "k + m \<le> x"; cases "x < n") auto
  qed
qed

text \<open>
  \<^verbatim>\<open>memset\<close> fills exactly the first \<^verbatim>\<open>n\<close> bytes, for every length and every address: the bytes
  that the branchy head and tail write and the aligned middle together leave no gap and go no
  further.
\<close>

theorem memset_fills:
  assumes "n \<le> length b"
  shows "memset a b c n = Inr (replicate n c @ drop n b)"
proof -
  define k where "k = unat ((- a) AND 3)"
  define m where "m = (n - k) div 4 * 4"
  have "(- a) AND 3 \<le> 3" by (rule word_and_le1)
  then have k: "k \<le> 3" unfolding k_def by (simp add: word_le_nat_alt)
  have m: "m \<le> n - k" "n - k < m + 4" unfolding m_def by linarith+
  show ?thesis
    unfolding memset_writes Let_def k_def [symmetric] m_def [symmetric]
    by (rule put_bytes_fill [OF _ assms]) (rule memset_cover [OF k m])
qed

theorem memset_fills_witness: "memset 5 [1, 2, 3] 9 2 = Inr [9, 9, 3]"
  using memset_fills [of 2 "[1, 2, 3]" 5 9] by (simp add: numeral_2_eq_2)

section \<open>Tokens\<close>

text \<open>The maximal runs of bytes that are not delimiters.\<close>

function tokens :: "('a \<Rightarrow> bool) \<Rightarrow> 'a list \<Rightarrow> 'a list list" where
  "tokens P xs = (case dropWhile P xs of [] \<Rightarrow> [] | y # ys \<Rightarrow> (y # takeWhile (\<lambda>c. \<not> P c) ys) # tokens P (dropWhile (\<lambda>c. \<not> P c) ys))"
  by pat_completeness auto
termination
proof (relation "measure (length \<circ> snd)")
  fix P :: "'a \<Rightarrow> bool" and xs y ys
  assume "dropWhile P xs = y # ys"
  then have "length (y # ys) \<le> length xs" by (metis length_dropWhile_le)
  with length_dropWhile_le [of "\<lambda>c. \<not> P c" ys] show "((P, dropWhile (\<lambda>c. \<not> P c) ys), P, xs) \<in> measure (length \<circ> snd)"
    by simp
qed simp

declare tokens.simps [simp del]

text \<open>A caller that splits a string: the first call has the string, the later ones null.\<close>

fun strtok_all :: "nat \<Rightarrow> nat option \<Rightarrow> u8 list \<Rightarrow> nat option \<Rightarrow> u8 list \<Rightarrow> (fault + u8 list list) option" where
  "strtok_all 0 s delim l b = None"
| "strtok_all (Suc k) s delim l b =
     (case strtok s delim l b of
        Inl f \<Rightarrow> Some (Inl f)
      | Inr (None, b', l') \<Rightarrow> Some (Inr [])
      | Inr (Some t, b', l') \<Rightarrow> map_option (rmap (Cons (cstr (drop t b')))) (strtok_all k None delim l' b'))"

lemma in_span_spec: "is_cstr d \<Longrightarrow> in_span d c = Inr (c \<in> set (cstr d))"
  by (induction d) auto

lemma in_span0_spec: "is_cstr d \<Longrightarrow> in_span0 d c = Inr (c = 0 \<or> c \<in> set (cstr d))"
  by (induction d) auto

abbreviation delims :: "u8 list \<Rightarrow> u8 \<Rightarrow> bool" where
  "delims d \<equiv> (\<lambda>c. c \<in> set (cstr d))"

lemma skip_delim_spec:
  assumes "is_cstr d"
  shows "is_cstr s \<Longrightarrow> skip_delim d s i =
    Inr (i + length (takeWhile (delims d) (cstr s)), hd (dropWhile (delims d) (cstr s) @ [0]))"
proof (induction s arbitrary: i)
  case (Cons c s)
  have "(0 :: u8) \<notin> set (cstr d)" using cstr_nonzero by blast
  with Cons assms show ?case by (auto simp: in_span_spec)
qed simp

lemma find_delim_spec:
  assumes "is_cstr d"
  shows "is_cstr s \<Longrightarrow> find_delim d s i =
    Inr (i + length (takeWhile (\<lambda>c. \<not> delims d c) (cstr s)), hd (dropWhile (\<lambda>c. \<not> delims d c) (cstr s) @ [0]))"
proof (induction s arbitrary: i)
  case (Cons c s)
  with assms show ?case by (auto simp: in_span0_spec)
qed simp

lemma cstr_drop: "i \<le> length (cstr x) \<Longrightarrow> cstr (drop i x) = drop i (cstr x)"
proof (induction x arbitrary: i)
  case (Cons c x)
  then show ?case by (cases i) (auto split: if_splits)
qed simp

lemma is_cstr_drop: "i \<le> length (cstr x) \<Longrightarrow> is_cstr x \<Longrightarrow> is_cstr (drop i x)"
proof (induction x arbitrary: i)
  case (Cons c x)
  then show ?case by (cases i) (auto split: if_splits)
qed simp

lemma cstr_cut: "e < length (cstr r) \<Longrightarrow> cstr (r[e := 0]) = take e (cstr r)"
proof (induction r arbitrary: e)
  case (Cons c r)
  then show ?case by (cases e) (auto split: if_splits)
qed simp

lemma strtok_step:
  assumes "is_cstr d" and "is_cstr (drop p b)" and "dropWhile (delims d) (cstr (drop p b)) = y # ys"
  obtains t b' l' where "strtok None d (Some p) b = Inr (Some t, b', l')"
    and "cstr (drop t b') = y # takeWhile (\<lambda>c. \<not> delims d c) ys"
    and "l' = None \<and> dropWhile (\<lambda>c. \<not> delims d c) ys = [] \<or>
      (\<exists>q z. l' = Some q \<and> is_cstr (drop q b') \<and> dropWhile (\<lambda>c. \<not> delims d c) ys = z # cstr (drop q b') \<and> delims d z)"
proof -
  let ?P = "delims d" and ?s = "cstr (drop p b)"
  define i where "i = length (takeWhile ?P ?s)"
  define t where "t = p + i"
  have split: "?s = takeWhile ?P ?s @ y # ys" using assms(3) by (metis takeWhile_dropWhile_id)
  have y: "y \<noteq> 0" using cstr_nonzero [of "drop p b"] split by (metis in_set_conv_decomp)
  define r where "r = drop (Suc t) b"
  have at: "drop t b = y # r" "is_cstr r" "cstr r = ys"
  proof -
    have i: "i \<le> length ?s" unfolding i_def by (rule length_takeWhile_le)
    have "cstr (drop t b) = y # ys"
      using cstr_drop [OF i] assms(3) by (simp add: t_def i_def add.commute dropWhile_eq_drop)
    moreover have "is_cstr (drop t b)"
      using is_cstr_drop [OF i assms(2)] by (simp add: t_def add.commute)
    moreover have "drop (Suc t) b = tl (drop t b)" by (simp add: drop_Suc tl_drop)
    ultimately show "drop t b = y # r" "is_cstr r" "cstr r = ys"
      by (cases "drop t b"; auto simp: r_def split: if_splits)+
  qed
  let ?e = "length (takeWhile (\<lambda>c. \<not> ?P c) ys)"
  have skip: "skip_delim d (drop p b) p = Inr (t, y)"
    using skip_delim_spec [OF assms(1,2), of p] assms(3) by (simp add: t_def i_def)
  have fnd: "find_delim d (drop (Suc t) b) (Suc t) = Inr (Suc t + ?e, hd (dropWhile (\<lambda>c. \<not> ?P c) ys @ [0]))"
    using find_delim_spec [OF assms(1) at(2), of "Suc t"] at(3) by (simp add: r_def)
  show ?thesis
  proof (cases "dropWhile (\<lambda>c. \<not> ?P c) ys")
    case Nil
    then have "takeWhile (\<lambda>c. \<not> ?P c) ys = ys" by (metis append.right_neutral takeWhile_dropWhile_id)
    with Nil skip fnd y at show ?thesis
      by (intro that [of t b None]) (simp_all add: strtok_def strtok_r_def del: dropWhile_eq_Nil_conv takeWhile_eq_all_conv)
  next
    case (Cons z zs)
    have ys: "ys = takeWhile (\<lambda>c. \<not> ?P c) ys @ z # zs" using Cons by (metis takeWhile_dropWhile_id)
    then have z: "z \<noteq> 0" using cstr_nonzero [of r] at(3) by (metis in_set_conv_decomp)
    have dz: "delims d z" using hd_dropWhile [of "\<lambda>c. \<not> ?P c" ys] Cons by simp
    have e: "?e < length ys" using ys by (metis length_append length_Cons less_add_Suc1 add_Suc_right)
    let ?b = "b[Suc t + ?e := 0]"
    have tok: "cstr (drop t ?b) = y # takeWhile (\<lambda>c. \<not> ?P c) ys"
      using at e by (simp add: drop_update_swap y cstr_cut takeWhile_eq_take [symmetric])
    have rest: "is_cstr (drop (Suc (Suc t + ?e)) ?b)" "cstr (drop (Suc (Suc t + ?e)) ?b) = zs"
    proof -
      have same: "drop (Suc (Suc t + ?e)) ?b = drop (Suc ?e) r"
        by (simp add: drop_update_cancel r_def add.commute)
      have zs: "drop (Suc ?e) ys = zs" by (subst ys) simp
      show "is_cstr (drop (Suc (Suc t + ?e)) ?b)" "cstr (drop (Suc (Suc t + ?e)) ?b) = zs"
        using cstr_drop [of "Suc ?e" r] is_cstr_drop [of "Suc ?e" r] at e unfolding same by (simp_all add: zs)
    qed
    show ?thesis
      by (rule that [of t ?b "Some (Suc (Suc t + ?e))"]) (use skip fnd y z dz Cons tok rest in \<open>simp_all add: strtok_def strtok_r_def\<close>)
  qed
qed

lemma strtok_all_spec:
  assumes "is_cstr d"
  shows "is_cstr (drop p b) \<Longrightarrow> length (cstr (drop p b)) < k \<Longrightarrow>
    strtok_all k None d (Some p) b = Some (Inr (tokens (delims d) (cstr (drop p b))))"
proof (induction k arbitrary: p b)
  case (Suc k)
  let ?s = "cstr (drop p b)"
  show ?case
  proof (cases "dropWhile (delims d) ?s")
    case Nil
    then have "strtok None d (Some p) b = Inr (None, b, None)"
      using skip_delim_spec [OF assms Suc.prems(1), of p]
      by (simp add: strtok_def strtok_r_def del: dropWhile_eq_Nil_conv)
    with Nil show ?thesis by (simp add: tokens.simps del: dropWhile_eq_Nil_conv)
  next
    case (Cons y ys)
    then have len: "length ys < length ?s" by (metis Suc_le_eq length_Cons length_dropWhile_le)
    from strtok_step [OF assms Suc.prems(1) Cons] obtain t b' l' where
      st: "strtok None d (Some p) b = Inr (Some t, b', l')"
        "cstr (drop t b') = y # takeWhile (\<lambda>c. \<not> delims d c) ys"
      and l': "l' = None \<and> dropWhile (\<lambda>c. \<not> delims d c) ys = [] \<or>
      (\<exists>q z. l' = Some q \<and> is_cstr (drop q b') \<and> dropWhile (\<lambda>c. \<not> delims d c) ys = z # cstr (drop q b') \<and> delims d z)" .
    have tk: "tokens (delims d) ?s = (y # takeWhile (\<lambda>c. \<not> delims d c) ys) # tokens (delims d) (dropWhile (\<lambda>c. \<not> delims d c) ys)"
      using Cons by (subst tokens.simps) simp
    from l' show ?thesis
    proof (elim disjE exE conjE)
      assume "l' = None" "dropWhile (\<lambda>c. \<not> delims d c) ys = []"
      with st tk Suc.prems len show ?thesis
        by (cases k) (simp_all add: strtok_def strtok_r_def tokens.simps)
    next
      fix q z
      assume q: "l' = Some q" "is_cstr (drop q b')" "dropWhile (\<lambda>c. \<not> delims d c) ys = z # cstr (drop q b')" "delims d z"
      have "length (z # cstr (drop q b')) \<le> length ys" by (metis q(3) length_dropWhile_le)
      then have "strtok_all k None d (Some q) b' = Some (Inr (tokens (delims d) (cstr (drop q b'))))"
        using Suc.IH [OF q(2)] len Suc.prems(2) by simp
      moreover have "tokens (delims d) (z # cstr (drop q b')) = tokens (delims d) (cstr (drop q b'))"
        using q(4) by (subst (1 2) tokens.simps) simp
      ultimately show ?thesis using st tk q by simp
    qed
  qed
qed simp

text \<open>
  C22. Splitting a string with \<^verbatim>\<open>strtok\<close>, the first call with the string and the others with null,
  ends after as many calls as the string has bytes at most, never reads past the string, and
  yields exactly the maximal runs of bytes that are not delimiters, in order.
\<close>

theorem strtok_tokens:
  assumes "is_cstr d" and "is_cstr b" and "length (cstr b) < k"
  shows "strtok_all k (Some 0) d l b = Some (Inr (tokens (\<lambda>c. c \<in> set (cstr d)) (cstr b)))"
proof -
  have "strtok_all k (Some 0) d l b = strtok_all k None d (Some 0) b"
    by (cases k) (simp_all add: strtok_def strtok_r_def)
  with strtok_all_spec [OF assms(1), of 0 b k] assms show ?thesis by simp
qed

theorem strtok_tokens_witness:
  "strtok_all 6 (Some 0) [44, 32, 0] None [44, 97, 98, 32, 99, 0] = Some (Inr [[97, 98], [99]])"
  using strtok_tokens [of "[44, 32, 0]" "[44, 97, 98, 32, 99, 0]" 6 None] by (simp add: tokens.simps)

end
