(* ===== verification/Qsort.thy ===== *)
theory Qsort
  imports Prelude
begin

text \<open>
  Sorting and searching of \<^verbatim>\<open>src/libc/ansi/stdlib\<close>: \<^verbatim>\<open>qsort.c\<close>, a quicksort that collects the
  elements equal to the pivot (the fat pivot) and finishes short segments by insertion, and
  \<^verbatim>\<open>bsearch.c\<close>. The array is the list of its bytes; elements are numbered from 1 as in the
  source, and an address that the source keeps beside an index is that index. The comparison
  and the exchange go through the two macros \<^verbatim>\<open>CMPR\<close> and \<^verbatim>\<open>SWAP\<close>, arguments of the definitions
  here; \<open>qsort\<close> supplies the ones of the source.
\<close>

section \<open>Exchanging and comparing elements\<close>

definition load_bytes :: "nat \<Rightarrow> nat \<Rightarrow> u8 list \<Rightarrow> fault + u8 list" where
  "load_bytes k p b = (if p + k \<le> length b then Inr (take k (drop p b)) else Inl OutOfBounds)"

definition store_bytes :: "u8 list \<Rightarrow> nat \<Rightarrow> u8 list \<Rightarrow> fault + u8 list" where
  "store_bytes v p b =
     (if p + length v \<le> length b then Inr (take p b @ v @ drop (p + length v) b) else Inl OutOfBounds)"

text \<open>Exchange of \<open>k\<close> bytes through a temporary, in the order of the source.\<close>

definition xfer :: "nat \<Rightarrow> nat \<Rightarrow> nat \<Rightarrow> u8 list \<Rightarrow> fault + u8 list" where
  "xfer k p q b =
     rbind (load_bytes k p b) (\<lambda>t. rbind (load_bytes k q b) (\<lambda>v.
       rbind (store_bytes v p b) (store_bytes t q)))"

definition MAX_SWAP :: nat where "MAX_SWAP = 256"

fun xfer_loop :: "nat \<Rightarrow> nat \<Rightarrow> nat \<Rightarrow> u8 list \<Rightarrow> fault + u8 list" where
  "xfer_loop n p q b =
     (if n = 0 then Inr b
      else let c = (if n < MAX_SWAP then n else MAX_SWAP)
           in if c = 0 then Inr b else rbind (xfer c p q b) (xfer_loop (n - c) (p + c) (q + c)))"

declare xfer_loop.simps [simp del]

text \<open>\<^verbatim>\<open>long\<close>, used for elements of four bytes, has eight bytes on the 64-bit target.\<close>

definition sizeof_long :: nat where "sizeof_long = 8"

definition Swap :: "nat \<Rightarrow> nat \<Rightarrow> nat \<Rightarrow> u8 list \<Rightarrow> fault + u8 list" where
  "Swap w p q b =
     (if w mod 2 ^ 32 = 1 then xfer 1 p q b
      else if w mod 2 ^ 32 = 2 then xfer 2 p q b
      else if w mod 2 ^ 32 = 4 then xfer sizeof_long p q b
      else xfer_loop w p q b)"

text \<open>\<open>BASE w i\<close> is the offset of element \<open>i\<close>.\<close>

definition BASE :: "nat \<Rightarrow> nat \<Rightarrow> nat" where
  "BASE w i = (i - 1) * w"

definition SWAP :: "nat \<Rightarrow> nat \<Rightarrow> nat \<Rightarrow> u8 list \<Rightarrow> fault + u8 list" where
  "SWAP w i j b = Swap w (BASE w i) (BASE w j) b"

definition CMPR :: "(u8 list \<Rightarrow> u8 list \<Rightarrow> int) \<Rightarrow> nat \<Rightarrow> nat \<Rightarrow> nat \<Rightarrow> u8 list \<Rightarrow> fault + int" where
  "CMPR Compare w i j b =
     rbind (load_bytes w (BASE w i) b) (\<lambda>x. rbind (load_bytes w (BASE w j) b) (\<lambda>y. Inr (Compare x y)))"

section \<open>Insertion sort\<close>

fun insert_back :: "(nat \<Rightarrow> nat \<Rightarrow> 's \<Rightarrow> fault + int) \<Rightarrow> (nat \<Rightarrow> nat \<Rightarrow> 's \<Rightarrow> fault + 's)
    \<Rightarrow> nat \<Rightarrow> 's \<Rightarrow> fault + 's" where
  "insert_back cmpr swp NextIdx s =
     (if NextIdx \<le> 1 then Inr s
      else rbind (cmpr (NextIdx - 1) NextIdx s) (\<lambda>c.
        if c \<le> 0 then Inr s
        else rbind (swp (NextIdx - 1) NextIdx s) (insert_back cmpr swp (NextIdx - 1))))"

function insertion_loop :: "(nat \<Rightarrow> nat \<Rightarrow> 's \<Rightarrow> fault + int) \<Rightarrow> (nat \<Rightarrow> nat \<Rightarrow> 's \<Rightarrow> fault + 's)
    \<Rightarrow> nat \<Rightarrow> nat \<Rightarrow> 's \<Rightarrow> fault + 's" where
  "insertion_loop cmpr swp StartIdx Last s =
     (if StartIdx \<le> Last
      then rbind (insert_back cmpr swp StartIdx s) (insertion_loop cmpr swp (StartIdx + 1) Last)
      else Inr s)"
  by pat_completeness auto
termination by (relation "measure (\<lambda>(_, _, i, l, _). Suc l - i)") auto

declare insert_back.simps [simp del] insertion_loop.simps [simp del]

definition InsertionSort :: "(nat \<Rightarrow> nat \<Rightarrow> 's \<Rightarrow> fault + int) \<Rightarrow> (nat \<Rightarrow> nat \<Rightarrow> 's \<Rightarrow> fault + 's)
    \<Rightarrow> nat \<Rightarrow> nat \<Rightarrow> 's \<Rightarrow> fault + 's" where
  "InsertionSort cmpr swp First Last = insertion_loop cmpr swp (First + 1) Last"

section \<open>Partition with a fat pivot\<close>

definition GET_PIVOT_ADDR :: "(nat \<Rightarrow> nat \<Rightarrow> 's \<Rightarrow> fault + int) \<Rightarrow> nat \<Rightarrow> nat \<Rightarrow> nat \<Rightarrow> 's \<Rightarrow> fault + nat" where
  "GET_PIVOT_ADDR cmpr First Mid Last s =
     rbind (cmpr Mid First s) (\<lambda>c.
       if 0 < c
       then rbind (cmpr First Last s) (\<lambda>c. if 0 \<le> c then Inr First
              else rbind (cmpr Last Mid s) (\<lambda>c. if 0 \<le> c then Inr Mid else Inr Last))
       else rbind (cmpr Last First s) (\<lambda>c. if 0 < c then Inr First
              else rbind (cmpr Mid Last s) (\<lambda>c. if 0 < c then Inr Mid else Inr Last)))"

text \<open>The scan from the left for an item that is not less than the pivot.\<close>

function left_scan :: "(nat \<Rightarrow> nat \<Rightarrow> 's \<Rightarrow> fault + int) \<Rightarrow> nat \<Rightarrow> nat \<Rightarrow> nat \<Rightarrow> int \<Rightarrow> 's \<Rightarrow> fault + nat \<times> int" where
  "left_scan cmpr Pivot LeftIdx RightIdx CmprLeft s =
     (if LeftIdx \<le> RightIdx
      then rbind (cmpr LeftIdx Pivot s) (\<lambda>c.
        if 0 \<le> c then Inr (LeftIdx, c) else left_scan cmpr Pivot (LeftIdx + 1) RightIdx c s)
      else Inr (LeftIdx, CmprLeft))"
  by pat_completeness auto
termination by (relation "measure (\<lambda>(_, _, l, r, _, _). Suc r - l)") auto

declare left_scan.simps [simp del]

text \<open>
  An item found at \<^verbatim>\<open>Right\<close> joins the items that are greater than or equal to the pivot: the
  fat pivot is moved down by one, or grows by one. \<open>hi\<close> is \<^verbatim>\<open>HiFatPvtAddr\<close>, \<open>None\<close> while \<^verbatim>\<open>HiFatPvt\<close> is 0.
\<close>

definition absorb :: "(nat \<Rightarrow> nat \<Rightarrow> 's \<Rightarrow> fault + 's) \<Rightarrow> int \<Rightarrow> nat \<Rightarrow> nat option \<Rightarrow> nat \<Rightarrow> 's
    \<Rightarrow> fault + nat option \<times> nat \<times> 's" where
  "absorb swp c RightIdx hi FatPvtCtr s =
     (if 0 < c
      then case hi of
             None \<Rightarrow> Inr (None, FatPvtCtr, s)
           | Some h \<Rightarrow> rmap (\<lambda>s. (Some (h - 1), FatPvtCtr, s)) (swp h RightIdx s)
      else Inr (Some (case hi of None \<Rightarrow> RightIdx | Some h \<Rightarrow> h), FatPvtCtr + 1, s))"

text \<open>The scan from the right for an item less than the pivot; \<^verbatim>\<open>Right\<close> stays positive, as \<^verbatim>\<open>Left\<close> does.\<close>

fun right_scan :: "(nat \<Rightarrow> nat \<Rightarrow> 's \<Rightarrow> fault + int) \<Rightarrow> (nat \<Rightarrow> nat \<Rightarrow> 's \<Rightarrow> fault + 's) \<Rightarrow> nat \<Rightarrow> nat
    \<Rightarrow> nat \<Rightarrow> nat option \<Rightarrow> nat \<Rightarrow> 's \<Rightarrow> fault + nat \<times> nat option \<times> nat \<times> 's" where
  "right_scan cmpr swp Pivot LeftIdx 0 hi FatPvtCtr s = Inr (0, hi, FatPvtCtr, s)"
| "right_scan cmpr swp Pivot LeftIdx (Suc r) hi FatPvtCtr s =
     (if LeftIdx \<le> Suc r
      then rbind (cmpr (Suc r) Pivot s) (\<lambda>c.
        if c < 0 then Inr (Suc r, hi, FatPvtCtr, s)
        else rbind (absorb swp c (Suc r) hi FatPvtCtr s) (\<lambda>(hi, FatPvtCtr, s).
          right_scan cmpr swp Pivot LeftIdx r hi FatPvtCtr s))
      else Inr (Suc r, hi, FatPvtCtr, s))"

lemma rbind_cong [fundef_cong]:
  "x = y \<Longrightarrow> (\<And>a. y = Inr a \<Longrightarrow> f a = g a) \<Longrightarrow> rbind x f = rbind y g"
  by (cases y) auto

lemma left_scan_le: "left_scan cmpr p l r c s = Inr (l', c') \<Longrightarrow> l \<le> l'"
proof (induction cmpr p l r c s rule: left_scan.induct)
  case (1 cmpr p l r c s)
  from "1.prems" show ?case
    by (subst (asm) left_scan.simps) (auto split: if_splits elim!: rbind_InrE dest: "1.IH")
qed

lemma right_scan_le: "right_scan cmpr swp p l r hi f s = Inr (r', hi', f', s') \<Longrightarrow> r' \<le> r"
proof (induction r arbitrary: hi f s)
  case (Suc r)
  show ?case
  proof (cases "l \<le> Suc r")
    case True
    with Suc show ?thesis
      by (cases "cmpr (Suc r) p s"; cases "absorb swp (projr (cmpr (Suc r) p s)) (Suc r) hi f s")
        (fastforce split: if_splits)+
  qed (use Suc in simp)
qed simp

text \<open>The loop that exchanges items until the scans meet: \<^verbatim>\<open>Right\<close>, \<^verbatim>\<open>FatPvtCtr\<close> and the array.\<close>

function part_loop :: "(nat \<Rightarrow> nat \<Rightarrow> 's \<Rightarrow> fault + int) \<Rightarrow> (nat \<Rightarrow> nat \<Rightarrow> 's \<Rightarrow> fault + 's) \<Rightarrow> nat \<Rightarrow> nat
    \<Rightarrow> nat \<Rightarrow> int \<Rightarrow> nat option \<Rightarrow> nat \<Rightarrow> 's \<Rightarrow> fault + nat \<times> nat \<times> 's" where
  "part_loop cmpr swp Pivot LeftIdx RightIdx CmprLeft hi FatPvtCtr s =
     (if LeftIdx \<le> RightIdx
      then rbind (left_scan cmpr Pivot LeftIdx RightIdx CmprLeft s) (\<lambda>(l, CmprLeft).
           rbind (right_scan cmpr swp Pivot l RightIdx hi FatPvtCtr s) (\<lambda>(r, hi, FatPvtCtr, s).
             if l < r
             then rbind (swp l r s) (\<lambda>s. rbind (absorb swp CmprLeft r hi FatPvtCtr s) (\<lambda>(hi, FatPvtCtr, s).
               part_loop cmpr swp Pivot (l + 1) (r - 1) CmprLeft hi FatPvtCtr s))
             else Inr (r, FatPvtCtr, s)))
      else Inr (RightIdx, FatPvtCtr, s))"
  by pat_completeness auto
termination
proof (relation "measure (\<lambda>(_, _, _, l, r, _). Suc r - l)", goal_cases)
  case (2 cmpr swp p l r c hi f s x l' c' y r' z hi' v f' s')
  then show ?case using left_scan_le [of cmpr p l r c s l' c'] right_scan_le [of cmpr swp p l' r hi f s r' hi' f' s'] by auto
qed simp

declare part_loop.simps [simp del]

definition Partition3 :: "(nat \<Rightarrow> nat \<Rightarrow> 's \<Rightarrow> fault + int) \<Rightarrow> (nat \<Rightarrow> nat \<Rightarrow> 's \<Rightarrow> fault + 's) \<Rightarrow> nat \<Rightarrow> nat
    \<Rightarrow> 's \<Rightarrow> fault + nat \<times> nat \<times> 's" where
  "Partition3 cmpr swp First Last s =
     (let Mid = (First + Last + 1) div 2 in
      rbind (GET_PIVOT_ADDR cmpr ((First + Mid) div 2) Mid ((Mid + Last) div 2) s) (\<lambda>Pivot.
      rbind (if First \<noteq> Pivot then swp First Pivot s else Inr s) (\<lambda>s.
      rbind (part_loop cmpr swp First (First + 1) Last 0 None 1 s) (\<lambda>(RightIdx, FatPvtCtr, s).
      rbind (if First \<noteq> RightIdx then swp First RightIdx s else Inr s) (\<lambda>s.
        Inr (RightIdx, RightIdx + (FatPvtCtr - 1), s))))))"

lemma absorb_fat: "absorb swp c r hi f s = Inr (hi', f', s') \<Longrightarrow> f \<le> f' \<and> f' \<le> f + 1"
  by (cases hi; cases "swp (the hi) r s") (auto simp: absorb_def split: if_splits)

lemma right_scan_fat:
  "right_scan cmpr swp p l r hi f s = Inr (r', hi', f', s') \<Longrightarrow> f \<le> f' \<and> r' + f' \<le> r + f \<and> (l \<le> r + 1 \<longrightarrow> l \<le> r' + 1)"
proof (induction r arbitrary: hi f s)
  case (Suc r)
  show ?case
  proof (cases "l \<le> Suc r")
    case True
    with Suc.prems obtain c where c: "cmpr (Suc r) p s = Inr c" by (auto elim!: rbind_InrE)
    show ?thesis
    proof (cases "c < 0")
      case False
      with Suc.prems True c obtain h1 f1 s1 where a: "absorb swp c (Suc r) hi f s = Inr (h1, f1, s1)"
        and "right_scan cmpr swp p l r h1 f1 s1 = Inr (r', hi', f', s')" by (auto elim!: rbind_InrE)
      with Suc.IH [of h1 f1 s1] absorb_fat [OF a] True show ?thesis by auto
    qed (use Suc.prems True c in auto)
  qed (use Suc.prems in auto)
qed auto

lemma left_scan_bound:
  "left_scan cmpr p l r c s = Inr (l', c') \<Longrightarrow> l \<le> r + 1 \<Longrightarrow> l \<le> l' \<and> l' \<le> r + 1"
proof (induction cmpr p l r c s rule: left_scan.induct)
  case (1 cmpr p l r c s)
  show ?case
  proof (cases "l \<le> r")
    case True
    with "1.prems" obtain c1 where c: "cmpr l p s = Inr c1"
      by (subst (asm) left_scan.simps) (auto elim!: rbind_InrE)
    show ?thesis
    proof (cases "0 \<le> c1")
      case False
      with c True "1.prems" have "left_scan cmpr p (l + 1) r c1 s = Inr (l', c')"
        by (subst (asm) left_scan.simps) simp
      with "1.IH" [OF True False] True show ?thesis by simp
    qed (use "1.prems" True c in \<open>subst (asm) left_scan.simps, auto\<close>)
  qed (use "1.prems" in \<open>subst (asm) left_scan.simps, auto\<close>)
qed

lemma part_loop_bound:
  "part_loop cmpr swp p l r c hi f s = Inr (r', f', s') \<Longrightarrow> l \<le> r + 1 \<Longrightarrow> 0 < l \<Longrightarrow>
   f \<le> f' \<and> r' + f' \<le> r + f \<and> l \<le> r' + 1"
proof (induction cmpr swp p l r c hi f s rule: part_loop.induct)
  case (1 cmpr swp p l r c hi f s)
  show ?case
  proof (cases "l \<le> r")
    case True
    with "1.prems"(1) obtain l1 c1 r1 h1 f1 s1 where ls: "left_scan cmpr p l r c s = Inr (l1, c1)"
      and rs: "right_scan cmpr swp p l1 r hi f s = Inr (r1, h1, f1, s1)"
      by (subst (asm) part_loop.simps) (auto elim!: rbind_InrE)
    note lb = left_scan_bound [OF ls "1.prems"(2)]
    note rb = right_scan_fat [OF rs]
    show ?thesis
    proof (cases "l1 < r1")
      case lt: True
      with "1.prems"(1) True ls rs obtain s2 h2 f2 s3 where
        sw: "swp l1 r1 s1 = Inr s2" and ab: "absorb swp c1 r1 h1 f1 s2 = Inr (h2, f2, s3)"
        and pl: "part_loop cmpr swp p (l1 + 1) (r1 - 1) c1 h2 f2 s3 = Inr (r', f', s')"
        by (subst (asm) part_loop.simps) (auto elim!: rbind_InrE)
      have "f2 \<le> f' \<and> r' + f' \<le> r1 - 1 + f2 \<and> l1 + 1 \<le> r' + 1"
        by (rule "1.IH" [OF True ls _ rs _ _ _ lt sw ab _ _ pl]) (use lt in auto)
      with lb rb absorb_fat [OF ab] lt show ?thesis by auto
    next
      case False
      with "1.prems"(1) True ls rs have "r' = r1 \<and> f' = f1"
        by (subst (asm) part_loop.simps) simp
      with lb rb show ?thesis by auto
    qed
  next
    case False
    then have "r' = r \<and> f' = f" using "1.prems"(1) by (subst (asm) part_loop.simps) simp
    with "1.prems"(2) show ?thesis by simp
  qed
qed

lemma Partition3_bound:
  "Partition3 cmpr swp First Last s = Inr (lp, rp, s') \<Longrightarrow> First < Last \<Longrightarrow> First \<le> lp \<and> lp \<le> rp \<and> rp \<le> Last"
  by (auto simp: Partition3_def Let_def elim!: rbind_InrE dest!: part_loop_bound split: prod.splits if_splits)

section \<open>Quicksort\<close>

definition QMIN :: nat where "QMIN = 9"

function QuickSort :: "(nat \<Rightarrow> nat \<Rightarrow> 's \<Rightarrow> fault + int) \<Rightarrow> (nat \<Rightarrow> nat \<Rightarrow> 's \<Rightarrow> fault + 's) \<Rightarrow> nat \<Rightarrow> nat
    \<Rightarrow> 's \<Rightarrow> fault + 's" where
  "QuickSort cmpr swp First Last s =
     (if First < Last
      then if Last - First < QMIN then InsertionSort cmpr swp First Last s
           else rbind (Partition3 cmpr swp First Last s) (\<lambda>(LeftPivot, RightPivot, s).
             if LeftPivot - First < Last - RightPivot
             then rbind (QuickSort cmpr swp First (LeftPivot - 1) s) (QuickSort cmpr swp (RightPivot + 1) Last)
             else rbind (QuickSort cmpr swp (RightPivot + 1) Last s) (QuickSort cmpr swp First (LeftPivot - 1)))
      else Inr s)"
  by pat_completeness auto
termination
proof (relation "measure (\<lambda>(_, _, f, l, _). l - f)", goal_cases)
  case (2 cmpr swp First Last s x lp y rp s')
  then show ?case using Partition3_bound [of cmpr swp First Last s lp rp s'] by auto
next
  case (3 cmpr swp First Last s x lp y rp s' a)
  then show ?case using Partition3_bound [of cmpr swp First Last s lp rp s'] by auto
next
  case (4 cmpr swp First Last s x lp y rp s')
  then show ?case using Partition3_bound [of cmpr swp First Last s lp rp s'] by auto
next
  case (5 cmpr swp First Last s x lp y rp s' a)
  then show ?case using Partition3_bound [of cmpr swp First Last s lp rp s'] by auto
qed simp

declare QuickSort.simps [simp del]

definition qsort :: "u8 list \<Rightarrow> nat \<Rightarrow> nat \<Rightarrow> (u8 list \<Rightarrow> u8 list \<Rightarrow> int) \<Rightarrow> fault + u8 list" where
  "qsort Base Num Width Compare = QuickSort (CMPR Compare Width) (SWAP Width) 1 Num Base"

section \<open>Binary search\<close>

text \<open>\<open>cmp\<close> compares the key with an element; \<open>base\<close> is the index of the first element left.\<close>

function bsearch_loop :: "('e \<Rightarrow> int) \<Rightarrow> 'e list \<Rightarrow> nat \<Rightarrow> nat \<Rightarrow> fault + nat option" where
  "bsearch_loop cmp xs base lim =
     (if lim = 0 then Inr None
      else let p = base + lim div 2 in
        if p < length xs
        then let cmpval = cmp (xs ! p) in
             if cmpval = 0 then Inr (Some p)
             else if 0 < cmpval then bsearch_loop cmp xs (p + 1) ((lim - 1) div 2)
             else bsearch_loop cmp xs base (lim div 2)
        else Inl OutOfBounds)"
  by pat_completeness auto
termination by (relation "measure (\<lambda>(_, _, _, lim). lim)") auto

declare bsearch_loop.simps [simp del]

text \<open>
  The count goes through an \<^verbatim>\<open>int\<close>; when that makes it negative, the first element looked at
  is before the array.
\<close>

definition bsearch :: "('e \<Rightarrow> int) \<Rightarrow> 'e list \<Rightarrow> fault + nat option" where
  "bsearch cmp xs =
     (let lim = sint (word_of_nat (length xs) :: u32)
      in if lim < 0 then Inl OutOfBounds else bsearch_loop cmp xs 0 (nat lim))"


end
