(* ===== verification/Qsort_Props.thy ===== *)
theory Qsort_Props
  imports Qsort
begin

text \<open>
  Correctness of \<^verbatim>\<open>qsort\<close> and \<^verbatim>\<open>bsearch\<close>. The sort is verified against an interface, the locale
  \<open>sort_array\<close>: an array whose elements can be compared and exchanged by number. The bytes with
  the source's \<^verbatim>\<open>CMPR\<close> and \<^verbatim>\<open>SWAP\<close> implement it for every element width except four.
\<close>

section \<open>Segments\<close>

text \<open>Elements are numbered from 1.\<close>

definition elem :: "'e list \<Rightarrow> nat \<Rightarrow> 'e" where
  "elem xs i = xs ! (i - 1)"

definition exch :: "nat \<Rightarrow> nat \<Rightarrow> 'e list \<Rightarrow> 'e list" where
  "exch i j xs = xs[i - 1 := elem xs j, j - 1 := elem xs i]"

text \<open>\<open>ys\<close> is a permutation of \<open>xs\<close> that only moves elements \<open>lo\<close> to \<open>hi\<close>.\<close>

definition perm_on :: "nat \<Rightarrow> nat \<Rightarrow> 'e list \<Rightarrow> 'e list \<Rightarrow> bool" where
  "perm_on lo hi xs ys \<longleftrightarrow> mset ys = mset xs \<and> (\<forall>i. 1 \<le> i \<longrightarrow> i < lo \<or> hi < i \<longrightarrow> elem ys i = elem xs i)"

definition sorted_on :: "('e \<Rightarrow> 'e \<Rightarrow> int) \<Rightarrow> nat \<Rightarrow> nat \<Rightarrow> 'e list \<Rightarrow> bool" where
  "sorted_on cmp lo hi xs \<longleftrightarrow> (\<forall>i j. lo \<le> i \<longrightarrow> i < j \<longrightarrow> j \<le> hi \<longrightarrow> cmp (elem xs i) (elem xs j) \<le> 0)"

lemma perm_on_refl [simp, intro]: "perm_on lo hi xs xs"
  by (simp add: perm_on_def)

lemma perm_on_trans:
  "perm_on lo hi xs ys \<Longrightarrow> perm_on lo' hi' ys zs \<Longrightarrow> l \<le> lo \<Longrightarrow> l \<le> lo' \<Longrightarrow> hi \<le> h \<Longrightarrow> hi' \<le> h \<Longrightarrow> perm_on l h xs zs"
  by (auto simp: perm_on_def)

lemma perm_on_length: "perm_on lo hi xs ys \<Longrightarrow> length ys = length xs"
  unfolding perm_on_def by (metis size_mset)

lemma perm_on_outside: "perm_on lo hi xs ys \<Longrightarrow> 1 \<le> i \<Longrightarrow> i < lo \<or> hi < i \<Longrightarrow> elem ys i = elem xs i"
  unfolding perm_on_def by blast

lemma perm_on_ball:
  assumes p: "perm_on lo hi xs ys" and lo: "1 \<le> lo" and hi: "hi \<le> length xs"
    and P: "\<And>i. lo \<le> i \<Longrightarrow> i \<le> hi \<Longrightarrow> P (elem xs i)" and i: "lo \<le> i" "i \<le> hi"
  shows "P (elem ys i)"
proof -
  let ?seg = "\<lambda>zs. take (hi - (lo - 1)) (drop (lo - 1) zs)"
  have len: "length ys = length xs" by (rule perm_on_length [OF p])
  have split: "zs = take (lo - 1) zs @ ?seg zs @ drop hi zs" for zs :: "'a list"
  proof -
    have "lo - 1 \<le> hi" using i lo by simp
    then have "drop hi zs = drop (hi - (lo - 1)) (drop (lo - 1) zs)" by simp
    then show ?thesis by (metis append_take_drop_id)
  qed
  have "take (lo - 1) ys = take (lo - 1) xs"
  proof (rule nth_equalityI)
    fix k assume "k < length (take (lo - 1) ys)"
    then show "take (lo - 1) ys ! k = take (lo - 1) xs ! k"
      using perm_on_outside [OF p, of "Suc k"] by (simp add: elem_def less_diff_conv)
  qed (simp add: len)
  moreover have "drop hi ys = drop hi xs"
  proof (rule nth_equalityI)
    fix k assume "k < length (drop hi ys)"
    then show "drop hi ys ! k = drop hi xs ! k"
      using perm_on_outside [OF p, of "Suc (hi + k)"] len by (simp add: elem_def)
  qed (simp add: len)
  moreover have "mset ys = mset xs" using p by (simp add: perm_on_def)
  ultimately have "mset (?seg ys) = mset (?seg xs)"
    by (metis (no_types, lifting) add_left_cancel add_right_cancel mset_append split)
  then have set: "set (?seg ys) = set (?seg xs)" by (rule mset_eq_setD)
  have "elem ys i \<in> set (?seg ys)"
  proof -
    have "elem ys i = ?seg ys ! (i - lo)" and "i - lo < length (?seg ys)"
      using i lo hi len by (simp_all add: elem_def)
    then show ?thesis by (simp only: nth_mem)
  qed
  then obtain k where "k < length (?seg xs)" "elem ys i = ?seg xs ! k"
    unfolding set by (metis in_set_conv_nth)
  then have "elem ys i = elem xs (lo + k)" "lo + k \<le> hi"
    using lo hi by (auto simp: elem_def)
  with P [of "lo + k"] show ?thesis by simp
qed

lemma exch_elem:
  assumes "1 \<le> i" "i \<le> length xs" "1 \<le> j" "j \<le> length xs" "1 \<le> k"
  shows "elem (exch i j xs) k = (if k = j then elem xs i else if k = i then elem xs j else elem xs k)"
  using assms by (auto simp: exch_def elem_def nth_list_update)

lemma exch_perm:
  assumes "lo \<le> i" "i \<le> hi" "lo \<le> j" "j \<le> hi" "1 \<le> lo" "hi \<le> length xs"
  shows "perm_on lo hi xs (exch i j xs)"
proof -
  have "mset (exch i j xs) = mset xs"
    using mset_swap [of "j - 1" xs "i - 1"] assms by (simp add: exch_def elem_def)
  then show ?thesis using assms by (auto simp: perm_on_def exch_elem)
qed

text \<open>A fact about all of a segment survives moves inside it or away from it.\<close>

lemma perm_on_keep:
  assumes "perm_on c d xs ys" and "1 \<le> c" "d \<le> length xs" and "c = a \<and> d = b \<or> d < a \<or> b < c" and "1 \<le> a"
    and "\<And>i. a \<le> i \<Longrightarrow> i \<le> b \<Longrightarrow> P (elem xs i)" and "a \<le> i" "i \<le> b"
  shows "P (elem ys i)"
proof (cases "c = a \<and> d = b")
  case True
  with perm_on_ball [OF assms(1-3), of P i] assms(6-8) show ?thesis by blast
next
  case False
  with assms have "elem ys i = elem xs i" by (intro perm_on_outside [OF assms(1)]) auto
  with assms show ?thesis by simp
qed

lemma sorted_on_keep:
  assumes "perm_on c d xs ys" and "d < a \<or> b < c" and "1 \<le> a" and "sorted_on cmp a b xs"
  shows "sorted_on cmp a b ys"
proof -
  have "elem ys i = elem xs i" if "a \<le> i" "i \<le> b" for i
    using that assms(2,3) by (intro perm_on_outside [OF assms(1)]) auto
  with assms(4) show ?thesis by (simp add: sorted_on_def)
qed

lemma sorted_on_fat:
  assumes pre: "total_preorder cmp" and s: "sorted_on cmp a (lp - 1) xs" "sorted_on cmp (rp + 1) b xs"
    and lo: "\<And>i. a \<le> i \<Longrightarrow> i < lp \<Longrightarrow> cmp (elem xs i) p < 0"
    and eq: "\<And>i. lp \<le> i \<Longrightarrow> i \<le> rp \<Longrightarrow> cmp (elem xs i) p = 0"
    and hi: "\<And>i. rp < i \<Longrightarrow> i \<le> b \<Longrightarrow> 0 < cmp (elem xs i) p"
  shows "sorted_on cmp a b xs"
  unfolding sorted_on_def
proof (intro allI impI)
  fix i j assume ij: "a \<le> i" "i < j" "j \<le> b"
  have "cmp (elem xs i) (elem xs j) \<le> 0" if "i \<le> rp" "lp \<le> j"
  proof -
    have "cmp (elem xs i) p \<le> 0" using lo [of i] eq [of i] ij that by (cases "i < lp") auto
    moreover have "cmp p (elem xs j) \<le> 0"
      using eq [of j] hi [of j] ij that total_preorder_sign(2) [OF pre, of p "elem xs j"] by (cases "j \<le> rp") auto
    ultimately show ?thesis by (rule total_preorder_trans [OF pre])
  qed
  moreover have "cmp (elem xs i) (elem xs j) \<le> 0" if "j < lp"
    using s(1) ij that unfolding sorted_on_def by simp
  moreover have "cmp (elem xs i) (elem xs j) \<le> 0" if "rp < i"
    using s(2) ij that unfolding sorted_on_def by simp
  ultimately show "cmp (elem xs i) (elem xs j) \<le> 0" by linarith
qed

section \<open>The interface and the sort\<close>

locale sort_array =
  fixes cmpr :: "nat \<Rightarrow> nat \<Rightarrow> 's \<Rightarrow> fault + int" and swp :: "nat \<Rightarrow> nat \<Rightarrow> 's \<Rightarrow> fault + 's"
    and ok :: "'s \<Rightarrow> bool" and elems :: "'s \<Rightarrow> 'e list" and cmp :: "'e \<Rightarrow> 'e \<Rightarrow> int"
  assumes cmpr_elems: "\<And>s i j. ok s \<Longrightarrow> 1 \<le> i \<Longrightarrow> i \<le> length (elems s) \<Longrightarrow> 1 \<le> j \<Longrightarrow> j \<le> length (elems s) \<Longrightarrow>
      cmpr i j s = Inr (cmp (elem (elems s) i) (elem (elems s) j))"
    and swp_elems: "\<And>s i j. ok s \<Longrightarrow> 1 \<le> i \<Longrightarrow> i \<le> length (elems s) \<Longrightarrow> 1 \<le> j \<Longrightarrow> j \<le> length (elems s) \<Longrightarrow> i \<noteq> j \<Longrightarrow>
      \<exists>t. swp i j s = Inr t \<and> ok t \<and> elems t = exch i j (elems s)"
begin

lemma swp_perm:
  assumes "ok s" "lo \<le> i" "i \<le> hi" "lo \<le> j" "j \<le> hi" "1 \<le> lo" "hi \<le> length (elems s)" "i \<noteq> j"
  obtains t where "swp i j s = Inr t" "ok t" "perm_on lo hi (elems s) (elems t)"
    "\<And>k. 1 \<le> k \<Longrightarrow> elem (elems t) k = (if k = j then elem (elems s) i else if k = i then elem (elems s) j else elem (elems s) k)"
proof -
  obtain t where t: "swp i j s = Inr t" "ok t" "elems t = exch i j (elems s)"
    using swp_elems [of s i j] assms by auto
  show ?thesis
    by (rule that [OF t(1,2)]) (use assms t(3) exch_perm [of lo i hi j "elems s"] in \<open>auto simp: exch_elem\<close>)
qed

lemma insert_back_sorted:
  assumes pre: "total_preorder cmp"
  shows "ok s \<Longrightarrow> 1 \<le> lo \<Longrightarrow> lo \<le> n \<Longrightarrow> n \<le> m \<Longrightarrow> m \<le> length (elems s) \<Longrightarrow>
    (\<And>i j. lo \<le> i \<Longrightarrow> i < j \<Longrightarrow> j \<le> m \<Longrightarrow> i \<noteq> n \<Longrightarrow> j \<noteq> n \<Longrightarrow> cmp (elem (elems s) i) (elem (elems s) j) \<le> 0) \<Longrightarrow>
    (\<And>j. n < j \<Longrightarrow> j \<le> m \<Longrightarrow> cmp (elem (elems s) n) (elem (elems s) j) \<le> 0) \<Longrightarrow>
    (\<And>i. 1 < lo \<Longrightarrow> lo \<le> i \<Longrightarrow> i \<le> m \<Longrightarrow> cmp (elem (elems s) (lo - 1)) (elem (elems s) i) \<le> 0) \<Longrightarrow>
    \<exists>t. insert_back cmpr swp n s = Inr t \<and> ok t \<and> perm_on lo m (elems s) (elems t) \<and> sorted_on cmp lo m (elems t)"
proof (induction n arbitrary: s)
  case (Suc n)
  let ?e = "elem (elems s)"
  note before = Suc.prems(6) and after = Suc.prems(7) and first = Suc.prems(8)
  have fin: "sorted_on cmp lo m (elems s)" if "Suc n = lo \<or> cmp (?e n) (?e (Suc n)) \<le> 0"
    unfolding sorted_on_def
  proof (intro allI impI)
    fix i j assume ij: "lo \<le> i" "i < j" "j \<le> m"
    consider "i \<noteq> Suc n" "j \<noteq> Suc n" | "i = Suc n" | "j = Suc n" "i = n" | "j = Suc n" "i < n" using ij by linarith
    then show "cmp (?e i) (?e j) \<le> 0"
    proof cases
      case 1 with before ij show ?thesis by blast
    next
      case 2 with after ij show ?thesis by blast
    next
      case 3 with that ij show ?thesis by auto
    next
      case 4
      with that ij have "cmp (?e n) (?e (Suc n)) \<le> 0" by auto
      moreover have "cmp (?e i) (?e n) \<le> 0" using before [of i n] 4 ij by simp
      ultimately show ?thesis using total_preorder_trans [OF pre] 4 by blast
    qed
  qed
  show ?case
  proof (cases "n = 0")
    case True
    with fin Suc.prems show ?thesis by (simp add: insert_back.simps)
  next
    case False
    have c: "cmpr n (Suc n) s = Inr (cmp (?e n) (?e (Suc n)))"
      using cmpr_elems [of s n "Suc n"] Suc.prems(1-5) False by simp
    show ?thesis
    proof (cases "cmp (?e n) (?e (Suc n)) \<le> 0")
      case True
      with c fin False Suc.prems(1) show ?thesis by (auto simp: insert_back.simps [of _ _ "Suc n"])
    next
      case gt: False
      have lo: "lo \<le> n"
      proof (rule ccontr)
        assume "\<not> lo \<le> n"
        then have "lo = Suc n" using Suc.prems by simp
        with first [of "Suc n"] gt False Suc.prems(4) show False by simp
      qed
      obtain t where t: "swp n (Suc n) s = Inr t" "ok t" "perm_on lo m (elems s) (elems t)"
        and e: "\<And>k. 1 \<le> k \<Longrightarrow> elem (elems t) k = (if k = Suc n then ?e n else if k = n then ?e (Suc n) else ?e k)"
        using swp_perm [of s lo n m "Suc n"] lo Suc.prems(1-5) by auto
      have rev: "cmp (?e (Suc n)) (?e n) \<le> 0" using gt total_preorder_sign(1) [OF pre, of "?e (Suc n)" "?e n"] by simp
      have "\<exists>t'. insert_back cmpr swp n t = Inr t' \<and> ok t' \<and> perm_on lo m (elems t) (elems t') \<and> sorted_on cmp lo m (elems t')"
      proof (rule Suc.IH)
        show "m \<le> length (elems t)" using perm_on_length [OF t(3)] Suc.prems(5) by simp
        show "cmp (elem (elems t) i) (elem (elems t) j) \<le> 0" if ij: "lo \<le> i" "i < j" "j \<le> m" "i \<noteq> n" "j \<noteq> n" for i j
        proof -
          consider "i = Suc n" | "j = Suc n" "i < n" | "i \<noteq> Suc n" "j \<noteq> Suc n" using ij by linarith
          then show ?thesis
            using ij lo Suc.prems(2) before [of n j] before [of i n] before [of i j] by cases (auto simp: e)
        qed
        show "cmp (elem (elems t) n) (elem (elems t) j) \<le> 0" if "n < j" "j \<le> m" for j
          using that rev after [of j] lo Suc.prems(2) by (auto simp: e)
        show "cmp (elem (elems t) (lo - 1)) (elem (elems t) i) \<le> 0" if "1 < lo" "lo \<le> i" "i \<le> m" for i
          using that first [of i] first [of n] first [of "Suc n"] lo Suc.prems(4) by (auto simp: e)
      qed (use t lo Suc.prems in auto)
      then obtain t' where t': "insert_back cmpr swp n t = Inr t'" "ok t'" "perm_on lo m (elems t) (elems t')"
        "sorted_on cmp lo m (elems t')" by blast
      have "insert_back cmpr swp (Suc n) s = Inr t'" using c gt t(1) t'(1) False by (subst insert_back.simps) simp
      with t' perm_on_trans [OF t(3) t'(3), of lo m] show ?thesis by auto
    qed
  qed
qed simp

lemma insertion_sorted:
  assumes pre: "total_preorder cmp"
  shows "ok s \<Longrightarrow> 1 \<le> lo \<Longrightarrow> lo < n \<Longrightarrow> n \<le> Suc m \<Longrightarrow> m \<le> length (elems s) \<Longrightarrow> sorted_on cmp lo (n - 1) (elems s) \<Longrightarrow>
    (\<And>i. 1 < lo \<Longrightarrow> lo \<le> i \<Longrightarrow> i \<le> m \<Longrightarrow> cmp (elem (elems s) (lo - 1)) (elem (elems s) i) \<le> 0) \<Longrightarrow>
    \<exists>t. insertion_loop cmpr swp n m s = Inr t \<and> ok t \<and> perm_on lo m (elems s) (elems t) \<and> sorted_on cmp lo m (elems t)"
proof (induction "Suc m - n" arbitrary: n s)
  case 0
  then have "n = Suc m" by simp
  with 0 show ?case by (auto simp: insertion_loop.simps)
next
  case (Suc k)
  note first = Suc.prems(7)
  have nm: "n \<le> m" using Suc.hyps(2) by simp
  have "\<exists>t. insert_back cmpr swp n s = Inr t \<and> ok t \<and> perm_on lo n (elems s) (elems t) \<and> sorted_on cmp lo n (elems t)"
  proof (rule insert_back_sorted [OF pre Suc.prems(1,2), of n n])
    show "cmp (elem (elems s) i) (elem (elems s) j) \<le> 0" if "lo \<le> i" "i < j" "j \<le> n" "i \<noteq> n" "j \<noteq> n" for i j
      using Suc.prems(6) that unfolding sorted_on_def by auto
    show "cmp (elem (elems s) (lo - 1)) (elem (elems s) i) \<le> 0" if "1 < lo" "lo \<le> i" "i \<le> n" for i
      using first that nm by simp
  qed (use Suc.prems nm in auto)
  then obtain t where t: "insert_back cmpr swp n s = Inr t" "ok t" "perm_on lo n (elems s) (elems t)" "sorted_on cmp lo n (elems t)"
    by blast
  have len: "length (elems t) = length (elems s)" by (rule perm_on_length [OF t(3)])
  have pm: "perm_on lo m (elems s) (elems t)" 
    by (rule perm_on_trans [OF t(3) perm_on_refl [of lo m]]) (use nm in auto)
  have "\<exists>t'. insertion_loop cmpr swp (Suc n) m t = Inr t' \<and> ok t' \<and> perm_on lo m (elems t) (elems t') \<and> sorted_on cmp lo m (elems t')"
  proof (rule Suc.hyps(1))
    show "cmp (elem (elems t) (lo - 1)) (elem (elems t) i) \<le> 0" if lo: "1 < lo" "lo \<le> i" "i \<le> m" for i
    proof -
      have "elem (elems t) (lo - 1) = elem (elems s) (lo - 1)" using perm_on_outside [OF pm, of "lo - 1"] lo by simp
      then show ?thesis
        using perm_on_ball [OF pm Suc.prems(2,5), of "\<lambda>x. cmp (elem (elems s) (lo - 1)) x \<le> 0" i] first lo by simp
    qed
  qed (use Suc.hyps(2) Suc.prems t len nm in auto)
  then obtain t' where t': "insertion_loop cmpr swp (Suc n) m t = Inr t'" "ok t'" "perm_on lo m (elems t) (elems t')" "sorted_on cmp lo m (elems t')"
    by blast
  have "insertion_loop cmpr swp n m s = Inr t'" using t(1) t'(1) nm by (subst insertion_loop.simps) simp
  with t' perm_on_trans [OF pm t'(3), of lo m] show ?case by auto
qed

text \<open>The state of a partition: less items, unseen items, equal items, greater items.\<close>

definition part_inv :: "nat \<Rightarrow> nat \<Rightarrow> nat \<Rightarrow> nat \<Rightarrow> nat option \<Rightarrow> nat \<Rightarrow> 's \<Rightarrow> bool" where
  "part_inv First Last l r hi f s \<longleftrightarrow>
     ok s \<and> 1 \<le> First \<and> First < l \<and> l \<le> r + 1 \<and> 1 \<le> f \<and> r + (f - 1) \<le> Last \<and> Last \<le> length (elems s) \<and>
     hi = (if f = 1 then None else Some (r + (f - 1))) \<and>
     (\<forall>i. First < i \<longrightarrow> i < l \<longrightarrow> cmp (elem (elems s) i) (elem (elems s) First) < 0) \<and>
     (\<forall>i. r < i \<longrightarrow> i \<le> r + (f - 1) \<longrightarrow> cmp (elem (elems s) i) (elem (elems s) First) = 0) \<and>
     (\<forall>i. r + (f - 1) < i \<longrightarrow> i \<le> Last \<longrightarrow> 0 < cmp (elem (elems s) i) (elem (elems s) First))"

lemma part_invD:
  assumes "part_inv First Last l r hi f s"
  shows "ok s" "1 \<le> First" "First < l" "l \<le> r + 1" "1 \<le> f" "r + (f - 1) \<le> Last" "Last \<le> length (elems s)"
    "hi = (if f = 1 then None else Some (r + (f - 1)))"
    "\<And>i. First < i \<Longrightarrow> i < l \<Longrightarrow> cmp (elem (elems s) i) (elem (elems s) First) < 0"
    "\<And>i. r < i \<Longrightarrow> i \<le> r + (f - 1) \<Longrightarrow> cmp (elem (elems s) i) (elem (elems s) First) = 0"
    "\<And>i. r + (f - 1) < i \<Longrightarrow> i \<le> Last \<Longrightarrow> 0 < cmp (elem (elems s) i) (elem (elems s) First)"
  using assms unfolding part_inv_def by blast+

lemma part_cmpr:
  "part_inv First Last l r hi f s \<Longrightarrow> 1 \<le> i \<Longrightarrow> i \<le> Last \<Longrightarrow>
   cmpr i First s = Inr (cmp (elem (elems s) i) (elem (elems s) First))"
  using cmpr_elems [of s i First] part_invD(1-7) [of First Last l r hi f s] by simp

lemma absorb_inv:
  assumes inv: "part_inv First Last l r hi f s" and r: "l \<le> r"
    and c: "0 \<le> c" "0 < c \<longleftrightarrow> 0 < cmp (elem (elems s) r) (elem (elems s) First)"
      "c = 0 \<longleftrightarrow> cmp (elem (elems s) r) (elem (elems s) First) = 0"
  obtains hi' f' t where "absorb swp c r hi f s = Inr (hi', f', t)" "part_inv First Last l (r - 1) hi' f' t"
    "perm_on (First + 1) Last (elems s) (elems t)" "\<And>k. 1 \<le> k \<Longrightarrow> k < r \<Longrightarrow> elem (elems t) k = elem (elems s) k"
proof (cases "0 < c")
  case eq: False
  then have c0: "c = 0" "cmp (elem (elems s) r) (elem (elems s) First) = 0" using c by auto
  note I = part_invD [OF inv]
  have "part_inv First Last l (r - 1) (Some (r + (f - 1))) (f + 1) s"
    unfolding part_inv_def
  proof (intro conjI allI impI)
    show "Some (r + (f - 1)) = (if f + 1 = 1 then None else Some (r - 1 + (f + 1 - 1)))" using I r by auto
    show "cmp (elem (elems s) i) (elem (elems s) First) = 0" if "r - 1 < i" "i \<le> r - 1 + (f + 1 - 1)" for i
      using I(10) [of i] c0 that I(3) r by (cases "i = r") auto
    show "0 < cmp (elem (elems s) i) (elem (elems s) First)" if "r - 1 + (f + 1 - 1) < i" "i \<le> Last" for i
      by (rule I(11)) (use that I(3,5) r in auto)
    show "cmp (elem (elems s) i) (elem (elems s) First) < 0" if "First < i" "i < l" for i by (rule I(9) [OF that])
  qed (use I(1-7) r in auto)
  moreover have "absorb swp c r hi f s = Inr (Some (r + (f - 1)), f + 1, s)"
    using c0 I(8) by (auto simp: absorb_def)
  ultimately show ?thesis using that by blast
next
  case gt: True
  note I = part_invD [OF inv]
  show ?thesis
  proof (cases "f = 1")
    case True
    with gt I(8) have "absorb swp c r hi f s = Inr (None, 1, s)" by (simp add: absorb_def)
    moreover have "part_inv First Last l (r - 1) None 1 s"
      unfolding part_inv_def
    proof (intro conjI allI impI)
      show "0 < cmp (elem (elems s) i) (elem (elems s) First)" if "r - 1 + (1 - 1) < i" "i \<le> Last" for i
        using I(11) [of i] c gt that True I(3) r by (cases "i = r") auto
      show "cmp (elem (elems s) i) (elem (elems s) First) < 0" if "First < i" "i < l" for i by (rule I(9) [OF that])
    qed (use I(1-7) r in auto)
    ultimately show ?thesis using that by blast
  next
    case False
    let ?h = "r + (f - 1)"
    have h: "r < ?h" "?h \<le> Last" using False I(5,6) by auto
    obtain t where t: "swp ?h r s = Inr t" "ok t" "perm_on (First + 1) Last (elems s) (elems t)"
      and e: "\<And>k. 1 \<le> k \<Longrightarrow> elem (elems t) k = (if k = r then elem (elems s) ?h else if k = ?h then elem (elems s) r else elem (elems s) k)"
      using swp_perm [of s "First + 1" ?h Last r] h I r by auto
    have p: "elem (elems t) First = elem (elems s) First" using e [of First] h I r by auto
    have len: "length (elems t) = length (elems s)" by (rule perm_on_length [OF t(3)])
    have eq: "cmp (elem (elems s) ?h) (elem (elems s) First) = 0" using I(10) [of ?h] h by simp
    have inv': "part_inv First Last l (r - 1) (Some (?h - 1)) f t"
      unfolding part_inv_def p
    proof (intro conjI allI impI)
      show "Some (?h - 1) = (if f = 1 then None else Some (r - 1 + (f - 1)))" using False r I by auto
      show "cmp (elem (elems t) i) (elem (elems s) First) < 0" if "First < i" "i < l" for i
        using I(9) [OF that] that r h e [of i] by auto
      show "cmp (elem (elems t) i) (elem (elems s) First) = 0" if "r - 1 < i" "i \<le> r - 1 + (f - 1)" for i
        using eq I(10) [of i] that r h e [of i] I(3) by (cases "i = r") auto
      show "0 < cmp (elem (elems t) i) (elem (elems s) First)" if "r - 1 + (f - 1) < i" "i \<le> Last" for i
        using I(11) [of i] that c gt r h e [of i] I(3) by (cases "i = ?h") auto
    qed (use I(1-7) t(2) len r h in auto)
    have "absorb swp c r hi f s = Inr (Some (?h - 1), f, t)"
      using gt t(1) False I(8) by (simp add: absorb_def)
    from this inv' t(3) show ?thesis by (rule that) (use e h in auto)
  qed
qed

lemma left_scan_inv:
  "part_inv First Last l r hi f s \<Longrightarrow>
   \<exists>l' c'. left_scan cmpr First l r c s = Inr (l', c') \<and> part_inv First Last l' r hi f s \<and>
     (l' \<le> r \<longrightarrow> c' = cmp (elem (elems s) l') (elem (elems s) First) \<and> 0 \<le> c')"
proof (induction "Suc r - l" arbitrary: l c)
  case 0
  then show ?case by (auto simp: left_scan.simps)
next
  case (Suc k)
  let ?c = "cmp (elem (elems s) l) (elem (elems s) First)"
  note I = part_invD [OF Suc.prems]
  have l: "l \<le> r" using Suc.hyps(2) by simp
  then have c: "cmpr l First s = Inr ?c" using part_cmpr [OF Suc.prems, of l] I(3,6) by simp
  show ?case
  proof (cases "0 \<le> ?c")
    case True
    with c l Suc.prems show ?thesis by (subst left_scan.simps) auto
  next
    case False
    have "cmp (elem (elems s) i) (elem (elems s) First) < 0" if "First < i" "i < l + 1" for i
      using I(9) [of i] that False by (cases "i = l") auto
    then have "part_inv First Last (l + 1) r hi f s"
      unfolding part_inv_def using I(1-8,10,11) l by auto
    from Suc.hyps(1) [OF _ this, of ?c] Suc.hyps(2) have
      "\<exists>l' c'. left_scan cmpr First (l + 1) r ?c s = Inr (l', c') \<and> part_inv First Last l' r hi f s \<and>
        (l' \<le> r \<longrightarrow> c' = cmp (elem (elems s) l') (elem (elems s) First) \<and> 0 \<le> c')" by simp
    moreover have "left_scan cmpr First l r c s = left_scan cmpr First (l + 1) r ?c s"
      using c l False by (subst left_scan.simps) simp
    ultimately show ?thesis by simp
  qed
qed

lemma right_scan_inv:
  "part_inv First Last l r hi f s \<Longrightarrow>
   \<exists>r' hi' f' t. right_scan cmpr swp First l r hi f s = Inr (r', hi', f', t) \<and> part_inv First Last l r' hi' f' t \<and>
     r' \<le> r \<and> perm_on (First + 1) Last (elems s) (elems t) \<and>
     (l \<le> r' \<longrightarrow> cmp (elem (elems t) r') (elem (elems t) First) < 0) \<and> (\<forall>k. 1 \<le> k \<longrightarrow> k \<le> r' \<longrightarrow> elem (elems t) k = elem (elems s) k)"
proof (induction r arbitrary: hi f s)
  case 0
  then show ?case using part_invD(3) [OF 0] by auto
next
  case (Suc r)
  let ?c = "cmp (elem (elems s) (Suc r)) (elem (elems s) First)"
  note I = part_invD [OF Suc.prems]
  show ?case
  proof (cases "l \<le> Suc r")
    case False
    with Suc.prems show ?thesis by auto
  next
    case l: True
    have c: "cmpr (Suc r) First s = Inr ?c" using part_cmpr [OF Suc.prems, of "Suc r"] I(6) by simp
    show ?thesis
    proof (cases "?c < 0")
      case True
      with c l Suc.prems show ?thesis by auto
    next
      case False
      obtain hi' f' t where a: "absorb swp ?c (Suc r) hi f s = Inr (hi', f', t)" and inv: "part_inv First Last l r hi' f' t"
        and p: "perm_on (First + 1) Last (elems s) (elems t)"
        and e: "\<And>k. 1 \<le> k \<Longrightarrow> k < Suc r \<Longrightarrow> elem (elems t) k = elem (elems s) k"
        using absorb_inv [OF Suc.prems l, of ?c] False by auto
      from Suc.IH [OF inv] obtain r' hi'' f'' u where
        u: "right_scan cmpr swp First l r hi' f' t = Inr (r', hi'', f'', u)" "part_inv First Last l r' hi'' f'' u" "r' \<le> r"
          "perm_on (First + 1) Last (elems t) (elems u)" "l \<le> r' \<longrightarrow> cmp (elem (elems u) r') (elem (elems u) First) < 0"
        and e': "\<forall>k. 1 \<le> k \<longrightarrow> k \<le> r' \<longrightarrow> elem (elems u) k = elem (elems t) k" by blast
      have "right_scan cmpr swp First l (Suc r) hi f s = Inr (r', hi'', f'', u)" using c l False a u(1) by simp
      moreover have "perm_on (First + 1) Last (elems s) (elems u)" by (rule perm_on_trans [OF p u(4)]) auto
      moreover have "\<forall>k. 1 \<le> k \<longrightarrow> k \<le> r' \<longrightarrow> elem (elems u) k = elem (elems s) k" using e e' u(3) by simp
      ultimately show ?thesis using u(2,3,5) le_SucI by blast
    qed
  qed
qed

lemma part_loop_inv:
  "part_inv First Last l r hi f s \<Longrightarrow>
   \<exists>r' hi' f' t. part_loop cmpr swp First l r c hi f s = Inr (r', f', t) \<and> part_inv First Last (r' + 1) r' hi' f' t \<and>
     perm_on (First + 1) Last (elems s) (elems t)"
proof (induction "Suc r - l" arbitrary: l r c hi f s rule: less_induct)
  case less
  show ?case
  proof (cases "l \<le> r")
    case False
    with part_invD(4) [OF less.prems] have "l = r + 1" by simp
    with less.prems show ?thesis by (auto simp: part_loop.simps)
  next
    case True
    from left_scan_inv [OF less.prems, of c] obtain l1 c1 where ls: "left_scan cmpr First l r c s = Inr (l1, c1)"
      and inv1: "part_inv First Last l1 r hi f s"
      and c1: "l1 \<le> r \<longrightarrow> c1 = cmp (elem (elems s) l1) (elem (elems s) First) \<and> 0 \<le> c1" by blast
    from right_scan_inv [OF inv1] obtain r1 h1 f1 t where rs: "right_scan cmpr swp First l1 r hi f s = Inr (r1, h1, f1, t)"
      and inv2: "part_inv First Last l1 r1 h1 f1 t" and r1: "r1 \<le> r" and p: "perm_on (First + 1) Last (elems s) (elems t)"
      and lt: "l1 \<le> r1 \<longrightarrow> cmp (elem (elems t) r1) (elem (elems t) First) < 0"
      and same: "\<forall>k. 1 \<le> k \<longrightarrow> k \<le> r1 \<longrightarrow> elem (elems t) k = elem (elems s) k" by blast
    note I = part_invD [OF inv2]
    have pv: "elem (elems t) First = elem (elems s) First" using perm_on_outside [OF p, of First] I(2) by simp
    show ?thesis
    proof (cases "l1 < r1")
      case False
      have "l1 \<noteq> r1" using c1 lt same pv r1 I(2,3) by auto
      with False I(4) have "l1 = r1 + 1" by simp
      with inv2 have "part_inv First Last (r1 + 1) r1 h1 f1 t" by simp
      moreover have "part_loop cmpr swp First l r c hi f s = Inr (r1, f1, t)"
        using True ls rs False by (subst part_loop.simps) simp
      ultimately show ?thesis using p by blast
    next
      case lr: True
      obtain u where u: "swp l1 r1 t = Inr u" "ok u" "perm_on (First + 1) Last (elems t) (elems u)"
        and e: "\<And>k. 1 \<le> k \<Longrightarrow> elem (elems u) k = (if k = r1 then elem (elems t) l1 else if k = l1 then elem (elems t) r1 else elem (elems t) k)"
        using swp_perm [of t "First + 1" l1 Last r1] lr I(1-7) by auto
      have pu: "elem (elems u) First = elem (elems t) First" using e [of First] I(2,3) lr by simp
      have len: "length (elems u) = length (elems t)" by (rule perm_on_length [OF u(3)])
      have inv3: "part_inv First Last (l1 + 1) r1 h1 f1 u"
        unfolding part_inv_def pu
      proof (intro conjI allI impI)
        show "cmp (elem (elems u) i) (elem (elems t) First) < 0" if "First < i" "i < l1 + 1" for i
          using I(9) [of i] lt that lr e [of i] by (cases "i = l1") auto
        show "cmp (elem (elems u) i) (elem (elems t) First) = 0" if "r1 < i" "i \<le> r1 + (f1 - 1)" for i
          using I(10) [of i] that lr e [of i] by auto
        show "0 < cmp (elem (elems u) i) (elem (elems t) First)" if "r1 + (f1 - 1) < i" "i \<le> Last" for i
          using I(11) [of i] that lr e [of i] by auto
      qed (use I(1-8) u(2) len lr in auto)
      have at: "elem (elems u) r1 = elem (elems s) l1" using e [of r1] same I(2,3) lr by simp
      obtain h2 f2 v where a: "absorb swp c1 r1 h1 f1 u = Inr (h2, f2, v)" and inv4: "part_inv First Last (l1 + 1) (r1 - 1) h2 f2 v"
        and pv': "perm_on (First + 1) Last (elems u) (elems v)"
        by (rule absorb_inv [OF inv3, of c1]) (use lr c1 r1 at pu pv in auto)
      have "Suc (r1 - 1) - (l1 + 1) < Suc r - l" using left_scan_le [OF ls] lr r1 by simp
      from less.hyps [OF this inv4, of c1] obtain r' hi' f' z where
        z: "part_loop cmpr swp First (l1 + 1) (r1 - 1) c1 h2 f2 v = Inr (r', f', z)" "part_inv First Last (r' + 1) r' hi' f' z"
          "perm_on (First + 1) Last (elems v) (elems z)" by blast
      have "part_loop cmpr swp First l r c hi f s = Inr (r', f', z)"
        using True ls rs lr u(1) a z(1) by (subst part_loop.simps) simp
      moreover have "perm_on (First + 1) Last (elems s) (elems z)"
        by (rule perm_on_trans [OF p perm_on_trans [OF u(3) perm_on_trans [OF pv' z(3), of "First + 1" Last], of "First + 1" Last]]) auto
      ultimately show ?thesis using z(2) by blast
    qed
  qed
qed

lemma get_pivot:
  assumes "ok s" "1 \<le> a" "a \<le> length (elems s)" "1 \<le> b" "b \<le> length (elems s)" "1 \<le> c" "c \<le> length (elems s)"
  obtains x where "GET_PIVOT_ADDR cmpr a b c s = Inr x" "x \<in> {a, b, c}"
proof -
  have "\<exists>x. GET_PIVOT_ADDR cmpr a b c s = Inr x \<and> x \<in> {a, b, c}"
    using assms by (auto simp: GET_PIVOT_ADDR_def cmpr_elems)
  then show ?thesis using that by blast
qed

lemma maybe_swp:
  assumes "ok s" "lo \<le> i" "i \<le> hi" "lo \<le> j" "j \<le> hi" "1 \<le> lo" "hi \<le> length (elems s)"
  obtains t where "(if i \<noteq> j then swp i j s else Inr s) = Inr t" "ok t" "perm_on lo hi (elems s) (elems t)"
    "\<And>k. 1 \<le> k \<Longrightarrow> elem (elems t) k = (if k = j then elem (elems s) i else if k = i then elem (elems s) j else elem (elems s) k)"
proof (cases "i = j")
  case True
  show ?thesis by (rule that [of s]) (use True assms in auto)
next
  case False
  obtain t where "swp i j s = Inr t" "ok t" "perm_on lo hi (elems s) (elems t)"
    "\<And>k. 1 \<le> k \<Longrightarrow> elem (elems t) k = (if k = j then elem (elems s) i else if k = i then elem (elems s) j else elem (elems s) k)"
    using swp_perm [OF assms False] by blast
  with False show ?thesis by (intro that [of t]) auto
qed

lemma Partition3_spec:
  assumes pre: "total_preorder cmp" and ok: "ok s" and seg: "1 \<le> First" "First < Last" "Last \<le> length (elems s)"
  obtains lp rp t p where "Partition3 cmpr swp First Last s = Inr (lp, rp, t)" "ok t" "perm_on First Last (elems s) (elems t)"
    "First \<le> lp" "lp \<le> rp" "rp \<le> Last"
    "\<And>i. First \<le> i \<Longrightarrow> i < lp \<Longrightarrow> cmp (elem (elems t) i) p < 0"
    "\<And>i. lp \<le> i \<Longrightarrow> i \<le> rp \<Longrightarrow> cmp (elem (elems t) i) p = 0"
    "\<And>i. rp < i \<Longrightarrow> i \<le> Last \<Longrightarrow> 0 < cmp (elem (elems t) i) p"
proof -
  define Mid where "Mid = (First + Last + 1) div 2"
  have mid: "First < Mid" "Mid \<le> Last" using seg unfolding Mid_def by auto
  obtain x where x: "GET_PIVOT_ADDR cmpr ((First + Mid) div 2) Mid ((Mid + Last) div 2) s = Inr x"
    "x \<in> {(First + Mid) div 2, Mid, (Mid + Last) div 2}"
    by (rule get_pivot [OF ok, of "(First + Mid) div 2" Mid "(Mid + Last) div 2"]) (use mid seg in auto)
  have xr: "First \<le> x" "x \<le> Last" using x(2) mid by auto
  obtain s1 where s1: "(if First \<noteq> x then swp First x s else Inr s) = Inr s1" "ok s1" "perm_on First Last (elems s) (elems s1)"
    using maybe_swp [OF ok, of First First Last x] xr seg by auto
  have len1: "length (elems s1) = length (elems s)" by (rule perm_on_length [OF s1(3)])
  have "part_inv First Last (First + 1) Last None 1 s1" unfolding part_inv_def using s1(2) seg len1 by auto
  from part_loop_inv [OF this, of 0] obtain r hi f s2 where s2: "part_loop cmpr swp First (First + 1) Last 0 None 1 s1 = Inr (r, f, s2)"
    and inv: "part_inv First Last (r + 1) r hi f s2" and p2: "perm_on (First + 1) Last (elems s1) (elems s2)" by blast
  note I = part_invD [OF inv]
  obtain t where t: "(if First \<noteq> r then swp First r s2 else Inr s2) = Inr t" "ok t" "perm_on First Last (elems s2) (elems t)"
    and e: "\<And>k. 1 \<le> k \<Longrightarrow> elem (elems t) k = (if k = r then elem (elems s2) First else if k = First then elem (elems s2) r else elem (elems s2) k)"
    using maybe_swp [OF I(1), of First First Last r] I(2-7) by auto
  show ?thesis
  proof (rule that [of r "r + (f - 1)" t "elem (elems s2) First"])
    show "Partition3 cmpr swp First Last s = Inr (r, r + (f - 1), t)"
      unfolding Partition3_def Let_def Mid_def [symmetric] using x(1) s1(1) s2 t(1) by simp
    show "perm_on First Last (elems s) (elems t)"
      by (rule perm_on_trans [OF s1(3) perm_on_trans [OF p2 t(3), of First Last]]) auto
    show "cmp (elem (elems t) i) (elem (elems s2) First) < 0" if "First \<le> i" "i < r" for i
      using I(9) [of i] I(9) [of r] that I(2) e [of i] by (cases "i = First") auto
    show "cmp (elem (elems t) i) (elem (elems s2) First) = 0" if "r \<le> i" "i \<le> r + (f - 1)" for i
      using I(10) [of i] that I(2,3) e [of i] total_preorder_sign(3) [OF pre] by (cases "i = r") auto
    show "0 < cmp (elem (elems t) i) (elem (elems s2) First)" if "r + (f - 1) < i" "i \<le> Last" for i
      using I(11) [of i] that I(2,3) e [of i] by auto
  qed (use I t in auto)
qed

lemma QuickSort_sorted:
  assumes pre: "total_preorder cmp"
  shows "ok s \<Longrightarrow> 1 \<le> First \<Longrightarrow> Last \<le> length (elems s) \<Longrightarrow>
    (\<And>i. 1 < First \<Longrightarrow> First \<le> i \<Longrightarrow> i \<le> Last \<Longrightarrow> cmp (elem (elems s) (First - 1)) (elem (elems s) i) \<le> 0) \<Longrightarrow>
    \<exists>t. QuickSort cmpr swp First Last s = Inr t \<and> ok t \<and> perm_on First Last (elems s) (elems t) \<and> sorted_on cmp First Last (elems t)"
proof (induction "Last - First" arbitrary: First Last s rule: less_induct)
  case less
  note first = less.prems(4)
  consider "\<not> First < Last" | "First < Last" "Last - First < QMIN" | "First < Last" "\<not> Last - First < QMIN" by blast
  then show ?case
  proof cases
    case 1
    with less.prems(1) show ?thesis by (auto simp: QuickSort.simps sorted_on_def)
  next
    case 2
    have "\<exists>t. insertion_loop cmpr swp (First + 1) Last s = Inr t \<and> ok t \<and> perm_on First Last (elems s) (elems t) \<and> sorted_on cmp First Last (elems t)"
      by (rule insertion_sorted [OF pre less.prems(1,2)]) (use 2 less.prems(3) first in \<open>auto simp: sorted_on_def\<close>)
    with 2 show ?thesis by (simp add: QuickSort.simps InsertionSort_def)
  next
    case 3
    obtain lp rp t p where P: "Partition3 cmpr swp First Last s = Inr (lp, rp, t)" "ok t" "perm_on First Last (elems s) (elems t)"
      and b: "First \<le> lp" "lp \<le> rp" "rp \<le> Last"
      and lo: "\<And>i. First \<le> i \<Longrightarrow> i < lp \<Longrightarrow> cmp (elem (elems t) i) p < 0"
      and eq: "\<And>i. lp \<le> i \<Longrightarrow> i \<le> rp \<Longrightarrow> cmp (elem (elems t) i) p = 0"
      and hi: "\<And>i. rp < i \<Longrightarrow> i \<le> Last \<Longrightarrow> 0 < cmp (elem (elems t) i) p"
      using Partition3_spec [OF pre less.prems(1,2) 3(1) less.prems(3)] by blast
    have len: "length (elems t) = length (elems s)" by (rule perm_on_length [OF P(3)])
    have left: "\<exists>v. QuickSort cmpr swp First (lp - 1) u = Inr v \<and> ok v \<and> perm_on First (lp - 1) (elems u) (elems v) \<and> sorted_on cmp First (lp - 1) (elems v)"
      if u: "ok u" "perm_on (rp + 1) Last (elems t) (elems u)" for u
    proof (rule less.hyps)
      show "cmp (elem (elems u) (First - 1)) (elem (elems u) i) \<le> 0" if i: "1 < First" "First \<le> i" "i \<le> lp - 1" for i
      proof -
        have "1 \<le> First - 1" "First - 1 < rp + 1" "First - 1 < First" using i b by auto
        then have "elem (elems u) (First - 1) = elem (elems s) (First - 1)"
          using perm_on_outside [OF u(2), of "First - 1"] perm_on_outside [OF P(3), of "First - 1"] i b by simp
        moreover have "i < rp + 1" using i b by auto
        then have "elem (elems u) i = elem (elems t) i" using perm_on_outside [OF u(2), of i] i by simp
        moreover have "cmp (elem (elems s) (First - 1)) (elem (elems t) i) \<le> 0"
          using perm_on_ball [OF P(3) less.prems(2,3), of "\<lambda>x. cmp (elem (elems s) (First - 1)) x \<le> 0" i] first i b by simp
        ultimately show ?thesis by simp
      qed
    qed (use 3 b less.prems(2,3) u len perm_on_length [OF u(2)] in auto)
    have right: "\<exists>v. QuickSort cmpr swp (rp + 1) Last u = Inr v \<and> ok v \<and> perm_on (rp + 1) Last (elems u) (elems v) \<and> sorted_on cmp (rp + 1) Last (elems v)"
      if u: "ok u" "perm_on First (lp - 1) (elems t) (elems u)" for u
    proof (rule less.hyps)
      show "cmp (elem (elems u) (rp + 1 - 1)) (elem (elems u) i) \<le> 0" if i: "rp + 1 \<le> i" "i \<le> Last" for i
      proof -
        have "elem (elems u) rp = elem (elems t) rp" "elem (elems u) i = elem (elems t) i"
          using perm_on_outside [OF u(2), of rp] perm_on_outside [OF u(2), of i] i b less.prems(2) by auto
        moreover have "cmp (elem (elems t) rp) p \<le> 0" using eq [of rp] b by simp
        moreover have "cmp p (elem (elems t) i) \<le> 0"
          using hi [of i] i total_preorder_sign(2) [OF pre, of p "elem (elems t) i"] by simp
        ultimately show ?thesis using total_preorder_trans [OF pre] by simp
      qed
    qed (use 3 b less.prems(2,3) u len perm_on_length [OF u(2)] in auto)
    have len': "lp - 1 \<le> length (elems t)" "Last \<le> length (elems t)" using len less.prems(3) b by auto
    have fin: "perm_on First Last (elems s) (elems v) \<and> sorted_on cmp First Last (elems v)"
      if p: "perm_on c d (elems t) (elems u)" "perm_on c' d' (elems u) (elems v)"
        and seg: "c = First \<and> d = lp - 1 \<and> c' = rp + 1 \<and> d' = Last \<or> c' = First \<and> d' = lp - 1 \<and> c = rp + 1 \<and> d = Last"
        and srt: "sorted_on cmp First (lp - 1) (elems v)" "sorted_on cmp (rp + 1) Last (elems v)" for u v c d c' d'
    proof
      have sz: "length (elems u) = length (elems t)" by (rule perm_on_length [OF p(1)])
      have c: "1 \<le> c" "1 \<le> c'" "d \<le> length (elems t)" "d' \<le> length (elems u)" using seg less.prems(2) len' sz by auto
      show "perm_on First Last (elems s) (elems v)"
        by (rule perm_on_trans [OF P(3) perm_on_trans [OF p, of First Last]]) (use seg b in auto)
      have keep: "Q (elem (elems v) i)"
        if q: "\<And>i. x \<le> i \<Longrightarrow> i \<le> y \<Longrightarrow> Q (elem (elems t) i)" "x \<le> i" "i \<le> y" "1 \<le> x" "x \<le> y"
          and xy: "x = First \<and> y = lp - 1 \<or> x = lp \<and> y = rp \<or> x = rp + 1 \<and> y = Last" for Q x y i
      proof -
        have dj: "c = x \<and> d = y \<or> d < x \<or> y < c" "c' = x \<and> d' = y \<or> d' < x \<or> y < c'" using xy seg b q(4,5) by auto
        have "Q (elem (elems u) j)" if "x \<le> j" "j \<le> y" for j
          using perm_on_keep [OF p(1) c(1,3) dj(1) q(4), of Q j] q(1) that by blast
        then show ?thesis using perm_on_keep [OF p(2) c(2,4) dj(2) q(4), of Q i] q(2,3) by blast
      qed
      show "sorted_on cmp First Last (elems v)"
      proof (rule sorted_on_fat [OF pre srt])
        show "cmp (elem (elems v) i) p < 0" if "First \<le> i" "i < lp" for i
          by (rule keep [of First "lp - 1"]) (use lo that less.prems(2) in auto)
        show "cmp (elem (elems v) i) p = 0" if "lp \<le> i" "i \<le> rp" for i
          by (rule keep [of lp rp]) (use eq that b less.prems(2) in auto)
        show "0 < cmp (elem (elems v) i) p" if "rp < i" "i \<le> Last" for i
          by (rule keep [of "rp + 1" Last]) (use hi that in auto)
      qed
    qed
    show ?thesis
    proof (cases "lp - First < Last - rp")
      case True
      obtain u where u: "QuickSort cmpr swp First (lp - 1) t = Inr u" "ok u" "perm_on First (lp - 1) (elems t) (elems u)"
        "sorted_on cmp First (lp - 1) (elems u)" using left [OF P(2) perm_on_refl] by blast
      obtain v where v: "QuickSort cmpr swp (rp + 1) Last u = Inr v" "ok v" "perm_on (rp + 1) Last (elems u) (elems v)"
        "sorted_on cmp (rp + 1) Last (elems v)" using right [OF u(2,3)] by blast
      have "sorted_on cmp First (lp - 1) (elems v)"
        by (rule sorted_on_keep [OF v(3) _ less.prems(2) u(4)]) (use b in auto)
      from fin [OF u(3) v(3) _ this v(4)] P(1) u(1) v(1,2) 3 True show ?thesis by (simp add: QuickSort.simps [of _ _ First Last s])
    next
      case False
      obtain u where u: "QuickSort cmpr swp (rp + 1) Last t = Inr u" "ok u" "perm_on (rp + 1) Last (elems t) (elems u)"
        "sorted_on cmp (rp + 1) Last (elems u)" using right [OF P(2) perm_on_refl] by blast
      obtain v where v: "QuickSort cmpr swp First (lp - 1) u = Inr v" "ok v" "perm_on First (lp - 1) (elems u) (elems v)"
        "sorted_on cmp First (lp - 1) (elems v)" using left [OF u(2,3)] by blast
      have "sorted_on cmp (rp + 1) Last (elems v)"
        by (rule sorted_on_keep [OF v(3) _ _ u(4)]) (use b in auto)
      from fin [OF u(3) v(3) _ v(4) this] P(1) u(1) v(1,2) 3 False show ?thesis by (simp add: QuickSort.simps [of _ _ First Last s])
    qed
  qed
qed

end

section \<open>Bytes implement the interface\<close>

definition width_ok :: "nat \<Rightarrow> bool" where
  "width_ok w \<longleftrightarrow> 0 < w \<and> w < 2 ^ 32 \<and> w \<noteq> 4"

text \<open>The elements of \<open>w\<close> bytes that the bytes hold.\<close>

definition elems_of :: "nat \<Rightarrow> u8 list \<Rightarrow> u8 list list" where
  "elems_of w b = map (\<lambda>i. take w (drop (i * w) b)) [0..<length b div w]"

definition xchg :: "nat \<Rightarrow> nat \<Rightarrow> nat \<Rightarrow> u8 list \<Rightarrow> u8 list" where
  "xchg k p q b = map (\<lambda>x. if p \<le> x \<and> x < p + k then b ! (q + (x - p))
     else if q \<le> x \<and> x < q + k then b ! (p + (x - q)) else b ! x) [0..<length b]"

lemma xchg_length [simp]: "length (xchg k p q b) = length b"
  by (simp add: xchg_def)

lemma xchg_nth:
  "x < length b \<Longrightarrow> xchg k p q b ! x = (if p \<le> x \<and> x < p + k then b ! (q + (x - p))
     else if q \<le> x \<and> x < q + k then b ! (p + (x - q)) else b ! x)"
  by (simp add: xchg_def)

lemma splice_nth:
  "p + length v \<le> length b \<Longrightarrow> x < length b \<Longrightarrow>
   (take p b @ v @ drop (p + length v) b) ! x = (if p \<le> x \<and> x < p + length v then v ! (x - p) else b ! x)"
  by (auto simp: nth_append)

lemma xfer_xchg:
  assumes k: "p + k \<le> length b" "q + k \<le> length b" and d: "p + k \<le> q \<or> q + k \<le> p"
  shows "xfer k p q b = Inr (xchg k p q b)"
proof -
  define v t where "v = take k (drop q b)" and "t = take k (drop p b)"
  define c where "c = take p b @ v @ drop (p + length v) b"
  have len: "length v = k" "length t = k" "length c = length b" using k by (simp_all add: v_def t_def c_def)
  have "take q c @ t @ drop (q + length t) c = xchg k p q b" (is "?l = _")
  proof (rule nth_equalityI)
    fix x assume "x < length ?l"
    then have x: "x < length b" using len k by simp
    have "?l ! x = (if q \<le> x \<and> x < q + k then t ! (x - q) else c ! x)" using splice_nth [of q t c x] len k x by simp
    moreover have "c ! x = (if p \<le> x \<and> x < p + k then v ! (x - p) else b ! x)"
      using splice_nth [of p v b x] len k x by (simp add: c_def)
    moreover have "q \<le> x \<Longrightarrow> x < q + k \<Longrightarrow> t ! (x - q) = b ! (p + (x - q))" using k by (simp add: t_def)
    moreover have "p \<le> x \<Longrightarrow> x < p + k \<Longrightarrow> v ! (x - p) = b ! (q + (x - p))" using k by (simp add: v_def)
    moreover have "\<not> (p \<le> x \<and> x < p + k \<and> q \<le> x \<and> x < q + k)" using d by linarith
    ultimately show "?l ! x = xchg k p q b ! x"
      using x by (cases "p \<le> x \<and> x < p + k"; cases "q \<le> x \<and> x < q + k") (auto simp: xchg_def)
  qed (use len k in simp)
  moreover have "store_bytes v p b = Inr c" "store_bytes t q c = Inr (take q c @ t @ drop (q + length t) c)"
    unfolding store_bytes_def c_def [symmetric] using k len by simp_all
  moreover have "load_bytes k p b = Inr t" "load_bytes k q b = Inr v" using k by (simp_all add: load_bytes_def v_def t_def)
  ultimately show ?thesis by (simp add: xfer_def)
qed

lemma xchg_xchg:
  assumes "c \<le> n" "p + n \<le> length b" "q + n \<le> length b" "p + n \<le> q \<or> q + n \<le> p"
  shows "xchg (n - c) (p + c) (q + c) (xchg c p q b) = xchg n p q b"
proof (rule nth_equalityI)
  fix x assume "x < length (xchg (n - c) (p + c) (q + c) (xchg c p q b))"
  then have x: "x < length b" by simp
  consider "p \<le> x" "x < p + c" | "p + c \<le> x" "x < p + n" | "q \<le> x" "x < q + c" | "q + c \<le> x" "x < q + n"
    | "\<not> (p \<le> x \<and> x < p + n)" "\<not> (q \<le> x \<and> x < q + n)" by linarith
  then show "xchg (n - c) (p + c) (q + c) (xchg c p q b) ! x = xchg n p q b ! x"
  proof cases
    case 1
    with assms x have "\<not> q + c \<le> x \<or> \<not> x < q + n" by linarith
    with 1 assms x show ?thesis by (auto simp: xchg_nth)
  next
    case 2
    define y where "y = q + (x - p)"
    have y: "y < length b" "\<not> (p \<le> y \<and> y < p + c)" "\<not> (q \<le> y \<and> y < q + c)" "q + c + (x - (p + c)) = y"
      using 2 assms unfolding y_def by linarith+
    then have "xchg c p q b ! y = b ! y" by (auto simp: xchg_nth)
    moreover have "xchg (n - c) (p + c) (q + c) (xchg c p q b) ! x = xchg c p q b ! y"
      using xchg_nth [of x "xchg c p q b" "n - c" "p + c" "q + c"] x 2 assms(1) unfolding y(4) by simp
    moreover have "xchg n p q b ! x = b ! y" using xchg_nth [OF x, of n p q] 2 by (simp add: y_def)
    ultimately show ?thesis by simp
  next
    case 3
    with assms x have "\<not> (p \<le> x \<and> x < p + n)" by linarith
    with 3 assms x show ?thesis by (auto simp: xchg_nth)
  next
    case 4
    with assms x have np: "\<not> (p \<le> x \<and> x < p + n)" by linarith
    define y where "y = p + (x - q)"
    have y: "y < length b" "\<not> (p \<le> y \<and> y < p + c)" "\<not> (q \<le> y \<and> y < q + c)" "p + c + (x - (q + c)) = y"
      using 4 assms unfolding y_def by linarith+
    then have "xchg c p q b ! y = b ! y" by (auto simp: xchg_nth)
    moreover have "xchg (n - c) (p + c) (q + c) (xchg c p q b) ! x = xchg c p q b ! y"
      using xchg_nth [of x "xchg c p q b" "n - c" "p + c" "q + c"] x 4 np assms(1) unfolding y(4) by auto
    moreover have "xchg n p q b ! x = b ! y" using xchg_nth [OF x, of n p q] 4 np by (auto simp: y_def)
    ultimately show ?thesis by simp
  next
    case 5
    with assms x show ?thesis by (auto simp: xchg_nth)
  qed
qed simp

lemma xfer_loop_xchg:
  "p + n \<le> length b \<Longrightarrow> q + n \<le> length b \<Longrightarrow> p + n \<le> q \<or> q + n \<le> p \<Longrightarrow>
   xfer_loop n p q b = Inr (xchg n p q b)"
proof (induction n p q b rule: xfer_loop.induct)
  case (1 n p q b)
  show ?case
  proof (cases "n = 0")
    case True
    have "xchg 0 p q b = b" by (rule nth_equalityI) (auto simp: xchg_def)
    with True show ?thesis by (simp add: xfer_loop.simps)
  next
    case False
    define c where "c = (if n < MAX_SWAP then n else MAX_SWAP)"
    have c: "0 < c" "c \<le> n" using False by (auto simp: c_def MAX_SWAP_def)
    have x: "xfer c p q b = Inr (xchg c p q b)" using "1.prems" c by (intro xfer_xchg) auto
    have "xfer_loop (n - c) (p + c) (q + c) (xchg c p q b) = Inr (xchg (n - c) (p + c) (q + c) (xchg c p q b))"
      by (rule "1.IH" [OF False c_def]) (use c "1.prems" in auto)
    with x c False "1.prems" show ?thesis
      by (subst xfer_loop.simps) (simp add: Let_def c_def [symmetric] xchg_xchg)
  qed
qed

lemma Swap_xchg:
  assumes "width_ok w" "p + w \<le> length b" "q + w \<le> length b" "p + w \<le> q \<or> q + w \<le> p"
  shows "Swap w p q b = Inr (xchg w p q b)"
  using assms by (auto simp: Swap_def width_ok_def xfer_xchg xfer_loop_xchg)

lemma in_block: "(y::nat) < w \<Longrightarrow> i * w \<le> k * w + y \<and> k * w + y < i * w + w \<longleftrightarrow> k = i"
proof (cases k i rule: linorder_cases)
  case less
  assume "y < w"
  have "Suc k * w \<le> i * w" using less by (intro mult_le_mono1) simp
  with \<open>y < w\<close> less show ?thesis by simp
next
  case greater
  assume "y < w"
  have "Suc i * w \<le> k * w" using greater by (intro mult_le_mono1) simp
  with greater show ?thesis by simp
qed simp

lemma block_end: "0 < w \<Longrightarrow> i < n div w \<Longrightarrow> i * w + w \<le> (n :: nat)"
proof -
  assume "0 < w" "i < n div w"
  then have "Suc i * w \<le> n div w * w" by (intro mult_le_mono1) simp
  also have "\<dots> \<le> n" by simp
  finally show ?thesis by simp
qed

lemma elems_of_xchg:
  assumes w: "0 < w" and i: "i < length b div w" and j: "j < length b div w" and ij: "i \<noteq> j"
  shows "elems_of w (xchg w (i * w) (j * w) b) = (elems_of w b)[i := elems_of w b ! j, j := elems_of w b ! i]"
proof (rule nth_equalityI)
  fix k assume "k < length (elems_of w (xchg w (i * w) (j * w) b))"
  then have k: "k < length b div w" by (simp add: elems_of_def)
  have e: "elems_of w c ! l = take w (drop (l * w) c)" if "l < length b div w" "length c = length b" for l c
    using that by (simp add: elems_of_def)
  note ends = block_end [OF w i] block_end [OF w j] block_end [OF w k]
  have "take w (drop (k * w) (xchg w (i * w) (j * w) b)) =
      (if k = j then take w (drop (i * w) b) else if k = i then take w (drop (j * w) b) else take w (drop (k * w) b))"
  proof (rule nth_equalityI)
    fix y assume "y < length (take w (drop (k * w) (xchg w (i * w) (j * w) b)))"
    then have y: "y < w" by simp
    show "take w (drop (k * w) (xchg w (i * w) (j * w) b)) ! y =
      (if k = j then take w (drop (i * w) b) else if k = i then take w (drop (j * w) b) else take w (drop (k * w) b)) ! y"
      using y ends ij by (simp add: xchg_def in_block)
  qed (use ends in auto)
  then show "elems_of w (xchg w (i * w) (j * w) b) ! k = (elems_of w b)[i := elems_of w b ! j, j := elems_of w b ! i] ! k"
    using i j k ij by (simp add: e nth_list_update elems_of_def)
qed (simp add: elems_of_def)

interpretation qa: sort_array "CMPR Compare w" "SWAP w" "\<lambda>b. width_ok w" "elems_of w" Compare for Compare w
proof
  fix b i j
  assume w: "width_ok w" and i: "1 \<le> i" "i \<le> length (elems_of w b)" and j: "1 \<le> j" "j \<le> length (elems_of w b)"
  let ?i = "i - 1" and ?j = "j - 1"
  have lt: "?i < length b div w" "?j < length b div w" and w0: "0 < w" using w i j by (auto simp: width_ok_def elems_of_def)
  note ends = block_end [OF w0 lt(1)] block_end [OF w0 lt(2)]
  show "CMPR Compare w i j b = Inr (Compare (elem (elems_of w b) i) (elem (elems_of w b) j))"
    using lt ends by (simp add: CMPR_def load_bytes_def BASE_def elem_def elems_of_def)
  assume "i \<noteq> j"
  then have ij: "?i \<noteq> ?j" using i j by simp
  have "?i * w + w \<le> ?j * w \<or> ?j * w + w \<le> ?i * w"
    using ij by (metis add.commute linorder_neqE_nat mult_Suc mult_le_mono1 Suc_leI)
  then have "SWAP w i j b = Inr (xchg w (?i * w) (?j * w) b)"
    using w ends by (simp add: SWAP_def BASE_def Swap_xchg)
  with w elems_of_xchg [OF w0 lt ij] show "\<exists>t. SWAP w i j b = Inr t \<and> width_ok w \<and> elems_of w t = exch i j (elems_of w b)"
    by (simp add: exch_def elem_def)
qed

lemma sorted_on_sorted_wrt:
  assumes "sorted_on cmp 1 (length xs) xs"
  shows "sorted_wrt (\<lambda>x y. cmp x y \<le> 0) xs"
  unfolding sorted_wrt_iff_nth_less
proof (intro allI impI)
  fix i j assume "i < j" "j < length xs"
  then show "cmp (xs ! i) (xs ! j) \<le> 0"
    using assms [unfolded sorted_on_def, rule_format, of "Suc i" "Suc j"] by (simp add: elem_def)
qed

text \<open>
  C23. \<^verbatim>\<open>qsort\<close> sorts: for every element width but four and every comparison function that is a
  total preorder, it returns, never touches a byte outside the array, and leaves a permutation of
  the elements in ascending order. This includes the fat-pivot partition and the insertion sort
  whose inner loop runs past the start of its segment.
\<close>

theorem qsort_sorts:
  assumes "total_preorder Compare" and "width_ok w" and "length b = n * w"
  shows "\<exists>b'. qsort b n w Compare = Inr b' \<and> mset (elems_of w b') = mset (elems_of w b) \<and>
    sorted_wrt (\<lambda>x y. Compare x y \<le> 0) (elems_of w b')"
proof -
  have len: "length (elems_of w b) = n" using assms by (simp add: elems_of_def width_ok_def)
  obtain t where t: "QuickSort (CMPR Compare w) (SWAP w) 1 n b = Inr t"
    "perm_on 1 n (elems_of w b) (elems_of w t)" "sorted_on Compare 1 n (elems_of w t)"
    using qa.QuickSort_sorted [OF assms(1,2), of 1 n b] len by auto
  have "sorted_on Compare 1 (length (elems_of w t)) (elems_of w t)"
    using t(3) perm_on_length [OF t(2)] len by simp
  from sorted_on_sorted_wrt [OF this] t show ?thesis by (auto simp: qsort_def perm_on_def)
qed

definition byte_cmp :: "u8 list \<Rightarrow> u8 list \<Rightarrow> int" where
  "byte_cmp x y = uint (hd x) - uint (hd y)"

lemma byte_cmp_preorder: "total_preorder byte_cmp"
  by (auto simp: total_preorder_def byte_cmp_def sgn_if)

theorem qsort_sorts_witness:
  "\<exists>b'. qsort [3, 1, 2] 3 1 byte_cmp = Inr b' \<and> mset (elems_of 1 b') = mset (elems_of 1 [3, 1, 2]) \<and>
    sorted_wrt (\<lambda>x y. byte_cmp x y \<le> 0) (elems_of 1 b')"
  by (rule qsort_sorts [OF byte_cmp_preorder]) (simp_all add: width_ok_def)

text \<open>Evaluation on concrete bytes: a continuation waits for the value it is given.\<close>

lemma rbind_weak_cong: "x = y \<Longrightarrow> rbind x f = rbind y f"
  by simp

lemmas qsort_evals = qsort_def QuickSort.simps QMIN_def InsertionSort_def insertion_loop.simps insert_back.simps
  CMPR_def SWAP_def Swap_def BASE_def xfer_def load_bytes_def store_bytes_def sizeof_long_def

text \<open>
  C24. Elements of four bytes are exchanged as \<^verbatim>\<open>long\<close>, which has eight bytes on the 64-bit target.
  Sorting two \<^verbatim>\<open>int\<close>s that are out of order already reads and writes beyond the array, and where
  memory follows the array, elements are lost: the \<^verbatim>\<open>int\<close>s 2, 1, 7 become 1, 1, 2, and the \<^verbatim>\<open>int\<close> 9
  behind them is overwritten.
\<close>

theorem qsort_four_bytes:
  "(length b = 8 \<and> 0 < Compare (take 4 b) (drop 4 b) \<longrightarrow> qsort b 2 4 Compare = Inl OutOfBounds) \<and>
   qsort [2, 0, 0, 0, 1, 0, 0, 0, 7, 0, 0, 0, 9, 0, 0, 0] 3 4 byte_cmp =
     Inr [1, 0, 0, 0, 1, 0, 0, 0, 2, 0, 0, 0, 1, 0, 0, 0]"
proof (intro conjI impI)
  assume b: "length b = 8 \<and> 0 < Compare (take 4 b) (drop 4 b)"
  then have "CMPR Compare 4 1 2 b = Inr (Compare (take 4 b) (drop 4 b))"
    by (simp add: CMPR_def load_bytes_def BASE_def)
  moreover have "SWAP 4 1 2 b = Inl OutOfBounds"
    using b by (simp add: SWAP_def Swap_def xfer_def load_bytes_def BASE_def sizeof_long_def)
  ultimately show "qsort b 2 4 Compare = Inl OutOfBounds"
    using b by (simp add: qsort_def QuickSort.simps QMIN_def InsertionSort_def insertion_loop.simps insert_back.simps
        numeral_2_eq_2)
next
  show "qsort [2, 0, 0, 0, 1, 0, 0, 0, 7, 0, 0, 0, 9, 0, 0, 0] 3 4 byte_cmp =
     Inr [1, 0, 0, 0, 1, 0, 0, 0, 2, 0, 0, 0, 1, 0, 0, 0]"
    by (simp add: qsort_evals byte_cmp_def cong: rbind_weak_cong)
qed

theorem qsort_four_bytes_witness: "qsort [2, 0, 0, 0, 1, 0, 0, 0] 2 4 byte_cmp = Inl OutOfBounds"
  using qsort_four_bytes [of "[2, 0, 0, 0, 1, 0, 0, 0]" byte_cmp] by (simp add: byte_cmp_def)

section \<open>Binary search\<close>

lemma bsearch_loop_spec:
  assumes "sorted_wrt (\<lambda>x y. sgn (cmp y) \<le> sgn (cmp x)) xs"
  shows "base + lim \<le> length xs \<Longrightarrow>
    (case bsearch_loop cmp xs base lim of
       Inl _ \<Rightarrow> False
     | Inr None \<Rightarrow> (\<forall>i. base \<le> i \<longrightarrow> i < base + lim \<longrightarrow> cmp (xs ! i) \<noteq> 0)
     | Inr (Some p) \<Rightarrow> p < length xs \<and> cmp (xs ! p) = 0)"
  using assms
proof (induction cmp xs base lim rule: bsearch_loop.induct)
  case (1 cmp xs base lim)
  define p where "p = base + lim div 2"
  show ?case
  proof (cases "lim = 0")
    case True
    then show ?thesis by (simp add: bsearch_loop.simps)
  next
    case False
    then have p: "base \<le> p" "p < base + lim" unfolding p_def by auto
    with "1.prems"(1) have len: "p < length xs" by simp
    have sgn: "sgn (cmp (xs ! j)) \<le> sgn (cmp (xs ! i))" if "i < j" "j < length xs" for i j
      using "1.prems"(2) that by (simp add: sorted_wrt_iff_nth_less)
    consider "cmp (xs ! p) = 0" | "0 < cmp (xs ! p)" | "cmp (xs ! p) < 0" by linarith
    then show ?thesis
    proof cases
      case 1
      with False len show ?thesis by (subst bsearch_loop.simps) (simp add: Let_def p_def)
    next
      case 2
      have "p + 1 + (lim - 1) div 2 = base + lim" unfolding p_def using False by presburger
      moreover have "cmp (xs ! i) \<noteq> 0" if "i \<le> p" for i
        using sgn [of i p] 2 that len by (cases "i = p") (auto simp: sgn_if split: if_splits)
      moreover have "bsearch_loop cmp xs base lim = bsearch_loop cmp xs (p + 1) ((lim - 1) div 2)"
        using False len 2 by (subst bsearch_loop.simps) (simp add: Let_def p_def)
      ultimately show ?thesis
        using "1.IH"(1) [OF False p_def len refl] 2 "1.prems"
        by (auto split: sum.splits option.splits) (meson not_less_eq_eq)
    next
      case 3
      have "cmp (xs ! i) \<noteq> 0" if "p \<le> i" "i < length xs" for i
        using sgn [of p i] 3 that by (cases "i = p") (auto simp: sgn_if split: if_splits)
      moreover have "bsearch_loop cmp xs base lim = bsearch_loop cmp xs base (lim div 2)"
        using False len 3 by (subst bsearch_loop.simps) (simp add: Let_def p_def)
      ultimately show ?thesis
        using "1.IH"(2) [OF False p_def len refl] 3 "1.prems" p by (auto simp: p_def split: sum.splits option.splits)
    qed
  qed
qed

lemma bsearch_small:
  assumes "length xs < 2 ^ 31"
  shows "bsearch cmp xs = bsearch_loop cmp xs 0 (length xs)"
proof -
  have "sint (word_of_nat (length xs) :: u32) = int (length xs)"
    using assms by (simp add: sint_uint unsigned_of_nat take_bit_nat_eq_self signed_take_bit_int_eq_self of_nat_less_iff [symmetric])
  then show ?thesis by (simp add: bsearch_def)
qed

lemma bsearch_result:
  assumes "sorted_wrt (\<lambda>x y. sgn (cmp y) \<le> sgn (cmp x)) xs" and "length xs < 2 ^ 31"
  shows "case bsearch cmp xs of
      Inl _ \<Rightarrow> False
    | Inr None \<Rightarrow> (\<forall>x \<in> set xs. cmp x \<noteq> 0)
    | Inr (Some p) \<Rightarrow> p < length xs \<and> cmp (xs ! p) = 0"
proof -
  have "bsearch cmp xs = bsearch_loop cmp xs 0 (length xs)" by (rule bsearch_small [OF assms(2)])
  with bsearch_loop_spec [OF assms(1), of 0 "length xs"] show ?thesis
    by (auto simp: in_set_conv_nth split: sum.splits option.splits)
qed

text \<open>
  C25. \<^verbatim>\<open>bsearch\<close> on fewer than \<^verbatim>\<open>2^31\<close> elements in ascending order always returns, looks only at
  elements of the array, and finds an element equal to the key exactly when there is one.
\<close>

theorem bsearch_finds:
  assumes "sorted_wrt (\<lambda>x y. sgn (cmp y) \<le> sgn (cmp x)) xs" and "length xs < 2 ^ 31"
  shows "case bsearch cmp xs of
      Inl _ \<Rightarrow> False
    | Inr None \<Rightarrow> (\<forall>x \<in> set xs. cmp x \<noteq> 0)
    | Inr (Some p) \<Rightarrow> p < length xs \<and> cmp (xs ! p) = 0"
  using assms by (rule bsearch_result)

theorem bsearch_finds_witness: "\<exists>p. bsearch (\<lambda>x. 5 - x) [1, 3, 5, 9] = Inr (Some p) \<and> [1, 3, 5, 9] ! p = (5 :: int)"
  using bsearch_finds [of "\<lambda>x. 5 - x" "[1, 3, 5, 9]"] by (auto split: sum.splits option.splits)

end
