(* ===== verification/Wchar.thy ===== *)
theory Wchar
  imports Cstring Qsort Wtables
begin

text \<open>
  The wide-character functions: the table-driven predicates of \<^verbatim>\<open>src/libc/ansi/ctype\<close> and
  \<^verbatim>\<open>src/libc/posix/wchar/wcwidth.c\<close>, the interval searches and the code-page conversions of
  \<^verbatim>\<open>wchar.c\<close>, the wide strings, and the byte conversions of \<^verbatim>\<open>src/libc/ansi/locale\<close>. \<^verbatim>\<open>wchar_t\<close> and
  \<^verbatim>\<open>wint_t\<close> are signed 32-bit integers. The results \<^verbatim>\<open>(size_t)-1\<close> and \<^verbatim>\<open>(size_t)-2\<close> are \<open>-1\<close> and \<open>-2\<close>.
\<close>

section \<open>Two-level bit tables\<close>

text \<open>\<^verbatim>\<open>(table[table[wc>>8]*32+((wc&255)>>3)]>>(wc&7))&1\<close>\<close>

definition table_bit :: "u8 list \<Rightarrow> u32 \<Rightarrow> fault + bool" where
  "table_bit table wc =
     (let i = sint wc div 256 in
      if 0 \<le> i \<and> i < int (length table)
      then let j = unat (table ! nat i) * 32 + unat (drop_bit 3 (wc AND 255)) in
           if j < length table then Inr (bit (table ! j) (unat (wc AND 7))) else Inl OutOfBounds
      else Inl OutOfBounds)"

definition iswalpha :: "u32 \<Rightarrow> fault + bool" where
  "iswalpha wc =
     (if sint wc < 0x20000 then table_bit alpha_table wc
      else if sint wc < 0x2fffe then Inr True
      else Inr False)"

definition iswalnum :: "u32 \<Rightarrow> fault + bool" where
  "iswalnum wc = (if iswdigit wc then Inr True else iswalpha wc)"

definition wcwidth :: "u32 \<Rightarrow> fault + int" where
  "wcwidth wc =
     (if sint wc < 0xff then Inr (if 0x21 \<le> (wc + 1) AND 0x7f then 1 else if wc \<noteq> 0 then -1 else 0)
      else if wc AND 0xfffeffff < 0xfffe
      then rbind (table_bit nonspacing_table wc) (\<lambda>z.
        if z then Inr 0 else rbind (table_bit wide_table wc) (\<lambda>d. if d then Inr 2 else Inr 1))
      else if wc AND 0xfffe = 0xfffe then Inr (-1)
      else Inr 1)"

section \<open>Interval tables\<close>

definition compw16 :: "u32 \<Rightarrow> w16_s \<Rightarrow> int" where
  "compw16 key b = (if ucast (snd b) < key then 1 else if key < ucast (fst b) then -1 else 0)"

definition compw32 :: "u32 \<Rightarrow> w32_s \<Rightarrow> int" where
  "compw32 key b = (if snd b < key then 1 else if key < fst b then -1 else 0)"

text \<open>The last range of double-width characters is tested with \<^verbatim>\<open>0x30000 >= ch\<close>.\<close>

definition wcwidth_v13 :: "u32 \<Rightarrow> fault + int" where
  "wcwidth_v13 ch =
     (if ch < 0x300 then Inr 1
      else if ch < 0x10000
      then rbind (bsearch (compw16 ch) zw16a) (\<lambda>r. if r \<noteq> None then Inr 0
           else if ch < 0x1100 then Inr 1
           else rbind (bsearch (compw16 ch) dw16a) (\<lambda>r. if r \<noteq> None then Inr 2 else Inr 1))
      else if ch < 0x20000
      then let ch = ch AND 0xffff in
           rbind (bsearch (compw16 ch) zw16b) (\<lambda>r. if r \<noteq> None then Inr 0
           else rbind (bsearch (compw16 ch) dw16b) (\<lambda>r. if r \<noteq> None then Inr 2 else Inr 1))
      else if ch = 0xE0001 \<or> 0xE0020 \<le> ch \<and> ch \<le> 0xE007F \<or> 0xE0100 \<le> ch \<and> ch \<le> 0xE01EF then Inr 0
      else if 0x20000 \<le> ch \<and> ch \<le> 0x2FFFD \<or> ch \<le> 0x30000 \<and> ch \<le> 0x3FFFD then Inr 2
      else Inr 1)"

definition isprint_v13 :: "u32 \<Rightarrow> fault + int" where
  "isprint_v13 ch =
     (if ch < 0x10000
      then rbind (bsearch (compw16 ch) pr16a) (\<lambda>r. if r \<noteq> None then Inr 1 else Inr 0)
      else if ch < 0x20000
      then let ch = ch AND 0xffff in
           rbind (bsearch (compw16 ch) pr16b) (\<lambda>r. if r \<noteq> None then Inr 1 else Inr 0)
      else rbind (bsearch (compw32 ch) pr32) (\<lambda>r. if r \<noteq> None then Inr 1 else Inr 0))"

section \<open>Code pages\<close>

text \<open>
  The registers of a real-mode interrupt that \<^verbatim>\<open>get_codepage\<close> uses. \<open>dpmi_int\<close>, the host's service,
  gets the vector, the registers and the two words in the transfer buffer and answers its return
  value, the registers and the words.
\<close>

record dpmi_regs =
  x_ax :: u16
  x_bx :: u16
  x_cx :: u16
  x_dx :: u16
  x_ds :: u16
  x_flags :: u16

type_synonym dpmi = "nat \<Rightarrow> dpmi_regs \<Rightarrow> u16 \<times> u16 \<Rightarrow> int \<times> dpmi_regs \<times> (u16 \<times> u16)"

definition get_codepage :: "dpmi \<Rightarrow> u32 \<Rightarrow> u16" where
  "get_codepage dpmi_int tb =
     (let regs = \<lparr>x_ax = 0x440c, x_bx = 1, x_cx = 3 * 0x100 + 0x6a, x_dx = ucast (tb AND 0xf),
        x_ds = ucast (drop_bit 4 tb AND 0xffff), x_flags = 1\<rparr>;
          (r, regs, w) = dpmi_int 0x21 regs (0, 0)
      in if r = 0 \<and> x_flags regs AND 1 = 0 \<and> snd w \<noteq> 0 then snd w
         else let (r, regs, w) = dpmi_int 0x2f (regs\<lparr>x_ax := 0xad02, x_bx := 0, x_flags := 1\<rparr>) w
      in if r = 0 \<and> x_flags regs AND 1 = 0 \<and> x_bx regs \<noteq> 0 then x_bx regs
         else let (r, regs, w) = dpmi_int 0x21 (regs\<lparr>x_ax := 0x6601, x_bx := 0, x_flags := 1\<rparr>) w
      in if r = 0 \<and> x_flags regs AND 1 = 0 then x_bx regs else 0)"

text \<open>The static variables of \<^verbatim>\<open>wchar.c\<close>, and \<^verbatim>\<open>errno\<close>.\<close>

record wchars =
  cp :: "u32 list option"
  revcp :: "u32 list"
  werrno :: int

definition EILSEQ :: int where "EILSEQ = 41"

text \<open>An \<^verbatim>\<open>uint32_t\<close> in memory.\<close>

definition le_bytes :: "u32 \<Rightarrow> u8 list" where
  "le_bytes w = [ucast w, ucast (drop_bit 8 w), ucast (drop_bit 16 w), ucast (drop_bit 24 w)]"

fun le_word :: "u8 list \<Rightarrow> u32" where
  "le_word [a, b, c, d] = ucast a OR push_bit 8 (ucast b) OR push_bit 16 (ucast c) OR push_bit 24 (ucast d)"
| "le_word _ = 0"

fun le_words :: "u8 list \<Rightarrow> u32 list" where
  "le_words (a # b # c # d # bs) = le_word [a, b, c, d] # le_words bs"
| "le_words _ = []"

definition compcp :: "u8 list \<Rightarrow> u8 list \<Rightarrow> int" where
  "compcp a b = sint (le_word a - le_word b)"

definition compcp2 :: "u32 \<Rightarrow> u32 \<Rightarrow> int" where
  "compcp2 a b = sint ((a AND NOT 0xff) - (b AND NOT 0xff))"

definition code_page :: "u16 \<Rightarrow> u32 list" where
  "code_page dcp =
     (if dcp = 737 then cp737 else if dcp = 775 then cp775 else if dcp = 850 then cp850
      else if dcp = 852 then cp852 else if dcp = 855 then cp855 else if dcp = 857 then cp857
      else if dcp = 860 then cp860 else if dcp = 861 then cp861 else if dcp = 862 then cp862
      else if dcp = 863 then cp863 else if dcp = 864 then cp864 else if dcp = 865 then cp865
      else if dcp = 866 then cp866 else if dcp = 869 then cp869 else if dcp = 874 then cp874
      else cp437)"

definition rev_entries :: "u32 list \<Rightarrow> u32 list" where
  "rev_entries page = map (\<lambda>i. (page ! i * 0x100) OR word_of_nat i OR 0x80) [0..<128]"

definition set_cp :: "dpmi \<Rightarrow> u32 \<Rightarrow> wchars \<Rightarrow> fault + wchars" where
  "set_cp dpmi_int tb st =
     (let page = code_page (get_codepage dpmi_int tb) in
      rmap (\<lambda>b. st\<lparr>cp := Some page, revcp := le_words b\<rparr>)
        (qsort (concat (map le_bytes (rev_entries page))) 128 4 compcp))"

definition need_cp :: "dpmi \<Rightarrow> u32 \<Rightarrow> wchars \<Rightarrow> fault + wchars" where
  "need_cp dpmi_int tb st = (if cp st = None then set_cp dpmi_int tb st else Inr st)"

text \<open>The result, what is stored in \<^verbatim>\<open>*wc\<close> (nothing for the null character), and the new state.\<close>

definition mbrtowc :: "dpmi \<Rightarrow> u32 \<Rightarrow> u8 list \<Rightarrow> nat \<Rightarrow> wchars \<Rightarrow> fault + int \<times> u32 option \<times> wchars" where
  "mbrtowc dpmi_int tb s n st =
     (if n = 0 then Inr (-2, None, st)
      else case s of [] \<Rightarrow> Inl OutOfBounds | ch # _ \<Rightarrow>
        if ch < 0x80 then if ch = 0 then Inr (0, None, st) else Inr (1, Some (ucast ch), st)
        else rbind (need_cp dpmi_int tb st) (\<lambda>st.
          let w = the (cp st) ! unat (ch - 0x80) in
          if w \<noteq> 0 then Inr (1, Some w, st) else Inr (-1, Some w, st\<lparr>werrno := EILSEQ\<rparr>)))"

definition wcrtomb :: "dpmi \<Rightarrow> u32 \<Rightarrow> u32 \<Rightarrow> wchars \<Rightarrow> fault + int \<times> u8 option \<times> wchars" where
  "wcrtomb dpmi_int tb wc st =
     (if sint wc < 0x80 then Inr (1, Some (ucast wc), st)
      else rbind (need_cp dpmi_int tb st) (\<lambda>st.
        rbind (bsearch (compcp2 (wc * 0x100)) (revcp st)) (\<lambda>r.
          case r of
            Some p \<Rightarrow> Inr (1, Some (ucast (revcp st ! p)), st)
          | None \<Rightarrow> Inr (-1, None, st\<lparr>werrno := EILSEQ\<rparr>))))"

section \<open>Wide strings\<close>

fun wcslen :: "u32 list \<Rightarrow> fault + nat" where
  "wcslen [] = Inl OutOfBounds"
| "wcslen (c # cs) = (if c = 0 then Inr 0 else rmap Suc (wcslen cs))"

fun wmemchr :: "u32 list \<Rightarrow> u32 \<Rightarrow> nat \<Rightarrow> fault + nat option" where
  "wmemchr s c 0 = Inr None"
| "wmemchr [] c (Suc n) = Inl OutOfBounds"
| "wmemchr (x # xs) c (Suc n) = (if x = c then Inr (Some 0) else rmap (map_option Suc) (wmemchr xs c n))"

definition wcsnlen :: "u32 list \<Rightarrow> nat \<Rightarrow> fault + nat" where
  "wcsnlen s n = rmap (\<lambda>z. case z of None \<Rightarrow> n | Some k \<Rightarrow> k) (wmemchr s 0 n)"

fun wmemcpy :: "u32 list \<Rightarrow> u32 list \<Rightarrow> nat \<Rightarrow> fault + u32 list" where
  "wmemcpy ds ss 0 = Inr ds"
| "wmemcpy (d # ds) (c # cs) (Suc n) = rmap (Cons c) (wmemcpy ds cs n)"
| "wmemcpy _ _ (Suc n) = Inl OutOfBounds"

text \<open>\<^verbatim>\<open>MB_CUR_MAX\<close> is the variable \<^verbatim>\<open>__dj_mb_cur_max\<close>, 1 unless the program changes it.\<close>

definition CODEUNIT :: "u8 \<Rightarrow> u32" where
  "CODEUNIT c = 0xdfff AND scast c"

definition IS_CODEUNIT :: "u32 \<Rightarrow> bool" where
  "IS_CODEUNIT c \<longleftrightarrow> c - 0xdf80 < 0x80"

definition btowc :: "int \<Rightarrow> int \<Rightarrow> u32" where
  "btowc mb_cur_max c =
     (let b = (word_of_int c :: u8) in
      if b < 128 then ucast b else if mb_cur_max = 1 \<and> c \<noteq> -1 then CODEUNIT (word_of_int c) else -1)"

definition wctob :: "int \<Rightarrow> u32 \<Rightarrow> int" where
  "wctob mb_cur_max c =
     (if sint c < 128 then sint c
      else if mb_cur_max = 1 \<and> IS_CODEUNIT c then uint (ucast c :: u8)
      else -1)"

section \<open>Byte conversions\<close>

definition mblen :: "u8 list option \<Rightarrow> nat \<Rightarrow> fault + int" where
  "mblen s n =
     (case s of
        Some p \<Rightarrow> if n = 0 then Inr 0 else (case p of [] \<Rightarrow> Inl OutOfBounds | c # _ \<Rightarrow> if c = 0 then Inr 0 else Inr 1)
      | None \<Rightarrow> Inr 1)"

text \<open>\<^verbatim>\<open>char\<close> is signed, so a byte is sign-extended. The result and what is stored in \<^verbatim>\<open>*pwc\<close>.\<close>

definition mbtowc :: "u8 list option \<Rightarrow> fault + int \<times> u32 option" where
  "mbtowc s =
     (case s of
        None \<Rightarrow> Inr (0, None)
      | Some [] \<Rightarrow> Inl OutOfBounds
      | Some (c # _) \<Rightarrow> Inr (if c \<noteq> 0 then 1 else 0, Some (scast c)))"

fun mbstowcs_loop :: "u32 list \<Rightarrow> u8 list \<Rightarrow> nat \<Rightarrow> nat \<Rightarrow> fault + nat \<times> u32 list" where
  "mbstowcs_loop ws s 0 i = Inr (i, ws)"
| "mbstowcs_loop (w # ws) (c # cs) (Suc n) i =
     (if c = 0 then Inr (i, 0 # ws) else rmap (map_prod id (Cons (scast c))) (mbstowcs_loop ws cs n (Suc i)))"
| "mbstowcs_loop _ _ (Suc n) i = Inl OutOfBounds"

definition mbstowcs :: "u32 list \<Rightarrow> u8 list \<Rightarrow> nat \<Rightarrow> fault + nat \<times> u32 list" where
  "mbstowcs wcs s n = mbstowcs_loop wcs s n 0"

fun wcstombs_loop :: "u8 list \<Rightarrow> u32 list \<Rightarrow> nat \<Rightarrow> nat \<Rightarrow> fault + nat \<times> u8 list" where
  "wcstombs_loop s ws 0 i = Inr (i, s)"
| "wcstombs_loop (d # ds) (w # ws) (Suc n) i =
     (if w = 0 then Inr (i, 0 # ds) else rmap (map_prod id (Cons (ucast w))) (wcstombs_loop ds ws n (Suc i)))"
| "wcstombs_loop _ _ (Suc n) i = Inl OutOfBounds"

definition wcstombs :: "u8 list \<Rightarrow> u32 list \<Rightarrow> nat \<Rightarrow> fault + nat \<times> u8 list" where
  "wcstombs s wcs n = wcstombs_loop s wcs n 0"

definition wctomb :: "u8 list option \<Rightarrow> u32 \<Rightarrow> fault + int \<times> u8 list option" where
  "wctomb s wchar =
     (case s of
        None \<Rightarrow> Inr (1, None)
      | Some [] \<Rightarrow> Inl OutOfBounds
      | Some (d # ds) \<Rightarrow> Inr (1, Some (ucast wchar # ds)))"

end
