(* ===== verification/Wchar_Props.thy ===== *)
theory Wchar_Props
  imports Wchar Cstring_Props Qsort_Props
begin

text \<open>
  Correctness of the wide-character functions: interval searches are membership, the code pages
  cannot be loaded because of the four-byte sort, with a sorted table the two conversions are
  inverse, the byte conversions round-trip, and the two-level tables are read in bounds.
\<close>

section \<open>Interval searches\<close>

definition covers :: "('a::len word \<times> 'a word) list \<Rightarrow> u32 \<Rightarrow> bool" where
  "covers tab ch \<longleftrightarrow> (\<exists>(a, b) \<in> set tab. uint a \<le> uint ch \<and> uint ch \<le> uint b)"

fun ascending :: "('a::len word \<times> 'a word) list \<Rightarrow> bool" where
  "ascending [] \<longleftrightarrow> True"
| "ascending [x] \<longleftrightarrow> fst x \<le> snd x"
| "ascending (x # y # zs) \<longleftrightarrow> fst x \<le> snd x \<and> snd x < fst y \<and> ascending (y # zs)"

lemma ascending_intervals:
  "ascending tab \<Longrightarrow> sorted_wrt (\<lambda>x y. snd x < fst y) tab \<and> (\<forall>x \<in> set tab. fst x \<le> snd x)"
proof (induction tab rule: ascending.induct)
  case (3 x y zs)
  then have "snd x < fst z" if "z \<in> set (y # zs)" for z
    using that by (auto intro: less_trans order.strict_trans1)
  with 3 show ?case by auto
qed auto

text \<open>A search that compares with the bounds of sorted intervals decides whether one covers the key.\<close>

definition comp_interval :: "u32 \<Rightarrow> 'a::len word \<times> 'a word \<Rightarrow> int" where
  "comp_interval key b = (if uint (snd b) < uint key then 1 else if uint key < uint (fst b) then -1 else 0)"

lemma compw_interval: "compw16 = comp_interval" "compw32 = comp_interval"
proof -
  have "uint (ucast x :: u32) = uint x" for x :: u16 by (rule uint_up_ucast) (simp add: is_up)
  then show "compw16 = comp_interval" "compw32 = comp_interval"
    by (simp_all add: fun_eq_iff compw16_def compw32_def comp_interval_def word_less_def)
qed

lemma interval_search:
  assumes tab: "ascending tab" and len: "length tab < 2 ^ 31"
  obtains r where "bsearch (comp_interval ch) tab = Inr r" and "r \<noteq> None \<longleftrightarrow> covers tab ch"
proof -
  have asc: "sorted_wrt (\<lambda>x y. snd x < fst y) tab" "\<forall>x \<in> set tab. fst x \<le> snd x"
    using ascending_intervals [OF tab] by blast+
  have "sorted_wrt (\<lambda>x y. sgn (comp_interval ch y) \<le> sgn (comp_interval ch x)) tab"
    unfolding sorted_wrt_iff_nth_less
  proof (intro allI impI)
    fix i j assume ij: "i < j" "j < length tab"
    then have "snd (tab ! i) < fst (tab ! j)" "fst (tab ! j) \<le> snd (tab ! j)" "fst (tab ! i) \<le> snd (tab ! i)"
      using asc by (simp_all add: sorted_wrt_iff_nth_less)
    then show "sgn (comp_interval ch (tab ! j)) \<le> sgn (comp_interval ch (tab ! i))"
      by (simp add: comp_interval_def word_less_def word_le_def)
  qed
  note found = bsearch_result [OF this len]
  have cov: "covers tab ch \<longleftrightarrow> (\<exists>x \<in> set tab. comp_interval ch x = 0)"
    by (force simp: covers_def comp_interval_def)
  show ?thesis
  proof (cases "bsearch (comp_interval ch) tab")
    case (Inr r)
    with found cov show ?thesis by (intro that [OF Inr]) (auto split: option.splits)
  qed (use found in simp)
qed

lemma tables_ascending:
  "ascending zw16a" "ascending dw16a" "ascending zw16b" "ascending dw16b" "ascending pr16a" "ascending pr16b" "ascending pr32"
  by (simp_all add: zw16a_def dw16a_def zw16b_def dw16b_def pr16a_def pr16b_def pr32_def)

lemma tables_length:
  "length zw16a < 2 ^ 31" "length dw16a < 2 ^ 31" "length zw16b < 2 ^ 31" "length dw16b < 2 ^ 31"
  "length pr16a < 2 ^ 31" "length pr16b < 2 ^ 31" "length pr32 < 2 ^ 31"
  by (simp_all add: zw16a_def dw16a_def zw16b_def dw16b_def pr16a_def pr16b_def pr32_def)

lemma search_covers:
  assumes "ascending tab" and "length tab < 2 ^ 31"
  shows "rbind (bsearch (comp_interval ch) tab) (\<lambda>r. if r \<noteq> None then x else y) = (if covers tab ch then x else y)"
proof -
  obtain r where "bsearch (comp_interval ch) tab = Inr r" and "r \<noteq> None \<longleftrightarrow> covers tab ch"
    by (rule interval_search [OF assms])
  then show ?thesis by simp
qed

lemmas table_searches =
  search_covers [OF tables_ascending(1) tables_length(1)] search_covers [OF tables_ascending(2) tables_length(2)]
  search_covers [OF tables_ascending(3) tables_length(3)] search_covers [OF tables_ascending(4) tables_length(4)]
  search_covers [OF tables_ascending(5) tables_length(5)] search_covers [OF tables_ascending(6) tables_length(6)]
  search_covers [OF tables_ascending(7) tables_length(7)]

text \<open>
  C26. \<^verbatim>\<open>wcwidth_v13\<close> and \<^verbatim>\<open>isprint_v13\<close> never fail and compute membership in their tables: the binary
  searches over the interval tables, which are in ascending order, find the interval that covers
  the character exactly when there is one.
\<close>

theorem v13_tables:
  "wcwidth_v13 ch =
     (if ch < 0x300 then Inr 1
      else if ch < 0x10000
      then if covers zw16a ch then Inr 0 else if ch < 0x1100 then Inr 1 else if covers dw16a ch then Inr 2 else Inr 1
      else if ch < 0x20000
      then if covers zw16b (ch AND 0xffff) then Inr 0 else if covers dw16b (ch AND 0xffff) then Inr 2 else Inr 1
      else if ch = 0xE0001 \<or> 0xE0020 \<le> ch \<and> ch \<le> 0xE007F \<or> 0xE0100 \<le> ch \<and> ch \<le> 0xE01EF then Inr 0
      else if ch \<le> 0x30000 then Inr 2 else Inr 1) \<and>
   isprint_v13 ch =
     (if ch < 0x10000 then if covers pr16a ch then Inr 1 else Inr 0
      else if ch < 0x20000 then if covers pr16b (ch AND 0xffff) then Inr 1 else Inr 0
      else if covers pr32 ch then Inr 1 else Inr 0)"
proof -
  have "0x20000 \<le> ch \<and> ch \<le> 0x2FFFD \<or> ch \<le> 0x30000 \<and> ch \<le> 0x3FFFD \<longleftrightarrow> ch \<le> 0x30000"
    by (auto simp: word_le_def)
  then show ?thesis
    unfolding wcwidth_v13_def isprint_v13_def compw_interval Let_def table_searches by (simp only: simp_thms)
qed



section \<open>Loading a code page\<close>

lemma load_xchg_in:
  assumes "p + n \<le> length b" "q + n \<le> length b" "d + k \<le> n"
  shows "load_bytes k (p + d) (xchg n p q b) = load_bytes k (q + d) b"
proof -
  have "take k (drop (p + d) (xchg n p q b)) = take k (drop (q + d) b)"
    by (rule nth_equalityI) (use assms in \<open>auto simp: xchg_nth add.assoc\<close>)
  with assms show ?thesis by (simp add: load_bytes_def)
qed

lemma load_xchg_out:
  assumes "a + k \<le> length b" "a + k \<le> p \<or> p + n \<le> a" "a + k \<le> q \<or> q + n \<le> a"
  shows "load_bytes k a (xchg n p q b) = load_bytes k a b"
proof -
  have "take k (drop a (xchg n p q b)) = take k (drop a b)"
    by (rule nth_equalityI) (use assms in \<open>auto simp: xchg_nth\<close>)
  with assms show ?thesis by (simp add: load_bytes_def)
qed

lemma le_word_bytes [simp]: "le_word (le_bytes w) = w"
proof (rule bit_word_eqI)
  fix n assume "n < LENGTH(32)"
  then consider "n < 8" | "8 \<le> n" "n < 16" | "16 \<le> n" "n < 24" | "24 \<le> n" "n < 32" by (simp, linarith)
  then show "bit (le_word (le_bytes w)) n \<longleftrightarrow> bit w n"
    by cases (simp_all add: le_bytes_def bit_simps, auto)
qed

definition word_bytes :: "u32 list \<Rightarrow> u8 list" where
  "word_bytes ws = concat (map le_bytes ws)"

lemma word_bytes_Cons: "word_bytes (w # ws) = le_bytes w @ word_bytes ws"
  by (simp add: word_bytes_def)

lemma le_bytes_length [simp]: "length (le_bytes w) = 4"
  by (simp add: le_bytes_def)

lemma word_bytes_length [simp]: "length (word_bytes ws) = 4 * length ws"
  by (induction ws) (simp_all add: word_bytes_Cons, simp add: word_bytes_def)

lemma word_bytes_load: "i < length ws \<Longrightarrow> load_bytes 4 (i * 4) (word_bytes ws) = Inr (le_bytes (ws ! i))"
proof (induction ws arbitrary: i)
  case (Cons w ws)
  show ?case
  proof (cases i)
    case 0
    then show ?thesis by (simp add: load_bytes_def word_bytes_Cons)
  next
    case (Suc j)
    then have "drop (i * 4) (word_bytes (w # ws)) = drop (j * 4) (word_bytes ws)" by (simp add: word_bytes_Cons)
    with Suc Cons show ?thesis by (simp add: load_bytes_def)
  qed
qed simp

lemma CMPR_words:
  "1 \<le> i \<Longrightarrow> i \<le> length ws \<Longrightarrow> 1 \<le> j \<Longrightarrow> j \<le> length ws \<Longrightarrow>
   CMPR compcp 4 i j (word_bytes ws) = Inr (sint (ws ! (i - 1) - ws ! (j - 1)))"
  by (simp add: CMPR_def BASE_def word_bytes_load compcp_def)

lemma SWAP_last: "length b = n * 4 \<Longrightarrow> 1 \<le> n \<Longrightarrow> SWAP 4 i n b = Inl OutOfBounds"
  by (cases n) (auto simp: SWAP_def Swap_def xfer_def load_bytes_def BASE_def sizeof_long_def)

text \<open>
  The start of the partition, on 128 words: the pivot is one of elements 33, 65 and 96, the
  element behind it is not less, the last one is less.
\<close>

definition reaches_last :: "u32 list \<Rightarrow> bool" where
  "reaches_last ws \<longleftrightarrow>
     (\<exists>x \<in> {33, 65, 96}. GET_PIVOT_ADDR (CMPR compcp 4) 33 65 96 (word_bytes ws) = Inr x \<and>
        0 \<le> sint (ws ! x - ws ! (x - 1)) \<and> sint (ws ! 127 - ws ! (x - 1)) < 0)"

lemma reaches_last_overrun:
  assumes len: "length ws = 128" and r: "reaches_last ws"
  shows "qsort (word_bytes ws) 128 4 compcp = Inl OutOfBounds"
proof -
  let ?b = "word_bytes ws"
  from r obtain x where x: "x \<in> {33, 65, 96}" "GET_PIVOT_ADDR (CMPR compcp 4) 33 65 96 ?b = Inr x"
    "0 \<le> sint (ws ! x - ws ! (x - 1))" "sint (ws ! 127 - ws ! (x - 1)) < 0" unfolding reaches_last_def by blast
  then have xr: "33 \<le> x" "x \<le> 96" by auto
  define c where "c = xchg 8 0 ((x - 1) * 4) ?b"
  have "xfer 8 0 ((x - 1) * 4) ?b = Inr c" unfolding c_def by (rule xfer_xchg) (use xr len in auto)
  then have sw: "SWAP 4 1 x ?b = Inr c" by (simp add: SWAP_def Swap_def BASE_def sizeof_long_def)
  have e1: "load_bytes 4 0 c = Inr (le_bytes (ws ! (x - 1)))"
    using load_xchg_in [of 0 8 ?b "(x - 1) * 4" 0 4] word_bytes_load [of "x - 1" ws] xr len by (simp add: c_def)
  have e2: "load_bytes 4 4 c = Inr (le_bytes (ws ! x))"
    using load_xchg_in [of 0 8 ?b "(x - 1) * 4" 4 4] word_bytes_load [of x ws] xr len by (simp add: c_def diff_mult_distrib)
  have "x - 1 \<le> 125" using xr by simp
  then have e128: "load_bytes 4 508 c = Inr (le_bytes (ws ! 127))"
    using load_xchg_out [of 508 4 ?b 0 8 "(x - 1) * 4"] word_bytes_load [of 127 ws] xr len by (simp add: c_def)
  have l: "CMPR compcp 4 2 1 c = Inr (sint (ws ! x - ws ! (x - 1)))"
    and h: "CMPR compcp 4 128 1 c = Inr (sint (ws ! 127 - ws ! (x - 1)))"
    using e1 e2 e128 by (simp_all add: CMPR_def BASE_def compcp_def)
  have over: "SWAP 4 2 128 c = Inl OutOfBounds" by (rule SWAP_last) (simp_all add: c_def len)
  have "left_scan (CMPR compcp 4) 1 2 128 0 c = Inr (2, sint (ws ! x - ws ! (x - 1)))"
    using l x(3) by (simp add: left_scan.simps)
  moreover have "right_scan (CMPR compcp 4) (SWAP 4) 1 2 128 None 1 c = Inr (128, None, 1, c)"
    using h x(4) right_scan.simps(2) [of "CMPR compcp 4" "SWAP 4" 1 2 127 None 1 c] by simp
  ultimately have "part_loop (CMPR compcp 4) (SWAP 4) 1 2 128 0 None 1 c = Inl OutOfBounds"
    using over by (subst part_loop.simps) simp
  then have "Partition3 (CMPR compcp 4) (SWAP 4) 1 128 ?b = Inl OutOfBounds"
    using x(1,2) sw by (auto simp: Partition3_def simp del: One_nat_def)
  then show ?thesis by (simp add: qsort_def QuickSort.simps [of _ _ 1 128] QMIN_def del: One_nat_def)
qed

lemma rev_entries_nth: "i < 128 \<Longrightarrow> rev_entries page ! i = (page ! i * 0x100) OR word_of_nat i OR 0x80"
  by (simp add: rev_entries_def)

lemma rev_entries_length [simp]: "length (rev_entries page) = 128"
  by (simp add: rev_entries_def)

lemma pages_reach_last:
  "reaches_last (rev_entries cp437)" "reaches_last (rev_entries cp737)" "reaches_last (rev_entries cp775)"
  "reaches_last (rev_entries cp850)" "reaches_last (rev_entries cp852)" "reaches_last (rev_entries cp855)"
  "reaches_last (rev_entries cp857)" "reaches_last (rev_entries cp860)" "reaches_last (rev_entries cp861)"
  "reaches_last (rev_entries cp862)" "reaches_last (rev_entries cp863)" "reaches_last (rev_entries cp864)"
  "reaches_last (rev_entries cp865)" "reaches_last (rev_entries cp866)" "reaches_last (rev_entries cp869)"
  "reaches_last (rev_entries cp874)"
  by (simp_all add: reaches_last_def GET_PIVOT_ADDR_def CMPR_words rev_entries_nth code_page_defs)

lemma set_cp_overrun: "set_cp dpmi_int tb st = Inl OutOfBounds"
proof -
  have "reaches_last (rev_entries (code_page dcp))" for dcp
    unfolding code_page_def using pages_reach_last by simp
  from reaches_last_overrun [OF rev_entries_length this] show ?thesis
    by (simp add: set_cp_def word_bytes_def)
qed

lemma uint_u8_u32: "uint (ucast (a :: u8) :: u32) = uint a"
  by (rule uint_up_ucast) (simp add: is_up)

lemma sint_u8_u32 [simp]: "sint (ucast (a :: u8) :: u32) = uint a"
proof -
  have "signed_take_bit 31 (uint a) = uint a"
    by (rule signed_take_bit_int_eq_self) (use uint_u8 [of a] in \<open>simp_all, linarith\<close>)
  then show ?thesis by (simp add: sint_uint uint_u8_u32)
qed

lemma ucast_u8_u32 [simp]: "(ucast (ucast (a :: u8) :: u32) :: u8) = a"
  by (rule bit_word_eqI) (simp add: bit_simps)

text \<open>
  C28. The conversion tables cannot be loaded: whatever code page the host reports, sorting the
  reverse table, 128 words of four bytes, exchanges its last element as an eight-byte \<^verbatim>\<open>long\<close> and
  runs off the array. So the first conversion of any character outside ASCII, in either
  direction, does; ASCII is converted.
\<close>

theorem conversion_overrun:
  assumes "cp st = None"
  shows "(0x80 \<le> ch \<longrightarrow> mbrtowc dpmi_int tb (ch # s) (Suc n) st = Inl OutOfBounds) \<and>
    (0x80 \<le> sint wc \<longrightarrow> wcrtomb dpmi_int tb wc st = Inl OutOfBounds) \<and>
    (0 < a \<and> a < 0x80 \<longrightarrow> mbrtowc dpmi_int tb (a # s) (Suc n) st = Inr (1, Some (ucast a), st) \<and>
       wcrtomb dpmi_int tb (ucast a) st = Inr (1, Some a, st))"
  using assms
  by (auto simp: mbrtowc_def wcrtomb_def need_cp_def set_cp_overrun not_le not_less word_neq_0_conv word_less_def)

theorem conversion_overrun_witness:
  "mbrtowc (\<lambda>_ r w. (0, r, w)) 0 [0xe9] 1 \<lparr>cp = None, revcp = [], werrno = 0\<rparr> = Inl OutOfBounds"
  using conversion_overrun [of "\<lparr>cp = None, revcp = [], werrno = 0\<rparr>" "0xe9" "\<lambda>_ r w. (0, r, w)" 0 "[]" 0] by simp

section \<open>Conversion with a sorted table\<close>

text \<open>A state as \<^verbatim>\<open>set_cp\<close> means to leave it: the reverse table is the sorted permutation of the entries.\<close>

definition loaded :: "wchars \<Rightarrow> u32 list \<Rightarrow> bool" where
  "loaded st page \<longleftrightarrow> cp st = Some page \<and> mset (revcp st) = mset (rev_entries page) \<and> sorted (revcp st)"

definition page_ok :: "u32 list \<Rightarrow> bool" where
  "page_ok page \<longleftrightarrow> length page = 128 \<and> list_all (\<lambda>c. c < 0x10000) page"

lemma all_pages_ok:
  "page_ok cp437" "page_ok cp737" "page_ok cp775" "page_ok cp850" "page_ok cp852" "page_ok cp855"
  "page_ok cp857" "page_ok cp860" "page_ok cp861" "page_ok cp862" "page_ok cp863" "page_ok cp864"
  "page_ok cp865" "page_ok cp866" "page_ok cp869" "page_ok cp874"
  by (simp_all add: page_ok_def code_page_defs)

lemma pages_ok: "page_ok (code_page dcp)"
  unfolding code_page_def by (simp add: all_pages_ok)

lemma high_part: "(e :: u32) AND NOT 0xff = push_bit 8 (drop_bit 8 e)"
proof -
  have m: "(0xff :: u32) = mask 8" by (simp add: mask_eq_exp_minus_1)
  show ?thesis unfolding m by (rule bit_word_eqI) (auto simp: bit_simps)
qed

lemma uint_high_part: "uint ((e :: u32) AND NOT 0xff) = 256 * (uint e div 256)"
proof -
  have "uint (push_bit 8 (drop_bit 8 e)) = 256 * (uint e div 256) mod 2 ^ 32"
    by (simp add: push_bit_eq_mult drop_bit_eq_div uint_word_ariths uint_div mult.commute)
  moreover have "256 * (uint e div 256) < 2 ^ 32" "0 \<le> 256 * (uint e div 256)"
    using uint_lt2p [of e] by (simp_all add: pos_imp_zdiv_nonneg_iff)
  ultimately show ?thesis unfolding high_part by simp
qed

lemma sint_diff:
  fixes a b :: u32
  assumes "uint a < 2 ^ 31" and "uint b < 2 ^ 31"
  shows "sint (a - b) = uint a - uint b"
proof -
  have "sint (a - b) = sint (word_of_int (uint a - uint b) :: u32)" by (simp only: word_sub_wi)
  also have "\<dots> = signed_take_bit 31 (uint a - uint b)" by (simp only: signed_of_int) simp
  also have "\<dots> = uint a - uint b"
    by (rule signed_take_bit_int_eq_self) (use assms uint_ge_0 [of a] uint_ge_0 [of b] in linarith)+
  finally show ?thesis .
qed

lemma compcp2_diff:
  assumes "uint wc < 2 ^ 23" and "uint e < 2 ^ 31"
  shows "compcp2 (wc * 0x100) e = 256 * (uint wc - uint e div 256)"
proof -
  have wc: "uint (wc * 0x100) = uint wc * 256" using assms(1) by (simp add: uint_mult_lem uint_word_ariths)
  have hi: "uint (wc * 0x100 AND NOT 0xff) = 256 * uint wc" "uint (e AND NOT 0xff) = 256 * (uint e div 256)"
    unfolding uint_high_part wc by simp_all
  have "compcp2 (wc * 0x100) e = 256 * uint wc - 256 * (uint e div 256)"
    unfolding compcp2_def using sint_diff [of "wc * 0x100 AND NOT 0xff" "e AND NOT 0xff"] assms unfolding hi by simp
  then show ?thesis by simp
qed

lemma rev_entry_bits:
  assumes p: "p < 0x10000" and i: "i < 128"
  shows "uint ((p * 0x100) OR word_of_nat i OR 0x80 :: u32) div 256 = uint p"
    and "uint ((p * 0x100) OR word_of_nat i OR 0x80 :: u32) < 2 ^ 31"
    and "(ucast ((p * 0x100) OR word_of_nat i OR 0x80 :: u32) :: u8) = word_of_nat i OR 0x80"
proof -
  let ?e = "(p * 0x100) OR word_of_nat i OR 0x80 :: u32"
  have pe: "p * 0x100 = push_bit 8 p" by (simp add: push_bit_eq_mult mult.commute)
  have bi: "n < 7" if "bit i n" for n
  proof -
    have "take_bit 7 i = i" using i by (simp add: take_bit_nat_eq_self)
    then show ?thesis using that by (metis bit_take_bit_iff)
  qed
  have bp: "n < 16" if "bit p n" for n
  proof -
    have "unat p < 2 ^ 16" using p by (simp add: word_less_nat_alt)
    then have "take_bit 16 p = p" by (simp add: word_unat_eq_iff unsigned_take_bit_eq take_bit_nat_eq_self)
    then show ?thesis using that by (metis bit_take_bit_iff)
  qed
  have b8: "bit (0x80 :: 'a::len word) n \<longleftrightarrow> n = 7 \<and> n < LENGTH('a)" for n
  proof -
    have "(0x80 :: 'a word) = 2 ^ 7" by simp
    then show ?thesis by (simp only: bit_simps) auto
  qed
  have nb: "\<not> bit i (8 + n)" for n using bi [of "8 + n"] by auto
  have d: "drop_bit 8 ?e = p"
    unfolding pe by (rule bit_word_eqI) (auto simp: bit_simps b8 nb dest: bp)
  then show 1: "uint ?e div 256 = uint p"
    using uint_div [of ?e 256] by (simp add: drop_bit_eq_div)
  have "uint p < 65536" using p by (simp add: word_less_def)
  moreover have "z div 256 < 65536 \<Longrightarrow> z < (2 ^ 31 :: int)" for z by simp
  ultimately show "uint ?e < 2 ^ 31" using 1 by metis
  show "(ucast ?e :: u8) = word_of_nat i OR 0x80"
    unfolding pe by (rule bit_word_eqI) (auto simp: bit_simps b8)
qed

lemma low_byte: "i < 128 \<Longrightarrow> 0x80 \<le> (word_of_nat i OR 0x80 :: u8) \<and> unat ((word_of_nat i OR 0x80 :: u8) - 0x80) = i"
proof -
  have "\<forall>i \<in> set [0..<128]. 0x80 \<le> (word_of_nat i OR 0x80 :: u8) \<and> unat ((word_of_nat i OR 0x80 :: u8) - 0x80) = i"
    by code_simp
  then show "i < 128 \<Longrightarrow> ?thesis" by simp
qed

lemma rev_entries_set:
  assumes "page_ok page" and "e \<in> set (rev_entries page)"
  obtains i where "i < 128" "uint e div 256 = uint (page ! i)" "uint e < 2 ^ 31" "(ucast e :: u8) = word_of_nat i OR 0x80"
proof -
  from assms(2) obtain i where i: "i < 128" "e = (page ! i * 0x100) OR word_of_nat i OR 0x80"
    by (auto simp: rev_entries_def)
  have "page ! i < 0x10000" using assms(1) i(1) by (simp add: page_ok_def list_all_length)
  with i rev_entry_bits [of "page ! i" i] show ?thesis by (intro that [of i]) simp_all
qed



section \<open>Round trips\<close>

lemma mbstowcs_loop_spec:
  "is_cstr s \<Longrightarrow> length (cstr s) < n \<Longrightarrow> n \<le> length ws \<Longrightarrow>
   mbstowcs_loop ws s n i = Inr (i + length (cstr s), map scast (cstr s) @ 0 # drop (Suc (length (cstr s))) ws)"
proof (induction ws s n i rule: mbstowcs_loop.induct)
  case (2 w ws c cs n i)
  then show ?case by auto
qed auto

lemma scast_u8 [simp]: "(ucast (scast (c :: u8) :: u32) :: u8) = c"
  by (rule bit_word_eqI) (simp add: bit_simps)

lemma scast_u8_0 [simp]: "(scast (c :: u8) :: u32) = 0 \<longleftrightarrow> c = 0"
  by (metis scast_u8 ucast_0 scast_0)

lemma wcstombs_loop_spec:
  "0 \<notin> set bs \<Longrightarrow> length bs < n \<Longrightarrow> n \<le> length ds \<Longrightarrow>
   wcstombs_loop ds (map scast bs @ 0 # r) n i = Inr (i + length bs, bs @ 0 # drop (Suc (length bs)) ds)"
proof (induction bs arbitrary: n ds i)
  case Nil
  then show ?case by (cases n; cases ds) auto
next
  case (Cons b bs)
  then obtain m d ds' where "n = Suc m" "ds = d # ds'" by (cases n; cases ds) auto
  with Cons show ?case by auto
qed

lemma wctob_btowc: "0 \<le> c \<Longrightarrow> c < 256 \<Longrightarrow> wctob 1 (btowc 1 c) = c"
proof -
  have "\<forall>n \<in> set [0..<256]. wctob 1 (btowc 1 (int n)) = int n" by code_simp
  then have "n < 256 \<Longrightarrow> wctob 1 (btowc 1 (int n)) = int n" for n by simp
  from this [of "nat c"] show "0 \<le> c \<Longrightarrow> c < 256 \<Longrightarrow> ?thesis" by simp
qed

text \<open>
  C30. Every byte survives the two pairs of byte conversions: \<^verbatim>\<open>wctob\<close> undoes \<^verbatim>\<open>btowc\<close> while
  \<^verbatim>\<open>MB_CUR_MAX\<close> is 1, and \<^verbatim>\<open>wcstombs\<close> undoes \<^verbatim>\<open>mbstowcs\<close> on every string, although bytes above 127
  become negative wide characters.
\<close>

theorem byte_round_trips:
  "(0 \<le> c \<and> c < 256 \<longrightarrow> wctob 1 (btowc 1 c) = c) \<and>
   (is_cstr s \<and> length (cstr s) < n \<and> n \<le> length ws \<and> n \<le> length ds \<longrightarrow>
     (\<exists>ws'. mbstowcs ws s n = Inr (length (cstr s), ws') \<and>
       wcstombs ds ws' n = Inr (length (cstr s), cstr s @ 0 # drop (Suc (length (cstr s))) ds)))"
  using wctob_btowc [of c] mbstowcs_loop_spec [of s n ws 0] wcstombs_loop_spec [OF cstr_nonzero [of s], of n ds]
  by (auto simp: mbstowcs_def wcstombs_def)

theorem byte_round_trips_witness:
  "wctob 1 (btowc 1 200) = 200 \<and>
   (\<exists>ws'. mbstowcs [0, 0, 0] [0xe9, 0x41, 0] 3 = Inr (2, ws') \<and> wcstombs [1, 2, 3] ws' 3 = Inr (2, [0xe9, 0x41, 0]))"
  using byte_round_trips [of 200 "[0xe9, 0x41, 0]" 3 "[0, 0, 0]" "[1, 2, 3]"] by auto

section \<open>Two-level tables\<close>

text \<open>Every block number in the first 512 entries is the number of a whole block.\<close>

definition table_ok :: "u8 list \<Rightarrow> bool" where
  "table_ok t \<longleftrightarrow> 512 \<le> length t \<and> list_all (\<lambda>x. unat x * 32 + 32 \<le> length t) (take 512 t)"

lemma index_length: "length alpha_index = 512" "length nonspacing_index = 512" "length wide_index = 512"
  by (simp_all add: alpha_index_def nonspacing_index_def wide_index_def del: append.simps)

lemma blocks_length: "length alpha_blocks = 2464" "length nonspacing_blocks = 1408" "length wide_blocks = 544"
  by (simp_all add: alpha_blocks_def nonspacing_blocks_def wide_blocks_def del: append.simps)

lemma tables_ok: "table_ok alpha_table" "table_ok nonspacing_table" "table_ok wide_table"
proof -
  have "list_all (\<lambda>x. unat x \<le> 92) alpha_index" "list_all (\<lambda>x. unat x \<le> 59) nonspacing_index" "list_all (\<lambda>x. unat x \<le> 32) wide_index"
    by (simp_all add: alpha_index_def nonspacing_index_def wide_index_def del: append.simps)
  then show "table_ok alpha_table" "table_ok nonspacing_table" "table_ok wide_table"
    by (auto simp: table_ok_def alpha_table_def nonspacing_table_def wide_table_def index_length blocks_length list_all_iff)
qed

lemma table_bit_in:
  assumes t: "table_ok t" and wc: "0 \<le> sint wc" "sint wc < 0x20000"
  shows "\<exists>b. table_bit t wc = Inr b"
proof -
  let ?i = "nat (sint wc div 256)"
  have i: "0 \<le> sint wc div 256" "?i < 512" using wc by (auto simp: pos_imp_zdiv_nonneg_iff)
  with t have len: "?i < length t" by (simp add: table_ok_def)
  have "take 512 t ! ?i \<in> set (take 512 t)" using i len by (intro nth_mem) simp
  with t i have blk: "unat (t ! ?i) * 32 + 32 \<le> length t" unfolding table_ok_def list_all_iff by fastforce
  have "unat (drop_bit 3 (wc AND 255)) < 32"
  proof -
    have "unat (wc AND 255) = unat wc AND 255" by (simp add: unsigned_and_eq)
    also have "\<dots> = unat wc mod 256"
      using take_bit_eq_mask [of 8 "unat wc"] by (simp add: take_bit_eq_mod mask_numeral)
    finally have "unat (wc AND 255) < 256" by simp
    then show ?thesis by (simp add: drop_bit_eq_div unat_div)
  qed
  with blk have "unat (t ! ?i) * 32 + unat (drop_bit 3 (wc AND 255)) < length t" by simp
  with i len show ?thesis by (auto simp: table_bit_def Let_def)
qed

lemma table_bit_negative: "sint wc < 0 \<Longrightarrow> table_bit t wc = Inl OutOfBounds"
  using pos_imp_zdiv_neg_iff [of 256 "sint wc"] by (simp add: table_bit_def Let_def)

lemma two_planes:
  fixes wc :: u32
  assumes "wc AND 0xfffeffff < 0xfffe"
  shows "unat wc < 0x20000"
proof -
  let ?m = "0xfffeffff :: u32"
  have "(wc AND ?m) + (wc AND NOT ?m) = (wc AND ?m) OR (wc AND NOT ?m)"
    by (rule disjunctive_add) (simp add: bit_simps)
  also have "\<dots> = wc" by (rule bit_word_eqI) (auto simp: bit_simps)
  finally have "unat wc \<le> unat (wc AND ?m) + unat (wc AND NOT ?m)" by (metis unat_plus_if' le_refl diff_le_self)
  moreover have "NOT ?m = 0x10000" by code_simp
  then have "unat (wc AND NOT ?m) \<le> 0x10000"
    using word_and_le1 [of wc "0x10000"] by (simp only: word_le_nat_alt) simp
  moreover have "unat (wc AND ?m) < 0xfffe" using assms by (simp add: word_less_nat_alt)
  ultimately show ?thesis by linarith
qed

text \<open>
  C31. The two-level table look-ups of \<^verbatim>\<open>iswalpha\<close>, \<^verbatim>\<open>iswalnum\<close> and \<^verbatim>\<open>wcwidth\<close> stay inside their tables
  for every non-negative character. \<^verbatim>\<open>wint_t\<close> is signed here, so for a negative one, \<^verbatim>\<open>WEOF\<close> among
  them, \<^verbatim>\<open>iswalpha\<close> reads before its table.
\<close>

theorem wide_lookups:
  "(0 \<le> sint wc \<longrightarrow> (\<exists>a b w. iswalpha wc = Inr a \<and> iswalnum wc = Inr b \<and> wcwidth wc = Inr w \<and> -1 \<le> w \<and> w \<le> 2)) \<and>
   (sint wc < 0 \<longrightarrow> iswalpha wc = Inl OutOfBounds) \<and> iswalpha (- 1) = Inl OutOfBounds"
proof (intro conjI impI)
  assume wc: "0 \<le> sint wc"
  have a: "\<exists>a. iswalpha wc = Inr a"
    using table_bit_in [OF tables_ok(1) wc] by (cases "sint wc < 0x20000") (auto simp: iswalpha_def)
  moreover have "\<exists>b. iswalnum wc = Inr b" using a by (auto simp: iswalnum_def)
  moreover have "\<exists>w. wcwidth wc = Inr w \<and> -1 \<le> w \<and> w \<le> 2"
  proof (cases "wc AND 0xfffeffff < 0xfffe")
    case True
    then have "sint wc < 0x20000" using two_planes [OF True] sint_nonneg [OF wc] by linarith
    then obtain z d where "table_bit nonspacing_table wc = Inr z" "table_bit wide_table wc = Inr d"
      using table_bit_in [OF tables_ok(2) wc] table_bit_in [OF tables_ok(3) wc] by blast
    then show ?thesis by (auto simp: wcwidth_def)
  qed (auto simp: wcwidth_def)
  ultimately show "\<exists>a b w. iswalpha wc = Inr a \<and> iswalnum wc = Inr b \<and> wcwidth wc = Inr w \<and> -1 \<le> w \<and> w \<le> 2" by blast
qed (simp_all add: iswalpha_def table_bit_negative)

theorem wide_lookups_witness:
  "(\<exists>a b w. iswalpha 0x4e2d = Inr a \<and> iswalnum 0x4e2d = Inr b \<and> wcwidth 0x4e2d = Inr w) \<and> iswalpha (- 7) = Inl OutOfBounds"
  using wide_lookups [of "0x4e2d"] wide_lookups [of "- 7"] by auto

end
