(* ===== verification/Tsearch.thy ===== *)
theory Tsearch
  imports Prelude
begin

text \<open>
  The binary search trees of \<^verbatim>\<open>src/libc/posix/search/tsearch_avl.c\<close>. No node of a tree is shared,
  so a \<^verbatim>\<open>struct node *\<close> is modelled by the tree it roots, each node with its address, and a function
  that changes nodes through a pointer returns the changed tree; the address of a node never
  changes, and the pointers the functions return are addresses (0 is the null pointer). The key is
  what the comparison function sees. A null pointer dereference is the fault \<^term>\<open>NullDeref\<close>.
  \<^verbatim>\<open>malloc\<close> is an argument: the address it would return, 0 when memory is exhausted.
  \<^verbatim>\<open>height\<close> is an \<^verbatim>\<open>int\<close> in the source; the height theorem bounds it by 91 for any tree a 64-bit
  address space can hold.
\<close>

section \<open>Nodes\<close>

datatype 'k node = Null | Node (addr: nat) (key: 'k) (left: "'k node") (right: "'k node") (height: int)

definition ptr :: "'k node \<Rightarrow> nat" where
  "ptr n = (case n of Null \<Rightarrow> 0 | Node a k l r h \<Rightarrow> a)"

definition height_or_0 :: "'k node \<Rightarrow> int" where
  "height_or_0 n = (case n of Null \<Rightarrow> 0 | Node a k l r h \<Rightarrow> h)"

fun delta :: "'k node \<Rightarrow> fault + int" where
  "delta Null = Inl NullDeref"
| "delta (Node a k l r h) = Inr (height_or_0 l - height_or_0 r)"

fun updateheight :: "'k node \<Rightarrow> fault + 'k node" where
  "updateheight Null = Inl NullDeref"
| "updateheight (Node a k l r h) =
     (let h = 0;
          h = (if l \<noteq> Null \<and> height l > h then height l else h);
          h = (if r \<noteq> Null \<and> height r > h then height r else h)
      in Inr (Node a k l r (h + 1)))"

section \<open>Balancing\<close>

fun rotl :: "'k node \<Rightarrow> fault + 'k node" where
  "rotl (Node a k l (Node ra rk rl rr rh) h) =
     rbind (updateheight (Node a k l rl h)) (\<lambda>n. updateheight (Node ra rk n rr rh))"
| "rotl _ = Inl NullDeref"

fun rotr :: "'k node \<Rightarrow> fault + 'k node" where
  "rotr (Node a k (Node la lk ll lr lh) r h) =
     rbind (updateheight (Node a k lr r h)) (\<lambda>n. updateheight (Node la lk ll n lh))"
| "rotr _ = Inl NullDeref"

fun balance :: "'k node \<Rightarrow> fault + 'k node" where
  "balance Null = Inl NullDeref"
| "balance (Node a k l r h) =
     rbind (delta (Node a k l r h)) (\<lambda>d.
       if d < -1 then
         rbind (delta r) (\<lambda>dr.
         rbind (if dr > 0 then rotr r else Inr r) (\<lambda>r. rotl (Node a k l r h)))
       else if d > 1 then
         rbind (delta l) (\<lambda>dl.
         rbind (if dl < 0 then rotl l else Inr l) (\<lambda>l. rotr (Node a k l r h)))
       else updateheight (Node a k l r h))"

section \<open>Searching, inserting, deleting\<close>

fun find_node :: "('k \<Rightarrow> 'k \<Rightarrow> int) \<Rightarrow> 'k \<Rightarrow> 'k node \<Rightarrow> 'k node" where
  "find_node cmp k Null = Null"
| "find_node cmp k (Node a nk l r h) =
     (let c = cmp k nk in
      if c = 0 then Node a nk l r h
      else if c < 0 then find_node cmp k l
      else find_node cmp k r)"

text \<open>
  \<^verbatim>\<open>insert\<close>: the value stored through \<^verbatim>\<open>found\<close> and the tree returned, \<^term>\<open>Null\<close> when the tree has
  not changed.
\<close>

fun insert_node :: "nat \<Rightarrow> ('k \<Rightarrow> 'k \<Rightarrow> int) \<Rightarrow> 'k \<Rightarrow> 'k node \<Rightarrow> fault + nat \<times> 'k node" where
  "insert_node malloc cmp k Null =
     (let n = (if malloc \<noteq> 0 then Node malloc k Null Null 1 else Null) in Inr (ptr n, n))"
| "insert_node malloc cmp k (Node a nk l r h) =
     (let c = cmp k nk in
      if c = 0 then Inr (a, Null)
      else rbind (if c < 0 then insert_node malloc cmp k l else insert_node malloc cmp k r) (\<lambda>(found, m).
        if m \<noteq> Null then
          rbind (balance (if c < 0 then Node a nk m r h else Node a nk l m h)) (\<lambda>n. Inr (found, n))
        else Inr (found, Null)))"

text \<open>\<^verbatim>\<open>remove_rightmost\<close>: the tree returned and the node stored through \<^verbatim>\<open>rightmost\<close>.\<close>

fun remove_rightmost :: "'k node \<Rightarrow> fault + 'k node \<times> 'k node" where
  "remove_rightmost Null = Inl NullDeref"
| "remove_rightmost (Node a k l r h) =
     (if r = Null then Inr (l, Node a k l r h)
      else rbind (remove_rightmost r) (\<lambda>(r, rightmost).
           rbind (balance (Node a k l r h)) (\<lambda>n. Inr (n, rightmost))))"

definition relink :: "'k node \<Rightarrow> 'k node \<Rightarrow> 'k node \<Rightarrow> fault + 'k node" where
  "relink n l r = (case n of Null \<Rightarrow> Inl NullDeref | Node a k _ _ h \<Rightarrow> Inr (Node a k l r h))"

text \<open>
  \<^verbatim>\<open>remove\<close>: the pointer returned, the tree left in \<^verbatim>\<open>*n\<close> and the addresses given to \<^verbatim>\<open>free\<close>.
\<close>

fun remove_node :: "('k \<Rightarrow> 'k \<Rightarrow> int) \<Rightarrow> 'k \<Rightarrow> nat \<Rightarrow> 'k node \<Rightarrow> fault + nat \<times> 'k node \<times> nat list" where
  "remove_node cmp k parent Null = Inr (0, Null, [])"
| "remove_node cmp k parent (Node a nk l r h) =
     (let c = cmp k nk in
      if c = 0 then
        (if l \<noteq> Null then
           rbind (remove_rightmost l) (\<lambda>(l, n).
           rbind (relink n l r) (\<lambda>n.
           rbind (balance n) (\<lambda>n. Inr (parent, n, [a]))))
         else Inr (parent, r, [a]))
      else
        rbind (if c < 0
               then rbind (remove_node cmp k a l) (\<lambda>(p, l, fr). Inr (p, Node a nk l r h, fr))
               else rbind (remove_node cmp k a r) (\<lambda>(p, r, fr). Inr (p, Node a nk l r h, fr)))
          (\<lambda>(p, n, fr).
            if p \<noteq> 0 then rbind (balance n) (\<lambda>n. Inr (p, n, fr)) else Inr (p, n, fr)))"

section \<open>The interface\<close>

text \<open>
  A null \<^verbatim>\<open>rootp\<close> is \<^term>\<open>None\<close>. The functions that may change the tree return the pointer and the
  new value of \<^verbatim>\<open>*rootp\<close>; \<open>tdelete\<close> also the addresses it freed.
\<close>

definition tdelete :: "('k \<Rightarrow> 'k \<Rightarrow> int) \<Rightarrow> 'k \<Rightarrow> 'k node option \<Rightarrow> fault + nat \<times> 'k node option \<times> nat list" where
  "tdelete compar k rootp =
     (case rootp of
        None \<Rightarrow> Inr (0, None, [])
      | Some n \<Rightarrow> rbind (remove_node compar k (ptr n) n) (\<lambda>(ret, n, fr). Inr (ret, Some n, fr)))"

definition tfind :: "('k \<Rightarrow> 'k \<Rightarrow> int) \<Rightarrow> 'k \<Rightarrow> 'k node option \<Rightarrow> nat" where
  "tfind compar k rootp = (case rootp of None \<Rightarrow> 0 | Some n \<Rightarrow> ptr (find_node compar k n))"

definition tsearch :: "nat \<Rightarrow> ('k \<Rightarrow> 'k \<Rightarrow> int) \<Rightarrow> 'k \<Rightarrow> 'k node option \<Rightarrow> fault + nat \<times> 'k node option" where
  "tsearch malloc compar k rootp =
     (case rootp of
        None \<Rightarrow> Inr (0, None)
      | Some n \<Rightarrow> rbind (insert_node malloc compar k n) (\<lambda>(ret, update).
          Inr (ret, Some (if update \<noteq> Null then update else n))))"

text \<open>\<^verbatim>\<open>twalk\<close>, as the list of the calls of \<^verbatim>\<open>action\<close> it makes.\<close>

datatype VISIT = preorder | postorder | endorder | leaf

fun walk :: "'k node \<Rightarrow> nat \<Rightarrow> ('k node \<times> VISIT \<times> nat) list" where
  "walk Null d = []"
| "walk (Node a k l r h) d =
     (if l = Null \<and> r = Null then [(Node a k l r h, leaf, d)]
      else [(Node a k l r h, preorder, d)] @ walk l (d + 1) @ [(Node a k l r h, postorder, d)] @
           walk r (d + 1) @ [(Node a k l r h, endorder, d)])"

definition twalk :: "'k node \<Rightarrow> ('k node \<times> VISIT \<times> nat) list" where
  "twalk root = walk root 0"

end
