(* ===== verification/Tsearch_Props.thy ===== *)
theory Tsearch_Props
  imports Tsearch
begin

text \<open>
  Correctness of the search trees: balance and order of every tree that the operations build, the
  operations as operations on the ascending sequence of the nodes, the height bound, and the order
  of traversal.
\<close>

section \<open>Invariant and abstraction\<close>

fun inorder :: "'k node \<Rightarrow> (nat \<times> 'k) list" where
  "inorder Null = []"
| "inorder (Node a k l r h) = inorder l @ (a, k) # inorder r"

fun avl :: "'k node \<Rightarrow> bool" where
  "avl Null = True"
| "avl (Node a k l r h) \<longleftrightarrow>
     a \<noteq> 0 \<and> avl l \<and> avl r \<and> h = 1 + max (height_or_0 l) (height_or_0 r) \<and>
     \<bar>height_or_0 l - height_or_0 r\<bar> \<le> 1"

definition ascending_keys :: "('k \<Rightarrow> 'k \<Rightarrow> int) \<Rightarrow> (nat \<times> 'k) list \<Rightarrow> bool" where
  "ascending_keys cmp xs \<longleftrightarrow> sorted_wrt (\<lambda>x y. cmp (snd x) (snd y) < 0) xs"

definition tree_ok :: "('k \<Rightarrow> 'k \<Rightarrow> int) \<Rightarrow> 'k node \<Rightarrow> bool" where
  "tree_ok cmp t \<longleftrightarrow> avl t \<and> ascending_keys cmp (inorder t)"

lemma height_simps [simp]:
  "height_or_0 Null = 0" "height_or_0 (Node a k l r h) = h" "ptr Null = 0" "ptr (Node a k l r h) = a"
  by (simp_all add: height_or_0_def ptr_def)

lemma avl_height_nonneg [intro, simp]: "avl t \<Longrightarrow> 0 \<le> height_or_0 t"
  by (induction t) auto

lemma avl_height_0 [simp]: "avl t \<Longrightarrow> height_or_0 t = 0 \<longleftrightarrow> t = Null"
  by (cases t) (auto dest: avl_height_nonneg)

lemma updateheight_avl:
  assumes "avl l" "avl r"
  shows "updateheight (Node a k l r h) = Inr (Node a k l r (1 + max (height_or_0 l) (height_or_0 r)))"
  using assms by (cases l; cases r) (auto simp: Let_def max_def dest: avl_height_nonneg)

text \<open>
  \<open>balance\<close> on two balanced subtrees whose heights differ by at most two: the node it returns is
  balanced, has the same nodes in the same order, and its height is the larger one or one more.
\<close>

lemma balance_level:
  assumes "avl l" "avl r" "\<bar>height_or_0 l - height_or_0 r\<bar> \<le> 1"
  shows "balance (Node a k l r h) = Inr (Node a k l r (1 + max (height_or_0 l) (height_or_0 r)))"
  using assms by (auto simp: updateheight_avl simp del: updateheight.simps)

lemma balance_right_heavy:
  assumes "a \<noteq> 0" "avl l" "avl r" "height_or_0 r = height_or_0 l + 2"
  shows "\<exists>t. balance (Node a k l r h) = Inr t \<and> avl t \<and> inorder t = inorder l @ (a, k) # inorder r \<and>
           height_or_0 r \<le> height_or_0 t \<and> height_or_0 t \<le> height_or_0 r + 1"
proof -
  obtain ra rk rl rr rh where r: "r = Node ra rk rl rr rh"
    using assms by (cases r) (auto dest: avl_height_nonneg)
  show ?thesis
  proof (cases "height_or_0 rl > height_or_0 rr")
    case False
    then show ?thesis using assms r by (auto simp: updateheight_avl simp del: updateheight.simps)
  next
    case True
    then obtain b bk bl br bh where "rl = Node b bk bl br bh"
      using assms r by (cases rl) (auto dest: avl_height_nonneg)
    then show ?thesis using assms r True by (auto simp: updateheight_avl simp del: updateheight.simps)
  qed
qed

lemma balance_left_heavy:
  assumes "a \<noteq> 0" "avl l" "avl r" "height_or_0 l = height_or_0 r + 2"
  shows "\<exists>t. balance (Node a k l r h) = Inr t \<and> avl t \<and> inorder t = inorder l @ (a, k) # inorder r \<and>
           height_or_0 l \<le> height_or_0 t \<and> height_or_0 t \<le> height_or_0 l + 1"
proof -
  obtain la lk ll lr lh where l: "l = Node la lk ll lr lh"
    using assms by (cases l) (auto dest: avl_height_nonneg)
  show ?thesis
  proof (cases "height_or_0 ll < height_or_0 lr")
    case False
    then show ?thesis using assms l by (auto simp: updateheight_avl simp del: updateheight.simps)
  next
    case True
    then obtain b bk bl br bh where "lr = Node b bk bl br bh"
      using assms l by (cases lr) (auto dest: avl_height_nonneg)
    then show ?thesis using assms l True by (auto simp: updateheight_avl simp del: updateheight.simps)
  qed
qed

lemma balance_avl:
  assumes "a \<noteq> 0" "avl l" "avl r" "\<bar>height_or_0 l - height_or_0 r\<bar> \<le> 2"
  obtains t where "balance (Node a k l r h) = Inr t" "avl t" "inorder t = inorder l @ (a, k) # inorder r"
    "t \<noteq> Null" "max (height_or_0 l) (height_or_0 r) \<le> height_or_0 t"
    "height_or_0 t \<le> max (height_or_0 l) (height_or_0 r) + 1"
    "\<bar>height_or_0 l - height_or_0 r\<bar> = 2 \<or> height_or_0 t = max (height_or_0 l) (height_or_0 r) + 1"
proof -
  consider "\<bar>height_or_0 l - height_or_0 r\<bar> \<le> 1" | "height_or_0 r = height_or_0 l + 2" | "height_or_0 l = height_or_0 r + 2"
    using assms by linarith
  then have "\<exists>t. balance (Node a k l r h) = Inr t \<and> avl t \<and> inorder t = inorder l @ (a, k) # inorder r \<and>
      max (height_or_0 l) (height_or_0 r) \<le> height_or_0 t \<and> height_or_0 t \<le> max (height_or_0 l) (height_or_0 r) + 1 \<and>
      (\<bar>height_or_0 l - height_or_0 r\<bar> = 2 \<or> height_or_0 t = max (height_or_0 l) (height_or_0 r) + 1)"
  proof cases
    case 1
    then show ?thesis using assms balance_level [of l r a k h] by (auto simp: max_def simp del: balance.simps)
  next
    case 2
    then show ?thesis using balance_right_heavy [of a l r k h] assms by (auto simp del: balance.simps)
  next
    case 3
    then show ?thesis using balance_left_heavy [of a l r k h] assms by (auto simp del: balance.simps)
  qed
  then obtain t where "balance (Node a k l r h) = Inr t" "avl t" "inorder t = inorder l @ (a, k) # inorder r"
      "max (height_or_0 l) (height_or_0 r) \<le> height_or_0 t" "height_or_0 t \<le> max (height_or_0 l) (height_or_0 r) + 1"
      "\<bar>height_or_0 l - height_or_0 r\<bar> = 2 \<or> height_or_0 t = max (height_or_0 l) (height_or_0 r) + 1"
    by blast
  moreover from this have "t \<noteq> Null" by auto
  ultimately show ?thesis using that by blast
qed

declare balance.simps [simp del]

section \<open>Operations on the sequence of nodes\<close>

text \<open>
  What the operations do to the ascending sequence of nodes: find the node with an equal key, put
  a node between the smaller and the larger ones, drop the equal one.
\<close>

definition lookup_seq :: "('k \<Rightarrow> 'k \<Rightarrow> int) \<Rightarrow> 'k \<Rightarrow> (nat \<times> 'k) list \<Rightarrow> nat" where
  "lookup_seq cmp k xs = (case filter (\<lambda>x. cmp k (snd x) = 0) xs of [] \<Rightarrow> 0 | x # _ \<Rightarrow> fst x)"

definition insert_seq :: "nat \<Rightarrow> ('k \<Rightarrow> 'k \<Rightarrow> int) \<Rightarrow> 'k \<Rightarrow> (nat \<times> 'k) list \<Rightarrow> (nat \<times> 'k) list" where
  "insert_seq a cmp k xs = filter (\<lambda>x. cmp k (snd x) > 0) xs @ (a, k) # filter (\<lambda>x. cmp k (snd x) < 0) xs"

definition delete_seq :: "('k \<Rightarrow> 'k \<Rightarrow> int) \<Rightarrow> 'k \<Rightarrow> (nat \<times> 'k) list \<Rightarrow> (nat \<times> 'k) list" where
  "delete_seq cmp k xs = filter (\<lambda>x. cmp k (snd x) \<noteq> 0) xs"

lemma ascending_keys_append:
  "ascending_keys cmp (xs @ (a, k) # ys) \<longleftrightarrow>
     ascending_keys cmp xs \<and> ascending_keys cmp ys \<and> (\<forall>x \<in> set xs. cmp (snd x) k < 0) \<and>
     (\<forall>y \<in> set ys. cmp k (snd y) < 0) \<and> (\<forall>x \<in> set xs. \<forall>y \<in> set ys. cmp (snd x) (snd y) < 0)"
  by (auto simp: ascending_keys_def sorted_wrt_append)

lemma total_preorder_less_trans:
  assumes "total_preorder cmp"
  shows "cmp x y \<le> 0 \<Longrightarrow> cmp y z < 0 \<Longrightarrow> cmp x z < 0" "cmp x y < 0 \<Longrightarrow> cmp y z \<le> 0 \<Longrightarrow> cmp x z < 0"
  using total_preorder_trans [OF assms] total_preorder_sign [OF assms] by (meson leD leI order.strict_implies_order)+

text \<open>A key below the middle node is below everything to its right, and symmetrically.\<close>

lemma key_side:
  assumes pre: "total_preorder cmp" and asc: "ascending_keys cmp (xs @ (a, x) # ys)"
  shows "cmp k x \<le> 0 \<Longrightarrow> \<forall>y \<in> set ys. cmp k (snd y) < 0"
    and "cmp k x \<ge> 0 \<Longrightarrow> \<forall>y \<in> set xs. cmp k (snd y) > 0"
proof -
  show "\<forall>y \<in> set ys. cmp k (snd y) < 0" if "cmp k x \<le> 0"
    using that asc total_preorder_less_trans(1) [OF pre] by (auto simp: ascending_keys_append)
  show "\<forall>y \<in> set xs. cmp k (snd y) > 0" if "cmp k x \<ge> 0"
    using that asc total_preorder_less_trans(2) [OF pre] total_preorder_sign [OF pre]
    by (simp add: ascending_keys_append) meson
qed

lemma filter_below:
  fixes cmp :: "'k \<Rightarrow> 'k \<Rightarrow> int"
  shows "\<forall>y \<in> set ys. cmp k (snd y) < 0 \<Longrightarrow>
     filter (\<lambda>x. cmp k (snd x) < 0) ys = ys \<and> filter (\<lambda>x. cmp k (snd x) > 0) ys = [] \<and>
     filter (\<lambda>x. cmp k (snd x) = 0) ys = [] \<and> filter (\<lambda>x. cmp k (snd x) \<noteq> 0) ys = ys"
  by (induction ys) auto

lemma filter_above:
  fixes cmp :: "'k \<Rightarrow> 'k \<Rightarrow> int"
  shows "\<forall>y \<in> set ys. cmp k (snd y) > 0 \<Longrightarrow>
     filter (\<lambda>x. cmp k (snd x) > 0) ys = ys \<and> filter (\<lambda>x. cmp k (snd x) < 0) ys = [] \<and>
     filter (\<lambda>x. cmp k (snd x) = 0) ys = [] \<and> filter (\<lambda>x. cmp k (snd x) \<noteq> 0) ys = ys"
  by (induction ys) auto

lemma seq_split:
  assumes pre: "total_preorder cmp" and asc: "ascending_keys cmp (xs @ (a, x) # ys)"
  shows "cmp k x = 0 \<Longrightarrow> lookup_seq cmp k (xs @ (a, x) # ys) = a"
    "cmp k x < 0 \<Longrightarrow> lookup_seq cmp k (xs @ (a, x) # ys) = lookup_seq cmp k xs"
    "cmp k x > 0 \<Longrightarrow> lookup_seq cmp k (xs @ (a, x) # ys) = lookup_seq cmp k ys"
    "cmp k x < 0 \<Longrightarrow> insert_seq m cmp k (xs @ (a, x) # ys) = insert_seq m cmp k xs @ (a, x) # ys"
    "cmp k x > 0 \<Longrightarrow> insert_seq m cmp k (xs @ (a, x) # ys) = xs @ (a, x) # insert_seq m cmp k ys"
    "cmp k x = 0 \<Longrightarrow> delete_seq cmp k (xs @ (a, x) # ys) = xs @ ys"
    "cmp k x < 0 \<Longrightarrow> delete_seq cmp k (xs @ (a, x) # ys) = delete_seq cmp k xs @ (a, x) # ys"
    "cmp k x > 0 \<Longrightarrow> delete_seq cmp k (xs @ (a, x) # ys) = xs @ (a, x) # delete_seq cmp k ys"
  using key_side [OF assms, of k]
  by (simp_all add: lookup_seq_def insert_seq_def delete_seq_def filter_below filter_above)

lemma ascending_insert:
  assumes pre: "total_preorder cmp" and asc: "ascending_keys cmp xs"
  shows "ascending_keys cmp (insert_seq m cmp k xs)"
proof -
  have "cmp (snd x) (snd y) < 0" if "cmp k (snd x) > 0" "cmp k (snd y) < 0" for x y :: "nat \<times> _"
    using that total_preorder_less_trans(1) [OF pre, of "snd x" k "snd y"] total_preorder_sign(1) [OF pre, of "snd x" k] by simp
  moreover have "cmp (snd x) k < 0" if "cmp k (snd x) > 0" for x :: "nat \<times> _"
    using that total_preorder_sign [OF pre] by blast
  ultimately show ?thesis
    using asc unfolding insert_seq_def ascending_keys_append by (auto simp: ascending_keys_def sorted_wrt_filter)
qed

lemma ascending_delete: "ascending_keys cmp xs \<Longrightarrow> ascending_keys cmp (delete_seq cmp k xs)"
  by (simp add: ascending_keys_def delete_seq_def sorted_wrt_filter)

section \<open>The operations refine the sequence\<close>

lemma find_node_seq:
  assumes pre: "total_preorder cmp"
  shows "tree_ok cmp t \<Longrightarrow> ptr (find_node cmp k t) = lookup_seq cmp k (inorder t)"
proof (induction t)
  case Null
  then show ?case by (simp add: lookup_seq_def)
next
  case (Node a x l r h)
  then have "tree_ok cmp l" "tree_ok cmp r" and asc: "ascending_keys cmp (inorder l @ (a, x) # inorder r)"
    by (auto simp: tree_ok_def ascending_keys_append)
  with Node.IH show ?case
    using seq_split(1-3) [OF pre asc, of k] by (auto simp: Let_def)
qed

lemma tree_ok_children:
  assumes "tree_ok cmp (Node a x l r h)"
  shows "tree_ok cmp l" "tree_ok cmp r" "ascending_keys cmp (inorder l @ (a, x) # inorder r)"
    "a \<noteq> 0" "avl l" "avl r" "h = 1 + max (height_or_0 l) (height_or_0 r)" "\<bar>height_or_0 l - height_or_0 r\<bar> \<le> 1"
  using assms by (auto simp: tree_ok_def ascending_keys_append)

lemma lookup_seq_0:
  "(\<forall>x \<in> set xs. fst x \<noteq> 0) \<Longrightarrow> lookup_seq cmp k xs = 0 \<longleftrightarrow> (\<forall>x \<in> set xs. cmp k (snd x) \<noteq> 0)"
  by (induction xs) (auto simp: lookup_seq_def)

lemma avl_addrs: "avl t \<Longrightarrow> x \<in> set (inorder t) \<Longrightarrow> fst x \<noteq> 0"
  by (induction t) auto

lemma insert_node_seq:
  assumes pre: "total_preorder cmp"
  shows "tree_ok cmp t \<Longrightarrow>
    (if lookup_seq cmp k (inorder t) \<noteq> 0 then insert_node m cmp k t = Inr (lookup_seq cmp k (inorder t), Null)
     else if m = 0 then insert_node m cmp k t = Inr (0, Null)
     else \<exists>u. insert_node m cmp k t = Inr (m, u) \<and> u \<noteq> Null \<and> avl u \<and>
            inorder u = insert_seq m cmp k (inorder t) \<and>
            height_or_0 t \<le> height_or_0 u \<and> height_or_0 u \<le> height_or_0 t + 1)"
    (is "_ \<Longrightarrow> ?P t")
proof (induction t)
  case Null
  then show ?case by (simp add: lookup_seq_def insert_seq_def)
next
  case (Node a x l r h)
  note ok = tree_ok_children [OF Node.prems]
  note split = seq_split [OF pre ok(3), of k]
  note IH = Node.IH(1) [OF ok(1)] Node.IH(2) [OF ok(2)]
  consider "cmp k x = 0" | "cmp k x < 0" | "cmp k x > 0" by linarith
  then show ?case
  proof cases
    case 1
    then show ?thesis using split(1) ok(4) by simp
  next
    case 2
    show ?thesis
    proof (cases "lookup_seq cmp k (inorder l) \<noteq> 0 \<or> m = 0")
      case True
      then show ?thesis using 2 IH(1) split(2) by (auto simp: Let_def split: if_splits)
    next
      case False
      with IH(1) obtain u where u: "insert_node m cmp k l = Inr (m, u)" "u \<noteq> Null" "avl u"
        "inorder u = insert_seq m cmp k (inorder l)" "height_or_0 l \<le> height_or_0 u" "height_or_0 u \<le> height_or_0 l + 1"
        by auto
      obtain t where "balance (Node a x u r h) = Inr t" "avl t" "inorder t = inorder u @ (a, x) # inorder r" "t \<noteq> Null"
          "max (height_or_0 u) (height_or_0 r) \<le> height_or_0 t" "height_or_0 t \<le> max (height_or_0 u) (height_or_0 r) + 1"
          "\<bar>height_or_0 u - height_or_0 r\<bar> = 2 \<or> height_or_0 t = max (height_or_0 u) (height_or_0 r) + 1"
        by (rule balance_avl [of a u r x h]) (use u ok in auto)
      then show ?thesis using False 2 u ok split(2,4) by (auto simp: Let_def max_def split: if_splits)
    qed
  next
    case 3
    show ?thesis
    proof (cases "lookup_seq cmp k (inorder r) \<noteq> 0 \<or> m = 0")
      case True
      then show ?thesis using 3 IH(2) split(3) by (auto simp: Let_def split: if_splits)
    next
      case False
      with IH(2) obtain u where u: "insert_node m cmp k r = Inr (m, u)" "u \<noteq> Null" "avl u"
        "inorder u = insert_seq m cmp k (inorder r)" "height_or_0 r \<le> height_or_0 u" "height_or_0 u \<le> height_or_0 r + 1"
        by auto
      obtain t where "balance (Node a x l u h) = Inr t" "avl t" "inorder t = inorder l @ (a, x) # inorder u" "t \<noteq> Null"
          "max (height_or_0 l) (height_or_0 u) \<le> height_or_0 t" "height_or_0 t \<le> max (height_or_0 l) (height_or_0 u) + 1"
          "\<bar>height_or_0 l - height_or_0 u\<bar> = 2 \<or> height_or_0 t = max (height_or_0 l) (height_or_0 u) + 1"
        by (rule balance_avl [of a l u x h]) (use u ok in auto)
      then show ?thesis using False 3 u ok split(3,5) by (auto simp: Let_def max_def split: if_splits)
    qed
  qed
qed

lemma remove_rightmost_seq:
  assumes "avl t" "t \<noteq> Null"
  obtains u a k l r h where "remove_rightmost t = Inr (u, Node a k l r h)" "a \<noteq> 0" "avl u"
    "inorder t = inorder u @ [(a, k)]" "height_or_0 t - 1 \<le> height_or_0 u" "height_or_0 u \<le> height_or_0 t"
proof -
  have "\<exists>u a k l r h. remove_rightmost t = Inr (u, Node a k l r h) \<and> a \<noteq> 0 \<and> avl u \<and>
      inorder t = inorder u @ [(a, k)] \<and> height_or_0 t - 1 \<le> height_or_0 u \<and> height_or_0 u \<le> height_or_0 t"
    using assms
  proof (induction t)
    case (Node a x l r h)
    show ?case
    proof (cases "r = Null")
      case True
      then show ?thesis using Node.prems by auto
    next
      case False
      with Node obtain u b k bl br bh where u: "remove_rightmost r = Inr (u, Node b k bl br bh)" "b \<noteq> 0" "avl u"
        "inorder r = inorder u @ [(b, k)]" "height_or_0 r - 1 \<le> height_or_0 u" "height_or_0 u \<le> height_or_0 r"
        by auto
      obtain t where "balance (Node a x l u h) = Inr t" "avl t" "inorder t = inorder l @ (a, x) # inorder u" "t \<noteq> Null"
          "max (height_or_0 l) (height_or_0 u) \<le> height_or_0 t" "height_or_0 t \<le> max (height_or_0 l) (height_or_0 u) + 1"
          "\<bar>height_or_0 l - height_or_0 u\<bar> = 2 \<or> height_or_0 t = max (height_or_0 l) (height_or_0 u) + 1"
        by (rule balance_avl [of a l u x h]) (use u Node.prems in auto)
      then show ?thesis using False u Node.prems by (auto simp: max_def split: if_splits)
    qed
  qed simp
  then show ?thesis using that by blast
qed

fun child_of :: "'k node \<Rightarrow> nat \<Rightarrow> nat \<Rightarrow> bool" where
  "child_of Null p c \<longleftrightarrow> False"
| "child_of (Node a k l r h) p c \<longleftrightarrow>
     a = p \<and> (l \<noteq> Null \<and> ptr l = c \<or> r \<noteq> Null \<and> ptr r = c) \<or> child_of l p c \<or> child_of r p c"

lemma remove_root_seq:
  assumes "a \<noteq> 0" "avl l" "avl r" "l \<noteq> Null" "\<bar>height_or_0 l - height_or_0 r\<bar> \<le> 1"
    "h = 1 + max (height_or_0 l) (height_or_0 r)" "cmp k x = 0"
  shows "\<exists>u. remove_node cmp k p (Node a x l r h) = Inr (p, u, [a]) \<and> avl u \<and> inorder u = inorder l @ inorder r \<and>
           h - 1 \<le> height_or_0 u \<and> height_or_0 u \<le> h"
proof -
  obtain l' b y bl br bh where l': "remove_rightmost l = Inr (l', Node b y bl br bh)" "b \<noteq> 0" "avl l'"
      "inorder l = inorder l' @ [(b, y)]" "height_or_0 l - 1 \<le> height_or_0 l'" "height_or_0 l' \<le> height_or_0 l"
    using remove_rightmost_seq [OF assms(2,4)] by blast
  obtain t where "balance (Node b y l' r bh) = Inr t" "avl t" "inorder t = inorder l' @ (b, y) # inorder r" "t \<noteq> Null"
      "max (height_or_0 l') (height_or_0 r) \<le> height_or_0 t" "height_or_0 t \<le> max (height_or_0 l') (height_or_0 r) + 1"
      "\<bar>height_or_0 l' - height_or_0 r\<bar> = 2 \<or> height_or_0 t = max (height_or_0 l') (height_or_0 r) + 1"
    by (rule balance_avl [of b l' r y bh]) (use l' assms in auto)
  then show ?thesis using l' assms by (auto simp: relink_def max_def split: if_splits)
qed

lemma remove_node_seq:
  assumes pre: "total_preorder cmp"
  shows "tree_ok cmp t \<Longrightarrow> p \<noteq> 0 \<Longrightarrow>
    (if lookup_seq cmp k (inorder t) = 0 then remove_node cmp k p t = Inr (0, t, [])
     else \<exists>q u. remove_node cmp k p t = Inr (q, u, [lookup_seq cmp k (inorder t)]) \<and> q \<noteq> 0 \<and> avl u \<and>
            inorder u = delete_seq cmp k (inorder t) \<and> height_or_0 t - 1 \<le> height_or_0 u \<and> height_or_0 u \<le> height_or_0 t \<and>
            (if cmp k (key t) = 0 then ptr t = lookup_seq cmp k (inorder t) \<and> q = p
             else child_of t q (lookup_seq cmp k (inorder t))))"
proof (induction t arbitrary: p)
  case Null
  then show ?case by (simp add: lookup_seq_def)
next
  case (Node a x l r h)
  note ok = tree_ok_children [OF Node.prems(1)]
  note split = seq_split [OF pre ok(3), of k]
  note IH = Node.IH(1) [OF ok(1) ok(4)] Node.IH(2) [OF ok(2) ok(4)]
  consider "cmp k x = 0" | "cmp k x < 0" | "cmp k x > 0" by linarith
  then show ?case
  proof cases
    case 1
    show ?thesis
    proof (cases "l = Null")
      case True
      then show ?thesis using 1 ok split(1,6) Node.prems by auto
    next
      case False
      then show ?thesis
        using remove_root_seq [of a l r h cmp k x p] 1 ok split(1,6) Node.prems by (auto simp del: remove_node.simps)
    qed
  next
    case 2
    show ?thesis
    proof (cases "lookup_seq cmp k (inorder l) = 0")
      case True
      then show ?thesis using 2 IH(1) split(2) by simp
    next
      case False
      with IH(1) obtain q u where u: "remove_node cmp k a l = Inr (q, u, [lookup_seq cmp k (inorder l)])" "q \<noteq> 0" "avl u"
        "inorder u = delete_seq cmp k (inorder l)" "height_or_0 l - 1 \<le> height_or_0 u" "height_or_0 u \<le> height_or_0 l"
        "if cmp k (key l) = 0 then ptr l = lookup_seq cmp k (inorder l) \<and> q = a else child_of l q (lookup_seq cmp k (inorder l))"
        by auto
      have "l \<noteq> Null" using False by (auto simp: lookup_seq_def)
      then have child: "child_of (Node a x l r h) q (lookup_seq cmp k (inorder l))" using u(7) by (auto split: if_splits)
      obtain t where "balance (Node a x u r h) = Inr t" "avl t" "inorder t = inorder u @ (a, x) # inorder r" "t \<noteq> Null"
          "max (height_or_0 u) (height_or_0 r) \<le> height_or_0 t" "height_or_0 t \<le> max (height_or_0 u) (height_or_0 r) + 1"
          "\<bar>height_or_0 u - height_or_0 r\<bar> = 2 \<or> height_or_0 t = max (height_or_0 u) (height_or_0 r) + 1"
        by (rule balance_avl [of a u r x h]) (use u ok in auto)
      then show ?thesis using False 2 u(1-6) ok split(2,7) child
        by (auto simp: Let_def max_def simp del: child_of.simps split: if_splits)
    qed
  next
    case 3
    show ?thesis
    proof (cases "lookup_seq cmp k (inorder r) = 0")
      case True
      then show ?thesis using 3 IH(2) split(3) by simp
    next
      case False
      with IH(2) obtain q u where u: "remove_node cmp k a r = Inr (q, u, [lookup_seq cmp k (inorder r)])" "q \<noteq> 0" "avl u"
        "inorder u = delete_seq cmp k (inorder r)" "height_or_0 r - 1 \<le> height_or_0 u" "height_or_0 u \<le> height_or_0 r"
        "if cmp k (key r) = 0 then ptr r = lookup_seq cmp k (inorder r) \<and> q = a else child_of r q (lookup_seq cmp k (inorder r))"
        by auto
      have "r \<noteq> Null" using False by (auto simp: lookup_seq_def)
      then have child: "child_of (Node a x l r h) q (lookup_seq cmp k (inorder r))" using u(7) by (auto split: if_splits)
      obtain t where "balance (Node a x l u h) = Inr t" "avl t" "inorder t = inorder l @ (a, x) # inorder u" "t \<noteq> Null"
          "max (height_or_0 l) (height_or_0 u) \<le> height_or_0 t" "height_or_0 t \<le> max (height_or_0 l) (height_or_0 u) + 1"
          "\<bar>height_or_0 l - height_or_0 u\<bar> = 2 \<or> height_or_0 t = max (height_or_0 l) (height_or_0 u) + 1"
        by (rule balance_avl [of a l u x h]) (use u ok in auto)
      then show ?thesis using False 3 u(1-6) ok split(3,8) child
        by (auto simp: Let_def max_def simp del: child_of.simps split: if_splits)
    qed
  qed
qed

section \<open>Height\<close>

fun depth :: "'k node \<Rightarrow> nat" where
  "depth Null = 0"
| "depth (Node a k l r h) = Suc (max (depth l) (depth r))"

fun fib_pair :: "nat \<Rightarrow> int \<times> int" where
  "fib_pair 0 = (0, 1)"
| "fib_pair (Suc n) = (case fib_pair n of (a, b) \<Rightarrow> (b, a + b))"

definition fib :: "nat \<Rightarrow> int" where
  "fib n = fst (fib_pair n)"

lemma fib_pair_fib: "fib_pair n = (fib n, fib (Suc n))"
  by (induction n) (auto simp: fib_def split: prod.splits)

lemma fib_simps: "fib 0 = 0" "fib (Suc 0) = 1" "fib (Suc (Suc n)) = fib (Suc n) + fib n"
  by (simp_all add: fib_def split: prod.splits)

lemma fib_nonneg: "0 \<le> fib n \<and> 0 \<le> fib (Suc n)"
  by (induction n) (simp_all add: fib_simps)

lemma fib_mono: "m \<le> n \<Longrightarrow> fib m \<le> fib n"
proof (rule lift_Suc_mono_le [of fib])
  show "fib i \<le> fib (Suc i)" for i
    using fib_nonneg [of "i - 1"] by (cases i) (auto simp: fib_simps)
qed

lemma avl_depth: "avl t \<Longrightarrow> height_or_0 t = int (depth t)"
  by (induction t) auto

lemma avl_size: "avl t \<Longrightarrow> fib (depth t + 2) \<le> int (length (inorder t)) + 1"
proof (induction t)
  case (Node a k l r h)
  then have IH: "fib (depth l + 2) \<le> int (length (inorder l)) + 1" "fib (depth r + 2) \<le> int (length (inorder r)) + 1"
    and near: "depth l \<le> depth r + 1" "depth r \<le> depth l + 1"
    by (auto simp: avl_depth)
  have "fib (max (depth l) (depth r) + 2) + fib (max (depth l) (depth r) + 1) \<le> fib (depth l + 2) + fib (depth r + 2)"
    using near fib_mono [of "max (depth l) (depth r) + 1" "depth l + 2"] fib_mono [of "max (depth l) (depth r) + 1" "depth r + 2"]
    by (auto simp: max_def)
  with IH show ?case by (simp add: fib_simps numeral_2_eq_2)
qed (simp add: fib_simps numeral_2_eq_2)

lemma fib_limits: "fib 48 > 2 ^ 32 + 1" "fib 94 > 2 ^ 64 + 1"
  unfolding fib_def by code_simp+

lemma avl_depth_limits:
  assumes "avl t"
  shows "length (inorder t) \<le> 2 ^ 32 \<Longrightarrow> depth t \<le> 45" "length (inorder t) \<le> 2 ^ 64 \<Longrightarrow> depth t \<le> 91"
proof -
  have le: "fib (depth t + 2) \<le> int (length (inorder t)) + 1" by (rule avl_size [OF assms])
  show "depth t \<le> 45" if "length (inorder t) \<le> 2 ^ 32"
  proof (rule ccontr)
    assume "\<not> depth t \<le> 45"
    then have "fib 48 \<le> fib (depth t + 2)" by (intro fib_mono) simp
    moreover have "int (length (inorder t)) \<le> 2 ^ 32" using that by (metis of_nat_le_iff of_nat_numeral of_nat_power)
    ultimately show False using le fib_limits(1) by linarith
  qed
  show "depth t \<le> 91" if "length (inorder t) \<le> 2 ^ 64"
  proof (rule ccontr)
    assume "\<not> depth t \<le> 91"
    then have "fib 94 \<le> fib (depth t + 2)" by (intro fib_mono) simp
    moreover have "int (length (inorder t)) \<le> 2 ^ 64" using that by (metis of_nat_le_iff of_nat_numeral of_nat_power)
    ultimately show False using le fib_limits(2) by linarith
  qed
qed

section \<open>Traversal\<close>

fun preorder_seq :: "'k node \<Rightarrow> (nat \<times> 'k) list" where
  "preorder_seq Null = []"
| "preorder_seq (Node a k l r h) = (a, k) # preorder_seq l @ preorder_seq r"

fun endorder_seq :: "'k node \<Rightarrow> (nat \<times> 'k) list" where
  "endorder_seq Null = []"
| "endorder_seq (Node a k l r h) = endorder_seq l @ endorder_seq r @ [(a, k)]"

fun at_depth :: "'k node \<Rightarrow> nat \<Rightarrow> 'k node \<Rightarrow> bool" where
  "at_depth t 0 n \<longleftrightarrow> t = n \<and> n \<noteq> Null"
| "at_depth Null (Suc d) n \<longleftrightarrow> False"
| "at_depth (Node a k l r h) (Suc d) n \<longleftrightarrow> at_depth l d n \<or> at_depth r d n"

definition visits :: "VISIT list \<Rightarrow> ('k node \<times> VISIT \<times> nat) list \<Rightarrow> (nat \<times> 'k) list" where
  "visits vs calls = map (\<lambda>(n, v, d). (addr n, key n)) (filter (\<lambda>(n, v, d). v \<in> set vs) calls)"

lemma visits_walk:
  "visits [postorder, leaf] (walk t d) = inorder t"
  "visits [preorder, leaf] (walk t d) = preorder_seq t"
  "visits [endorder, leaf] (walk t d) = endorder_seq t"
  by (induction t arbitrary: d) (auto simp: visits_def)

lemma walk_depth: "(n, v, e) \<in> set (walk t d) \<Longrightarrow> d \<le> e \<and> at_depth t (e - d) n"
proof (induction t arbitrary: d)
  case (Node a k l r h)
  show ?case
  proof (cases "(n, v, e) \<in> set (walk l (Suc d)) \<union> set (walk r (Suc d))")
    case True
    then have "Suc d \<le> e" "at_depth l (e - Suc d) n \<or> at_depth r (e - Suc d) n"
      using Node.IH(1) [of "Suc d"] Node.IH(2) [of "Suc d"] by auto
    moreover from this have "e - d = Suc (e - Suc d)" by simp
    ultimately show ?thesis by simp
  next
    case False
    then show ?thesis using Node.prems by (auto split: if_splits)
  qed
qed simp

section \<open>The interface\<close>

lemma tfind_seq: "total_preorder cmp \<Longrightarrow> tree_ok cmp t \<Longrightarrow> tfind cmp k (Some t) = lookup_seq cmp k (inorder t)"
  using find_node_seq by (simp add: tfind_def)

lemma tsearch_seq:
  assumes pre: "total_preorder cmp" and ok: "tree_ok cmp t"
  shows "if lookup_seq cmp k (inorder t) \<noteq> 0 \<or> m = 0
         then tsearch m cmp k (Some t) = Inr (lookup_seq cmp k (inorder t), Some t)
         else \<exists>u. tsearch m cmp k (Some t) = Inr (m, Some u) \<and> tree_ok cmp u \<and> inorder u = insert_seq m cmp k (inorder t)"
proof -
  have "ascending_keys cmp (inorder t)" using ok by (simp add: tree_ok_def)
  then show ?thesis
    using insert_node_seq [OF pre ok, of k m] ascending_insert [OF pre, of "inorder t" m k]
    unfolding tsearch_def tree_ok_def by (auto split: if_splits)
qed

lemma tdelete_seq:
  assumes pre: "total_preorder cmp" and ok: "tree_ok cmp t"
  shows "if lookup_seq cmp k (inorder t) = 0 then tdelete cmp k (Some t) = Inr (0, Some t, [])
         else \<exists>p u. tdelete cmp k (Some t) = Inr (p, Some u, [lookup_seq cmp k (inorder t)]) \<and> tree_ok cmp u \<and>
                inorder u = delete_seq cmp k (inorder t) \<and> p \<noteq> 0 \<and>
                (if cmp k (key t) = 0 then p = ptr t else child_of t p (lookup_seq cmp k (inorder t)))"
proof (cases "t = Null")
  case True
  then show ?thesis by (simp add: lookup_seq_def tdelete_def)
next
  case False
  then have "ptr t \<noteq> 0" using ok by (cases t) (auto simp: tree_ok_def)
  moreover have "ascending_keys cmp (delete_seq cmp k (inorder t))" using ok ascending_delete by (auto simp: tree_ok_def)
  ultimately show ?thesis
    using remove_node_seq [OF pre ok, of "ptr t" k]
    unfolding tdelete_def tree_ok_def by (auto simp del: remove_node.simps split: if_splits)
qed

text \<open>Sequences of calls on one tree, with the result of \<^verbatim>\<open>malloc\<close> in each.\<close>

datatype 'k tree_op = Search nat 'k | Delete 'k

fun tree_runs :: "('k \<Rightarrow> 'k \<Rightarrow> int) \<Rightarrow> 'k tree_op list \<Rightarrow> 'k node \<Rightarrow> fault + 'k node" where
  "tree_runs cmp [] t = Inr t"
| "tree_runs cmp (Search m k # ops) t =
     rbind (tsearch m cmp k (Some t)) (\<lambda>(p, t). tree_runs cmp ops (the t))"
| "tree_runs cmp (Delete k # ops) t =
     rbind (tdelete cmp k (Some t)) (\<lambda>(p, t, fr). tree_runs cmp ops (the t))"

fun seq_op :: "('k \<Rightarrow> 'k \<Rightarrow> int) \<Rightarrow> (nat \<times> 'k) list \<Rightarrow> 'k tree_op \<Rightarrow> (nat \<times> 'k) list" where
  "seq_op cmp xs (Search m k) = (if lookup_seq cmp k xs \<noteq> 0 \<or> m = 0 then xs else insert_seq m cmp k xs)"
| "seq_op cmp xs (Delete k) = (if lookup_seq cmp k xs = 0 then xs else delete_seq cmp k xs)"

lemma tree_runs_seq:
  assumes pre: "total_preorder cmp"
  shows "tree_ok cmp t \<Longrightarrow>
    \<exists>u. tree_runs cmp ops t = Inr u \<and> tree_ok cmp u \<and> inorder u = foldl (seq_op cmp) (inorder t) ops"
proof (induction ops arbitrary: t)
  case (Cons op ops)
  show ?case
  proof (cases op)
    case (Search m k)
    then show ?thesis using tsearch_seq [OF pre Cons.prems, of k m] Cons.IH Cons.prems by (fastforce split: if_splits)
  next
    case (Delete k)
    then show ?thesis using tdelete_seq [OF pre Cons.prems, of k] Cons.IH Cons.prems by (fastforce split: if_splits)
  qed
qed simp

lemma tree_ok_empty [simp]: "tree_ok cmp Null"
  by (simp add: tree_ok_def ascending_keys_def)

section \<open>Properties\<close>

text \<open>
  C32. On a balanced tree with ascending keys, and for a comparison function that is a total
  preorder, \<open>tfind\<close> returns the node with an equal key or null; \<open>tsearch\<close> returns that node and
  changes nothing when there is one, returns null and changes nothing when memory is exhausted, and
  otherwise returns the new node, inserted at its place in the order; \<open>tdelete\<close> removes and frees
  exactly the node with an equal key and returns its parent, or the root's own address for the
  root, and returns null and changes nothing when there is none. No operation dereferences a null
  pointer and the trees left behind are balanced and ascending again.
\<close>

theorem tree_operations:
  assumes "total_preorder cmp" and "tree_ok cmp t"
  shows "tfind cmp k (Some t) = lookup_seq cmp k (inorder t) \<and>
    (if lookup_seq cmp k (inorder t) \<noteq> 0 \<or> m = 0
     then tsearch m cmp k (Some t) = Inr (lookup_seq cmp k (inorder t), Some t)
     else \<exists>u. tsearch m cmp k (Some t) = Inr (m, Some u) \<and> tree_ok cmp u \<and> inorder u = insert_seq m cmp k (inorder t)) \<and>
    (if lookup_seq cmp k (inorder t) = 0 then tdelete cmp k (Some t) = Inr (0, Some t, [])
     else \<exists>p u. tdelete cmp k (Some t) = Inr (p, Some u, [lookup_seq cmp k (inorder t)]) \<and> tree_ok cmp u \<and>
            inorder u = delete_seq cmp k (inorder t) \<and> p \<noteq> 0 \<and>
            (if cmp k (key t) = 0 then p = ptr t else child_of t p (lookup_seq cmp k (inorder t))))"
  using tfind_seq [OF assms] tsearch_seq [OF assms] tdelete_seq [OF assms] by blast

definition demo_tree :: "int node" where
  "demo_tree = Node 2 20 (Node 1 10 Null Null 1) (Node 3 30 Null (Node 4 40 Null Null 1) 2) 3"

lemma demo_tree_ok: "tree_ok (-) demo_tree" "total_preorder ((-) :: int \<Rightarrow> int \<Rightarrow> int)"
  by (auto simp: demo_tree_def tree_ok_def ascending_keys_def total_preorder_def sgn_if)

theorem tree_operations_witness:
  "tfind (-) 30 (Some demo_tree) = 3 \<and> (\<exists>u. tsearch 7 (-) 25 (Some demo_tree) = Inr (7, Some u) \<and>
     inorder u = [(1, 10), (2, 20), (7, 25), (3, 30), (4, 40)]) \<and>
   (\<exists>u. tdelete (-) 10 (Some demo_tree) = Inr (2, Some u, [1]) \<and> inorder u = [(2, 20), (3, 30), (4, 40)])"
  using tree_operations [OF demo_tree_ok(2,1), of 30 7] tree_operations [OF demo_tree_ok(2,1), of 25 7]
    tree_operations [OF demo_tree_ok(2,1), of 10 7]
  by (auto simp: demo_tree_def lookup_seq_def insert_seq_def delete_seq_def)

text \<open>
  C33. Any sequence of \<open>tsearch\<close> and \<open>tdelete\<close> calls from the empty tree, whatever \<^verbatim>\<open>malloc\<close> returns,
  runs without a fault, and keeps the height field of every node exact and the nodes those of the
  ordered sequence. The recursion depth obeys the bound the source states: with \<open>n\<close> nodes
  \<open>fib (depth + 2) \<le> n + 1\<close>, so it is at most 45 for a tree of \<open>2 ^ 32\<close> nodes, and at most 91 for
  \<open>2 ^ 64\<close>, so the \<^verbatim>\<open>int\<close> heights cannot overflow.
\<close>

theorem tree_height:
  assumes "total_preorder cmp"
  shows "\<exists>t. tree_runs cmp ops Null = Inr t \<and> tree_ok cmp t \<and> inorder t = foldl (seq_op cmp) [] ops \<and>
    height_or_0 t = int (depth t) \<and> fib (depth t + 2) \<le> int (length (inorder t)) + 1 \<and>
    (length (inorder t) \<le> 2 ^ 32 \<longrightarrow> depth t \<le> 45) \<and> (length (inorder t) \<le> 2 ^ 64 \<longrightarrow> depth t \<le> 91)"
proof -
  obtain t where t: "tree_runs cmp ops Null = Inr t" "tree_ok cmp t" "inorder t = foldl (seq_op cmp) [] ops"
    using tree_runs_seq [OF assms, of Null ops] by auto
  then have "avl t" by (simp add: tree_ok_def)
  with t show ?thesis using avl_depth avl_size avl_depth_limits by blast
qed

theorem tree_height_witness:
  "\<exists>t. tree_runs (-) [Search 1 5, Search 2 7, Search 3 9, Search 0 11, Delete (5 :: int)] Null = Inr t \<and>
       inorder t = [(2, 7), (3, 9)] \<and> depth t \<le> 45"
  using tree_height [OF demo_tree_ok(2), of "[Search 1 5, Search 2 7, Search 3 9, Search 0 11, Delete 5]"]
  by (fastforce simp: lookup_seq_def insert_seq_def delete_seq_def)

text \<open>
  C34. \<open>twalk\<close> reports every leaf once and every inner node three times: the calls with \<^verbatim>\<open>preorder\<close> or
  \<^verbatim>\<open>leaf\<close> list the nodes parent first, those with \<^verbatim>\<open>postorder\<close> or \<^verbatim>\<open>leaf\<close> in ascending order, those
  with \<^verbatim>\<open>endorder\<close> or \<^verbatim>\<open>leaf\<close> children first, and the level passed is the depth of the node.
\<close>

theorem twalk_orders:
  "visits [postorder, leaf] (twalk t) = inorder t \<and> visits [preorder, leaf] (twalk t) = preorder_seq t \<and>
   visits [endorder, leaf] (twalk t) = endorder_seq t \<and> (\<forall>(n, v, d) \<in> set (twalk t). at_depth t d n)"
  using visits_walk [of t 0] walk_depth [of _ _ _ t 0] by (auto simp: twalk_def)

theorem twalk_orders_witness:
  "visits [postorder, leaf] (twalk demo_tree) = [(1, 10), (2, 20), (3, 30), (4, 40)] \<and>
   at_depth demo_tree 2 (Node 4 40 Null Null 1)"
  using twalk_orders [of demo_tree] by (simp add: demo_tree_def twalk_def visits_def numeral_2_eq_2)

end
