(* ===== verification/Hsearch.thy ===== *)
theory Hsearch
  imports Cstring
begin

text \<open>
  The hash table of \<^verbatim>\<open>src/libc/posix/search/hcreate.c\<close> with its hash function \<^verbatim>\<open>_hash2v.c\<close>, and the
  linear search of \<^verbatim>\<open>lfind.c\<close>. \<^verbatim>\<open>unsigned long\<close> and \<^verbatim>\<open>size_t\<close> have 64 bits. The static variables of
  \<^verbatim>\<open>hcreate.c\<close> are the record \<open>htab\<close>; a null \<^verbatim>\<open>hash\<close> or key is \<^term>\<open>None\<close>, a key is the bytes from
  its address on. \<^verbatim>\<open>calloc\<close> is an argument: whether it succeeds. The probing loop of \<^verbatim>\<open>hsearch\<close> is a
  partial function, \<^term>\<open>None\<close> when it does not return.
\<close>

section \<open>Hash function\<close>

text \<open>Three lines of the macro \<^verbatim>\<open>mix\<close>, which has three such groups with different shifts.\<close>

definition mix_lines :: "nat \<Rightarrow> nat \<Rightarrow> nat \<Rightarrow> u64 \<times> u64 \<times> u64 \<Rightarrow> u64 \<times> u64 \<times> u64" where
  "mix_lines i j k abc =
     (let (a, b, c) = abc;
          a = a - b; a = a - c; a = a XOR drop_bit i c;
          b = b - c; b = b - a; b = b XOR push_bit j a;
          c = c - a; c = c - b; c = c XOR drop_bit k b
      in (a, b, c))"

definition mix :: "u64 \<times> u64 \<times> u64 \<Rightarrow> u64 \<times> u64 \<times> u64" where
  "mix abc = mix_lines 3 10 15 (mix_lines 12 16 5 (mix_lines 13 8 13 abc))"

text \<open>The inner loop that looks for the end of the key among the next twelve bytes.\<close>

function which_zero :: "u8 list \<Rightarrow> nat \<Rightarrow> fault + nat" where
  "which_zero k which =
     (if which < 12 then
        if length k \<le> which then Inl OutOfBounds
        else if k ! which = 0 then Inr which
        else which_zero k (which + 1)
      else Inr 12)"
  by auto
termination by (relation "measure (\<lambda>(k, which). 12 - which)") auto

declare which_zero.simps [simp del]

lemma which_zero_length: "which_zero k i = Inr 12 \<Longrightarrow> i \<le> 12 \<Longrightarrow> i \<le> length k \<Longrightarrow> 12 \<le> length k"
  by (induction k i rule: which_zero.induct) (subst (asm) (2) which_zero.simps, auto split: if_splits)

definition key_word :: "u8 list \<Rightarrow> nat \<Rightarrow> u64" where
  "key_word k i = ucast (k ! i) + push_bit 8 (ucast (k ! (i + 1))) + push_bit 16 (ucast (k ! (i + 2))) +
     push_bit 24 (ucast (k ! (i + 3)))"

definition add_block :: "u8 list \<Rightarrow> u64 \<times> u64 \<times> u64 \<Rightarrow> u64 \<times> u64 \<times> u64" where
  "add_block k abc = (let (a, b, c) = abc in (a + key_word k 0, b + key_word k 4, c + key_word k 8))"

text \<open>The \<^verbatim>\<open>switch\<close> over the last bytes, whose cases fall through.\<close>

definition last_bytes :: "u8 list \<Rightarrow> nat \<Rightarrow> u64 \<times> u64 \<times> u64 \<Rightarrow> u64 \<times> u64 \<times> u64" where
  "last_bytes k which abc =
     (let (a, b, c) = abc;
          byte = (\<lambda>i. ucast (k ! i) :: u64);
          c = (if 11 \<le> which then c + push_bit 24 (byte 10) else c);
          c = (if 10 \<le> which then c + push_bit 16 (byte 9) else c);
          c = (if 9 \<le> which then c + push_bit 8 (byte 8) else c);
          b = (if 8 \<le> which then b + push_bit 24 (byte 7) else b);
          b = (if 7 \<le> which then b + push_bit 16 (byte 6) else b);
          b = (if 6 \<le> which then b + push_bit 8 (byte 5) else b);
          b = (if 5 \<le> which then b + byte 4 else b);
          a = (if 4 \<le> which then a + push_bit 24 (byte 3) else a);
          a = (if 3 \<le> which then a + push_bit 16 (byte 2) else a);
          a = (if 2 \<le> which then a + push_bit 8 (byte 1) else a);
          a = (if 1 \<le> which then a + byte 0 else a)
      in (a, b, c))"

function hash2v_loop :: "u8 list \<Rightarrow> u64 \<Rightarrow> u64 \<times> u64 \<times> u64 \<Rightarrow> fault + u64 \<times> u64 \<times> u64" where
  "hash2v_loop k len abc =
     (case which_zero k 0 of
        Inl e \<Rightarrow> Inl e
      | Inr which \<Rightarrow>
          if which = 12 then hash2v_loop (drop 12 k) (len + 12) (mix (add_block k abc))
          else
            let len = len + of_nat which; (a, b, c) = abc
            in Inr (mix (last_bytes k which (a, b, c + len))))"
  by pat_completeness auto
termination
proof (relation "measure (\<lambda>(k, len, abc). length k)")
  show "((drop 12 k, len + 12, mix (add_block k abc)), k, len, abc) \<in> measure (\<lambda>(k, len, abc). length k)"
    if "which_zero k 0 = Inr w" "w = 12" for k len abc w
    using which_zero_length [of k 0] that by simp
qed simp

declare hash2v_loop.simps [simp del]

text \<open>The return value and the value stored through \<^verbatim>\<open>v2\<close>.\<close>

definition hash2v :: "u8 list \<Rightarrow> fault + u64 \<times> u64" where
  "hash2v k = rbind (hash2v_loop k 0 (0x9e3779b9, 0x9e3779b9, 0)) (\<lambda>(a, b, c). Inr (c, b))"

text \<open>The original hash function, kept in the source for its test program.\<close>

function hash_loop :: "u8 list \<Rightarrow> nat \<Rightarrow> u64 \<times> u64 \<times> u64 \<Rightarrow> u8 list \<times> nat \<times> u64 \<times> u64 \<times> u64" where
  "hash_loop k len abc =
     (if 12 \<le> len then hash_loop (drop 12 k) (len - 12) (mix (add_block k abc)) else (k, len, abc))"
  by pat_completeness auto
termination by (relation "measure (\<lambda>(k, len, abc). len)") auto

declare hash_loop.simps [simp del]

definition hash :: "u8 list \<Rightarrow> nat \<Rightarrow> u64 \<Rightarrow> u64" where
  "hash k length0 initval =
     (let (k, len, (a, b, c)) = hash_loop k length0 (0x9e3779b9, 0x9e3779b9, initval);
          (a, b, c) = mix (last_bytes k len (a, b, c + of_nat length0))
      in c)"

section \<open>Hash table\<close>

datatype ACTION = FIND | ENTER

record ENTRY =
  ekey :: "u8 list option"
  edata :: nat

record htab =
  table :: "ENTRY list option"
  buckets :: u64
  hmask :: u64

definition htab_init :: htab where
  "htab_init = \<lparr>table = None, buckets = 0, hmask = -1\<rparr>"

definition MAX_BUCKETS :: nat where
  "MAX_BUCKETS = 0x20000000"

text \<open>
  \<^verbatim>\<open>while ((1U << i) < nel) i++\<close>; the loop is only entered with at most \<open>2 ^ 29\<close> elements, where
  the shift does not overflow.
\<close>

function round_up :: "nat \<Rightarrow> nat \<Rightarrow> nat" where
  "round_up i nel = (if 2 ^ i < nel then round_up (i + 1) nel else i)"
  by auto
termination by (relation "measure (\<lambda>(i, nel). nel - 2 ^ i)") (auto intro: diff_less_mono2)

declare round_up.simps [simp del]

definition hcreate :: "bool \<Rightarrow> nat \<Rightarrow> htab \<Rightarrow> bool \<times> htab" where
  "hcreate calloc nel h =
     (if MAX_BUCKETS < nel then (False, h)
      else
        let nel = nel + nel div 3;
            nel = (if MAX_BUCKETS < nel then MAX_BUCKETS else nel);
            nel = (if nel < 0x80 then 0x80 else nel);
            i = round_up 7 nel;
            buckets = push_bit i 1 :: u32;
            hash = (if calloc then Some (replicate (unat buckets) \<lparr>ekey = None, edata = 0\<rparr>) else None)
        in (hash \<noteq> None, \<lparr>table = hash, buckets = ucast buckets, hmask = ucast buckets - 1\<rparr>))"

definition hdestroy :: "htab \<Rightarrow> htab" where
  "hdestroy h = h\<lparr>table := None\<rparr>"

text \<open>
  The loop of \<^verbatim>\<open>hsearch\<close>: the index of the entry whose address is returned, \<^term>\<open>None\<close> for a null
  pointer, and the table.
\<close>

partial_function (option) hsearch_loop ::
    "u8 list \<Rightarrow> ENTRY \<Rightarrow> ACTION \<Rightarrow> u64 \<Rightarrow> u64 \<Rightarrow> u64 \<Rightarrow> ENTRY list \<Rightarrow> u64 \<Rightarrow> (fault + nat option \<times> ENTRY list) option" where
  "hsearch_loop ky item action msk increment hash_value_start tab hash_value =
     (if length tab \<le> unat hash_value then Some (Inl OutOfBounds)
      else
        case ekey (tab ! unat hash_value) of
          None \<Rightarrow>
            if action = FIND then Some (Inr (None, tab))
            else Some (Inr (Some (unat hash_value), tab[unat hash_value := item]))
        | Some k \<Rightarrow>
            case strcmp k ky of
              Inl e \<Rightarrow> Some (Inl e)
            | Inr r \<Rightarrow>
                if r = 0 then Some (Inr (Some (unat hash_value), tab))
                else
                  (let hash_value = (hash_value + increment) AND msk
                   in if hash_value \<noteq> hash_value_start
                      then hsearch_loop ky item action msk increment hash_value_start tab hash_value
                      else Some (Inr (None, tab))))"

definition hsearch :: "ENTRY \<Rightarrow> ACTION \<Rightarrow> htab \<Rightarrow> (fault + nat option \<times> htab) option" where
  "hsearch item action h =
     (case ekey item of
        None \<Rightarrow> Some (Inl NullDeref)
      | Some k \<Rightarrow>
          case hash2v k of
            Inl e \<Rightarrow> Some (Inl e)
          | Inr (hash_value, increment) \<Rightarrow>
              let hash_value = hash_value AND hmask h; increment = 2 * increment + 1
              in case table h of
                   None \<Rightarrow> Some (Inl NullDeref)
                 | Some tab \<Rightarrow>
                     map_option (rmap (\<lambda>(r, tab). (r, h\<lparr>table := Some tab\<rparr>)))
                       (hsearch_loop k item action (hmask h) increment hash_value tab hash_value))"

section \<open>Linear search\<close>

text \<open>
  \<^verbatim>\<open>l_general\<close>: the array is the bytes from \<^verbatim>\<open>base\<close> to the end of its object. The result is the
  offset of the element whose address is returned, the array and \<^verbatim>\<open>*nelp\<close>.
\<close>

function l_loop :: "u8 list \<Rightarrow> nat \<Rightarrow> nat \<Rightarrow> (u8 list \<Rightarrow> u8 list \<Rightarrow> int) \<Rightarrow> u8 list \<Rightarrow> nat \<Rightarrow> nat \<Rightarrow> fault + nat \<times> nat" where
  "l_loop ky nel width compar mem base i =
     (if i < nel then
        if length mem < base + width then Inl OutOfBounds
        else if compar (take width (drop base mem)) ky \<noteq> 0
             then l_loop ky nel width compar mem (base + width) (i + 1)
             else Inr (base, i)
      else Inr (base, i))"
  by auto
termination by (relation "measure (\<lambda>(ky, nel, width, compar, mem, base, i). nel - i)") auto

declare l_loop.simps [simp del]

definition l_general ::
    "u8 list \<Rightarrow> u8 list \<Rightarrow> nat \<Rightarrow> nat \<Rightarrow> (u8 list \<Rightarrow> u8 list \<Rightarrow> int) \<Rightarrow> bool \<Rightarrow> fault + nat option \<times> u8 list \<times> nat" where
  "l_general ky mem nel width compar add =
     rbind (l_loop ky nel width compar mem 0 0) (\<lambda>(base, i).
       if i < nel then Inr (Some base, mem, nel)
       else if add then
         rbind (memcpy (drop base mem) ky width) (\<lambda>m. Inr (Some base, take base mem @ m, nel + 1))
       else Inr (None, mem, nel))"

definition lfind :: "u8 list \<Rightarrow> u8 list \<Rightarrow> nat \<Rightarrow> nat \<Rightarrow> (u8 list \<Rightarrow> u8 list \<Rightarrow> int) \<Rightarrow> fault + nat option \<times> u8 list \<times> nat" where
  "lfind ky mem nel width compar = l_general ky mem nel width compar False"

definition lsearch :: "u8 list \<Rightarrow> u8 list \<Rightarrow> nat \<Rightarrow> nat \<Rightarrow> (u8 list \<Rightarrow> u8 list \<Rightarrow> int) \<Rightarrow> fault + nat option \<times> u8 list \<times> nat" where
  "lsearch ky mem nel width compar = l_general ky mem nel width compar True"

end
