(* ===== verification/Hsearch_Props.thy ===== *)
theory Hsearch_Props
  imports Hsearch Cstring_Props
begin

text \<open>
  Correctness of the hash table and the linear search: the hash function equals the original it
  was derived from, the probe sequence of an odd step visits every slot of a table whose size is a
  power of two, so the search loop returns, and a table is a map from strings to data.
\<close>

section \<open>Hash function\<close>

text \<open>The steps of \<open>mix\<close> undone in reverse order.\<close>

definition unmix_lines :: "nat \<Rightarrow> nat \<Rightarrow> nat \<Rightarrow> u64 \<times> u64 \<times> u64 \<Rightarrow> u64 \<times> u64 \<times> u64" where
  "unmix_lines i j k abc =
     (let (a, b, c) = abc;
          c = c XOR drop_bit k b; c = c + b; c = c + a;
          b = b XOR push_bit j a; b = b + a; b = b + c;
          a = a XOR drop_bit i c; a = a + c; a = a + b
      in (a, b, c))"

definition unmix :: "u64 \<times> u64 \<times> u64 \<Rightarrow> u64 \<times> u64 \<times> u64" where
  "unmix abc = unmix_lines 13 8 13 (unmix_lines 12 16 5 (unmix_lines 3 10 15 abc))"

lemma xor_twice [simp]: "(x XOR y) XOR y = (x :: u64)"
  by (simp add: xor.assoc)

lemma unmix_lines_mix_lines: "unmix_lines i j k (mix_lines i j k abc) = abc" "mix_lines i j k (unmix_lines i j k abc) = abc"
  by (cases abc; simp add: mix_lines_def unmix_lines_def Let_def)+

lemma unmix_mix: "unmix (mix abc) = abc" "mix (unmix abc) = abc"
  by (simp_all add: mix_def unmix_def unmix_lines_mix_lines)

lemma which_zero_spec:
  "0 \<notin> set s \<Longrightarrow> i \<le> length s \<Longrightarrow> i \<le> 12 \<Longrightarrow> which_zero (s @ 0 # r) i = Inr (min 12 (length s))"
proof (induction "12 - i" arbitrary: i)
  case 0
  then show ?case by (subst which_zero.simps) simp
next
  case (Suc d)
  then have "i < 12" "d = 12 - (i + 1)" by simp_all
  show ?case
  proof (cases "i = length s")
    case True
    then show ?thesis using \<open>i < 12\<close> by (subst which_zero.simps) simp
  next
    case False
    with Suc.prems have "s ! i \<noteq> 0" by (metis le_neq_implies_less nth_mem)
    with False Suc.prems have "(s @ 0 # r) ! i \<noteq> 0" by (simp add: nth_append)
    moreover have "which_zero (s @ 0 # r) (i + 1) = Inr (min 12 (length s))"
      using Suc.prems False \<open>i < 12\<close> by (intro Suc.hyps(1) \<open>d = 12 - (i + 1)\<close>) simp_all
    ultimately show ?thesis using \<open>i < 12\<close> Suc.prems False
      by (subst which_zero.simps) simp
  qed
qed

text \<open>The byte-wise search for the end of the key and the loop on the known length make the same steps.\<close>

lemma hash2v_loop_spec:
  "0 \<notin> set s \<Longrightarrow> hash2v_loop (s @ 0 # r) len abc =
     (case hash_loop (s @ 0 # r) (length s) abc of (k, n, (a, b, c)) \<Rightarrow>
        Inr (mix (last_bytes k n (a, b, c + (len + of_nat (length s))))))"
proof (induction "length s" arbitrary: s len abc rule: less_induct)
  case less
  note w = which_zero_spec [OF less.prems, of 0 r]
  show ?case
  proof (cases "12 \<le> length s")
    case True
    have "0 \<notin> set (drop 12 s)" using less.prems by (meson in_set_dropD)
    moreover have "length (drop 12 s) < length s" using True by simp
    moreover have "(12 :: u64) + of_nat (length s - 12) = of_nat (length s)" using True by (simp add: of_nat_diff)
    moreover have "drop 12 (s @ 0 # r) = drop 12 s @ 0 # r" using True by simp
    ultimately show ?thesis
      using less.hyps [of "drop 12 s" "len + 12" "mix (add_block (s @ 0 # r) abc)"] True w
      by (subst hash2v_loop.simps, subst hash_loop.simps) (simp add: add.assoc)
  next
    case False
    then show ?thesis using w
      by (subst hash2v_loop.simps, subst hash_loop.simps) (simp add: Let_def split: prod.splits)
  qed
qed

text \<open>The hash of a string does not depend on what follows it in memory.\<close>

lemma add_block_append: "12 \<le> length s \<Longrightarrow> add_block (s @ r) abc = add_block s abc"
  by (auto simp: add_block_def key_word_def nth_append)

lemma last_bytes_append: "n \<le> length s \<Longrightarrow> last_bytes (s @ r) n abc = last_bytes s n abc"
  by (auto simp: last_bytes_def Let_def nth_append split: prod.splits)

lemma hash_loop_append:
  "hash_loop (s @ r) (length s) abc =
     (case hash_loop s (length s) abc of (k, n, abc) \<Rightarrow> (k @ r, n, abc)) \<and> fst (snd (hash_loop s (length s) abc)) = length (fst (hash_loop s (length s) abc))"
proof (induction "length s" arbitrary: s abc rule: less_induct)
  case less
  then show ?case
    using less.hyps [of "drop 12 s" "mix (add_block s abc)"]
    by (cases "12 \<le> length s"; subst (1 2 3 4) hash_loop.simps) (auto simp: add_block_append)
qed

definition hash_of :: "u8 list \<Rightarrow> u64 \<times> u64" where
  "hash_of s =
     (case hash_loop s (length s) (0x9e3779b9, 0x9e3779b9, 0) of (k, n, (a, b, c)) \<Rightarrow>
      case mix (last_bytes k n (a, b, c + of_nat (length s))) of (a, b, c) \<Rightarrow> (c, b))"

lemma hash2v_hash_of: "0 \<notin> set s \<Longrightarrow> hash2v (s @ 0 # r) = Inr (hash_of s)"
  using hash_loop_append [of s "0 # r" "(0x9e3779b9, 0x9e3779b9, 0)"]
  by (auto simp: hash2v_def hash2v_loop_spec hash_of_def last_bytes_append split: prod.splits)

lemma hash_hash_of: "hash (s @ r) (length s) 0 = fst (hash_of s)"
  using hash_loop_append [of s r "(0x9e3779b9, 0x9e3779b9, 0)"]
  by (auto simp: hash_def hash_of_def last_bytes_append split: prod.splits)

lemma hash2v_cstr: "is_cstr k \<Longrightarrow> hash2v k = Inr (hash_of (cstr k))"
  using hash2v_hash_of [OF cstr_nonzero, of k "drop (Suc (length (cstr k))) k"] cstr_split [of k] by simp

section \<open>Probing\<close>

text \<open>
  The slots the loop visits: \<open>2 ^ i\<close> positions, a step that is odd, so every slot is visited once
  before the loop is back at the start.
\<close>

definition probe :: "nat \<Rightarrow> u8 list \<Rightarrow> nat \<Rightarrow> nat" where
  "probe n s t = (unat (fst (hash_of s)) + t * unat (2 * snd (hash_of s) + 1)) mod n"

lemma odd_step: "odd (unat (2 * b + 1 :: u64))"
proof -
  have "unat (2 * b + 1 :: u64) = (2 * unat b + 1) mod 2 ^ 64" by (simp add: unat_word_ariths mod_simps)
  moreover have "(2 * unat b + 1) mod 2 ^ 64 mod 2 = (2 * unat b + 1) mod 2" by (intro mod_mod_cancel) simp
  ultimately show ?thesis by (simp add: odd_iff_mod_2_eq_one)
qed

lemma probe_inj:
  assumes "t < 2 ^ i" "u < 2 ^ i" "probe (2 ^ i) s t = probe (2 ^ i) s u"
  shows "t = u"
proof -
  define inc where "inc = unat (2 * snd (hash_of s) + 1)"
  have "False" if "t' < u'" "u' < 2 ^ i" "probe (2 ^ i) s t' = probe (2 ^ i) s u'" for t' u' :: nat
  proof -
    have "2 ^ i dvd (u' * inc - t' * inc)"
      using that(1) that(3) mod_eq_dvd_iff_nat [of "unat (fst (hash_of s)) + t' * inc" "unat (fst (hash_of s)) + u' * inc" "2 ^ i"]
      by (simp add: probe_def inc_def)
    then have "2 ^ i dvd (u' - t') * inc" by (simp add: diff_mult_distrib)
    moreover have "coprime (2 ^ i) inc" using odd_step by (simp add: inc_def coprime_power_left_iff)
    ultimately have "2 ^ i dvd u' - t'" by (simp add: coprime_dvd_mult_left_iff)
    then show False using that(1,2) by (meson diff_le_self le_less_trans nat_dvd_not_less zero_less_diff)
  qed
  then show ?thesis using assms by (metis linorder_neqE_nat)
qed

lemma probe_less [simp]: "probe (2 ^ i) s t < 2 ^ i"
  by (simp add: probe_def)

lemma probe_surj:
  assumes "j < 2 ^ i"
  obtains t where "t < 2 ^ i" "probe (2 ^ i) s t = j"
proof -
  have "inj_on (probe (2 ^ i) s) {..<2 ^ i}" by (auto intro!: inj_onI dest: probe_inj)
  then have "probe (2 ^ i) s ` {..<2 ^ i} = {..<2 ^ i}" by (intro endo_inj_surj) auto
  then show ?thesis using that assms by (metis imageE lessThan_iff)
qed

lemma probe_wrap: "probe n s n = probe n s 0"
  by (simp add: probe_def)

lemma unat_and_mask:
  assumes "i < 64"
  shows "unat (x AND (2 ^ i - 1) :: u64) = unat x mod 2 ^ i"
proof -
  have "x AND (2 ^ i - 1) = take_bit i x" by (simp add: take_bit_eq_mask mask_eq_exp_minus_1)
  moreover have "unat (take_bit i x) = take_bit i (unat x)" using assms by (simp only: unsigned_take_bit_eq)
  ultimately show ?thesis by (simp only: take_bit_eq_mod)
qed

lemma probe_step:
  assumes "i < 64" "unat hv = probe (2 ^ i) s t"
  shows "unat ((hv + (2 * snd (hash_of s) + 1)) AND (2 ^ i - 1) :: u64) = probe (2 ^ i) s (Suc t)"
proof -
  define inc where "inc = (2 * snd (hash_of s) + 1)"
  have "2 ^ i dvd (2 ^ 64 :: nat)" using assms by (intro le_imp_power_dvd) simp
  then have "unat (hv + inc) mod 2 ^ i = (unat hv + unat inc) mod 2 ^ i"
    by (simp add: unat_word_ariths mod_mod_cancel)
  also have "\<dots> = probe (2 ^ i) s (Suc t)"
    by (simp add: assms(2) probe_def inc_def mod_simps add.commute add.left_commute)
  finally show ?thesis using assms by (simp add: unat_and_mask inc_def)
qed

text \<open>A slot the search for \<open>s\<close> passes over: it holds another key.\<close>

definition passes :: "ENTRY list \<Rightarrow> u8 list \<Rightarrow> nat \<Rightarrow> bool" where
  "passes tab s j \<longleftrightarrow> (case ekey (tab ! j) of None \<Rightarrow> False | Some k \<Rightarrow> is_cstr k \<and> cstr k \<noteq> s)"

definition holds :: "ENTRY list \<Rightarrow> u8 list \<Rightarrow> nat \<Rightarrow> bool" where
  "holds tab s j \<longleftrightarrow> (case ekey (tab ! j) of None \<Rightarrow> False | Some k \<Rightarrow> cstr k = s)"

definition keys_ok :: "ENTRY list \<Rightarrow> bool" where
  "keys_ok tab \<longleftrightarrow> (\<forall>e \<in> set tab. case ekey e of None \<Rightarrow> True | Some k \<Rightarrow> is_cstr k)"

lemma slot_cases:
  assumes "keys_ok tab" "j < length tab"
  shows "ekey (tab ! j) = None \<or> holds tab s j \<or> passes tab s j"
  using assms nth_mem [of j tab] by (auto simp: keys_ok_def holds_def passes_def split: option.splits)

text \<open>The probing loop returns: it stops at the first slot it does not pass, or comes back to the start.\<close>

lemma hsearch_loop_returns:
  fixes s :: "u8 list"
  defines "inc \<equiv> 2 * snd (hash_of s) + 1"
  assumes i: "i < 64" and len: "length tab = 2 ^ i" and ok: "keys_ok tab" and k: "is_cstr k" "cstr k = s"
    and start: "unat start = probe (2 ^ i) s 0"
  shows "t < 2 ^ i \<Longrightarrow> unat hv = probe (2 ^ i) s t \<Longrightarrow> (\<And>u. u < t \<Longrightarrow> passes tab s (probe (2 ^ i) s u)) \<Longrightarrow>
    (\<forall>u < 2 ^ i. passes tab s (probe (2 ^ i) s u)) \<and>
      hsearch_loop k item action (2 ^ i - 1) inc start tab hv = Some (Inr (None, tab)) \<or>
    (\<exists>u < 2 ^ i. (\<forall>v < u. passes tab s (probe (2 ^ i) s v)) \<and>
      (holds tab s (probe (2 ^ i) s u) \<and>
         hsearch_loop k item action (2 ^ i - 1) inc start tab hv = Some (Inr (Some (probe (2 ^ i) s u), tab)) \<or>
       ekey (tab ! probe (2 ^ i) s u) = None \<and>
         hsearch_loop k item action (2 ^ i - 1) inc start tab hv =
           (if action = FIND then Some (Inr (None, tab))
            else Some (Inr (Some (probe (2 ^ i) s u), tab[probe (2 ^ i) s u := item])))))"
proof (induction "2 ^ i - t" arbitrary: t hv rule: less_induct)
  case less
  define next_hv where "next_hv = (hv + inc) AND (2 ^ i - 1)"
  have next_pos: "unat next_hv = probe (2 ^ i) s (Suc t)"
    unfolding next_hv_def inc_def by (rule probe_step [OF i less.prems(2)])
  have in_tab: "probe (2 ^ i) s t < length tab" by (simp add: len)
  consider "ekey (tab ! probe (2 ^ i) s t) = None" | "holds tab s (probe (2 ^ i) s t)" | "passes tab s (probe (2 ^ i) s t)"
    using slot_cases [OF ok in_tab, of s] by auto
  then show ?case
  proof cases
    case 1
    then have "hsearch_loop k item action (2 ^ i - 1) inc start tab hv =
        (if action = FIND then Some (Inr (None, tab))
         else Some (Inr (Some (probe (2 ^ i) s t), tab[probe (2 ^ i) s t := item])))"
      using in_tab less.prems(2) by (subst hsearch_loop.simps) auto
    with 1 less.prems show ?thesis by blast
  next
    case 2
    then obtain k' where k': "ekey (tab ! probe (2 ^ i) s t) = Some k'" "cstr k' = s"
      by (auto simp: holds_def split: option.splits)
    with ok in_tab have "is_cstr k'" by (auto simp: keys_ok_def dest!: nth_mem split: option.splits)
    with k k' have "strcmp k' k = Inr 0" using strcmp_spec [of k' k] by auto
    then have "hsearch_loop k item action (2 ^ i - 1) inc start tab hv = Some (Inr (Some (probe (2 ^ i) s t), tab))"
      using in_tab less.prems(2) k' by (subst hsearch_loop.simps) simp
    with 2 less.prems show ?thesis by blast
  next
    case 3
    then obtain k' where k': "ekey (tab ! probe (2 ^ i) s t) = Some k'" "is_cstr k'" "cstr k' \<noteq> s"
      by (auto simp: passes_def split: option.splits)
    with k obtain r where "strcmp k' k = Inr r" "r \<noteq> 0" using strcmp_spec [of k' k] by auto
    then have step: "hsearch_loop k item action (2 ^ i - 1) inc start tab hv =
        (if next_hv \<noteq> start then hsearch_loop k item action (2 ^ i - 1) inc start tab next_hv else Some (Inr (None, tab)))"
      using in_tab less.prems(2) k'(1) unfolding next_hv_def by (subst hsearch_loop.simps) (simp add: Let_def)
    have passed: "passes tab s (probe (2 ^ i) s u)" if "u < Suc t" for u
      using that 3 less.prems(3) by (auto simp: less_Suc_eq)
    show ?thesis
    proof (cases "Suc t = 2 ^ i")
      case True
      then have "next_hv = start" using next_pos start probe_wrap [of "2 ^ i" s] by (simp add: word_unat_eq_iff)
      then show ?thesis using step passed True by simp
    next
      case False
      then have "Suc t < 2 ^ i" using less.prems(1) by simp
      moreover from this have "next_hv \<noteq> start" using next_pos start probe_inj [of "Suc t" i 0 s] by auto
      moreover have "2 ^ i - Suc t < 2 ^ i - t" using less.prems(1) by simp
      ultimately show ?thesis using less.hyps [of "Suc t" next_hv] next_pos passed step by simp
    qed
  qed
qed

section \<open>The table as a map\<close>

definition key_is :: "u8 list \<Rightarrow> ENTRY \<Rightarrow> bool" where
  "key_is s e \<longleftrightarrow> (case ekey e of None \<Rightarrow> False | Some k \<Rightarrow> cstr k = s)"

definition contents :: "ENTRY list \<Rightarrow> u8 list \<Rightarrow> nat option" where
  "contents tab s = (case filter (key_is s) tab of [] \<Rightarrow> None | e # _ \<Rightarrow> Some (edata e))"

definition occupied :: "ENTRY list \<Rightarrow> nat" where
  "occupied tab = length (filter (\<lambda>e. ekey e \<noteq> None) tab)"

text \<open>
  The invariant: a power of two of slots, keys that are strings, and every key found by the
  search for it, which passes all slots before its own.
\<close>

definition table_ok :: "nat \<Rightarrow> ENTRY list \<Rightarrow> bool" where
  "table_ok i tab \<longleftrightarrow> i < 64 \<and> length tab = 2 ^ i \<and> keys_ok tab \<and>
     (\<forall>s. \<forall>j < 2 ^ i. holds tab s j \<longrightarrow>
        (\<exists>t < 2 ^ i. probe (2 ^ i) s t = j \<and> (\<forall>u < t. passes tab s (probe (2 ^ i) s u))))"

definition htab_ok :: "nat \<Rightarrow> ENTRY list \<Rightarrow> htab \<Rightarrow> bool" where
  "htab_ok i tab h \<longleftrightarrow> table h = Some tab \<and> hmask h = 2 ^ i - 1 \<and> table_ok i tab"

lemma holds_key_is: "holds tab s j = key_is s (tab ! j)"
  by (simp add: holds_def key_is_def)

lemma passes_not_holds: "passes tab s j \<Longrightarrow> \<not> holds tab s j \<and> ekey (tab ! j) \<noteq> None"
  by (auto simp: passes_def holds_def split: option.splits)

lemma filter_update:
  assumes "j < length xs" "\<not> P (xs ! j)"
  shows "filter P xs = filter P (take j xs) @ filter P (drop (Suc j) xs)"
    "filter P (xs[j := x]) = filter P (take j xs) @ (if P x then [x] else []) @ filter P (drop (Suc j) xs)"
proof -
  show "filter P xs = filter P (take j xs) @ filter P (drop (Suc j) xs)"
    using assms by (subst id_take_nth_drop [OF assms(1)]) simp
  show "filter P (xs[j := x]) = filter P (take j xs) @ (if P x then [x] else []) @ filter P (drop (Suc j) xs)"
    using assms by (simp add: upd_conv_take_nth_drop)
qed

lemma occupied_update:
  assumes "j < length tab" "ekey (tab ! j) = None" "ekey item \<noteq> None"
  shows "occupied (tab[j := item]) = Suc (occupied tab)"
  using filter_update [of j tab "\<lambda>e. ekey e \<noteq> None"] assms by (simp add: occupied_def)

lemma occupied_full: "occupied tab = length tab \<longleftrightarrow> (\<forall>j < length tab. ekey (tab ! j) \<noteq> None)"
proof
  show "\<forall>j < length tab. ekey (tab ! j) \<noteq> None" if "occupied tab = length tab"
    using that length_filter_less [of _ tab "\<lambda>e. ekey e \<noteq> None"] by (force simp: occupied_def)
  show "occupied tab = length tab" if "\<forall>j < length tab. ekey (tab ! j) \<noteq> None"
    using that unfolding occupied_def by (metis (mono_tags, lifting) filter_True in_set_conv_nth)
qed

lemma contents_None: "contents tab s = None \<longleftrightarrow> (\<forall>j < length tab. \<not> holds tab s j)"
proof -
  have "contents tab s = None \<longleftrightarrow> filter (key_is s) tab = []" by (simp add: contents_def split: list.splits)
  then show ?thesis by (simp add: filter_empty_conv all_set_conv_all_nth holds_key_is)
qed

lemma holds_unique:
  assumes ok: "table_ok i tab" and "j < 2 ^ i" "holds tab s j" "j' < 2 ^ i" "holds tab s j'"
  shows "j = j'"
proof -
  obtain t where t: "probe (2 ^ i) s t = j" "\<forall>u < t. passes tab s (probe (2 ^ i) s u)"
    using assms unfolding table_ok_def by blast
  obtain t' where t': "probe (2 ^ i) s t' = j'" "\<forall>u < t'. passes tab s (probe (2 ^ i) s u)"
    using assms unfolding table_ok_def by blast
  have "\<not> t < t'" "\<not> t' < t" using t t' assms passes_not_holds by blast+
  with t t' show ?thesis by simp
qed

lemma contents_Some:
  assumes ok: "table_ok i tab" and j: "j < 2 ^ i" "holds tab s j"
  shows "contents tab s = Some (edata (tab ! j))"
proof -
  have len: "length tab = 2 ^ i" using ok by (simp add: table_ok_def)
  have other: "\<not> key_is s (tab ! j')" if "j' < 2 ^ i" "j' \<noteq> j" for j'
    using holds_unique [OF ok j, of j'] that by (auto simp: holds_key_is)
  have "\<not> key_is s x" if x: "x \<in> set (take j tab)" for x
  proof -
    obtain j' where "j' < j" "x = tab ! j'" using x j len by (auto simp: in_set_conv_nth)
    then show ?thesis using other [of j'] j by simp
  qed
  moreover have "\<not> key_is s x" if x: "x \<in> set (drop (Suc j) tab)" for x
  proof -
    obtain d where "d < 2 ^ i - Suc j" "x = tab ! (Suc j + d)" using x j len by (auto simp: in_set_conv_nth)
    then show ?thesis using other [of "Suc j + d"] j by simp
  qed
  ultimately have "filter (key_is s) (take j tab) = []" "filter (key_is s) (drop (Suc j) tab) = []"
    by (simp_all add: filter_empty_conv)
  moreover have "tab = take j tab @ tab ! j # drop (Suc j) tab" using j len by (intro id_take_nth_drop) simp
  ultimately have "filter (key_is s) tab = [tab ! j]"
    using j(2) filter_append [of "key_is s" "take j tab" "tab ! j # drop (Suc j) tab"] by (simp add: holds_key_is)
  then show ?thesis by (simp add: contents_def)
qed

lemma contents_update:
  assumes "j < length tab" "ekey (tab ! j) = None" "ekey item = Some k" "contents tab (cstr k) = None"
  shows "contents (tab[j := item]) = (contents tab)(cstr k \<mapsto> edata item)"
proof
  fix s
  have "\<not> key_is s (tab ! j)" using assms by (simp add: key_is_def)
  note f = filter_update [of j tab "key_is s", OF assms(1) this]
  show "contents (tab[j := item]) s = ((contents tab)(cstr k \<mapsto> edata item)) s"
  proof (cases "s = cstr k")
    case True
    then have "filter (key_is s) tab = []" using assms(4) by (simp add: contents_def split: list.splits)
    then show ?thesis using True f assms(3) by (simp add: contents_def key_is_def)
  next
    case False
    then have "\<not> key_is s item" using assms(3) by (simp add: key_is_def)
    then show ?thesis using False f by (simp add: contents_def)
  qed
qed

lemma table_ok_update:
  assumes ok: "table_ok i tab" and item: "ekey item = Some k" "is_cstr k"
    and t: "t < 2 ^ i" "ekey (tab ! probe (2 ^ i) (cstr k) t) = None"
    and path: "\<forall>u < t. passes tab (cstr k) (probe (2 ^ i) (cstr k) u)"
  shows "table_ok i (tab[probe (2 ^ i) (cstr k) t := item])"
proof -
  define j where "j = probe (2 ^ i) (cstr k) t"
  have j: "j < length tab" "ekey (tab ! j) = None" "length tab = 2 ^ i" using ok t by (simp_all add: j_def table_ok_def)
  have keep: "passes (tab[j := item]) s l" if "passes tab s l" for s l
    using that j by (cases "l = j") (auto simp: passes_def)
  have "keys_ok (tab[j := item])"
    using ok item set_update_subset_insert [of tab j item] by (auto simp: keys_ok_def table_ok_def split: option.splits)
  moreover have "\<exists>t' < 2 ^ i. probe (2 ^ i) s t' = l \<and> (\<forall>u < t'. passes (tab[j := item]) s (probe (2 ^ i) s u))"
    if "l < 2 ^ i" "holds (tab[j := item]) s l" for s l
  proof (cases "l = j")
    case True
    with that j item have "s = cstr k" by (simp add: holds_def)
    then show ?thesis using True path t keep by (auto simp: j_def)
  next
    case False
    with that have "holds tab s l" by (simp add: holds_def)
    then show ?thesis using ok that keep unfolding table_ok_def by meson
  qed
  ultimately show ?thesis using ok by (simp add: table_ok_def j_def)
qed

text \<open>The outcome of a search in a well-formed table.\<close>

lemma hsearch_run:
  assumes ok: "htab_ok i tab h" and item: "ekey item = Some k" "is_cstr k"
  obtains start where "unat start = probe (2 ^ i) (cstr k) 0"
    "hsearch item action h = map_option (rmap (\<lambda>(r, tab). (r, h\<lparr>table := Some tab\<rparr>)))
       (hsearch_loop k item action (2 ^ i - 1) (2 * snd (hash_of (cstr k)) + 1) start tab start)"
proof
  have tab: "i < 64" "table h = Some tab" "hmask h = 2 ^ i - 1" using ok by (simp_all add: htab_ok_def table_ok_def)
  show "unat (fst (hash_of (cstr k)) AND (2 ^ i - 1)) = probe (2 ^ i) (cstr k) 0"
    using tab by (simp add: unat_and_mask probe_def)
  show "hsearch item action h = map_option (rmap (\<lambda>(r, tab). (r, h\<lparr>table := Some tab\<rparr>)))
       (hsearch_loop k item action (2 ^ i - 1) (2 * snd (hash_of (cstr k)) + 1)
          (fst (hash_of (cstr k)) AND (2 ^ i - 1)) tab (fst (hash_of (cstr k)) AND (2 ^ i - 1)))"
    using item tab by (simp add: hsearch_def hash2v_cstr Let_def split: prod.splits)
qed

lemma free_slot_not_held:
  assumes ok: "table_ok i tab" and u: "ekey (tab ! probe (2 ^ i) s u) = None" "\<forall>v < u. passes tab s (probe (2 ^ i) s v)"
  shows "contents tab s = None"
proof -
  have len: "length tab = 2 ^ i" using ok by (simp add: table_ok_def)
  have "\<not> holds tab s j" if j: "j < 2 ^ i" for j
  proof
    assume held: "holds tab s j"
    then obtain t where t: "probe (2 ^ i) s t = j" "\<forall>v < t. passes tab s (probe (2 ^ i) s v)"
      using ok j unfolding table_ok_def by blast
    have "\<not> u < t" using u(1) t(2) passes_not_holds by blast
    moreover have "\<not> t < u" using u(2) t(1) held passes_not_holds by blast
    ultimately show False using u(1) t(1) held by (simp add: holds_def)
  qed
  then show ?thesis by (simp add: contents_None len)
qed

lemma full_not_held:
  assumes "length tab = 2 ^ i" "\<forall>u < 2 ^ i. passes tab s (probe (2 ^ i) s u)"
  shows "contents tab s = None" "occupied tab = length tab"
proof -
  have "passes tab s j" if "j < 2 ^ i" for j using assms(2) probe_surj [OF that, of s] by metis
  then have "\<forall>j < length tab. \<not> holds tab s j" "\<forall>j < length tab. ekey (tab ! j) \<noteq> None"
    using passes_not_holds assms(1) by metis+
  then show "contents tab s = None" "occupied tab = length tab" by (simp_all only: contents_None occupied_full)
qed

lemma loop_outcome:
  assumes "P \<and> Q \<or> (\<exists>u < n. B u \<and> (C u \<and> D u \<or> E u \<and> F u))" and "P \<Longrightarrow> Q \<Longrightarrow> R"
    and "\<And>u. u < n \<Longrightarrow> B u \<Longrightarrow> C u \<Longrightarrow> D u \<Longrightarrow> R" and "\<And>u. u < n \<Longrightarrow> B u \<Longrightarrow> E u \<Longrightarrow> F u \<Longrightarrow> R"
  shows R
  using assms by blast

lemma hsearch_cases:
  assumes ok: "htab_ok i tab h" and item: "ekey item = Some k" "is_cstr k"
  obtains (here) j where "j < 2 ^ i" "holds tab (cstr k) j" "hsearch item action h = Some (Inr (Some j, h))"
    | (full) "contents tab (cstr k) = None" "occupied tab = length tab" "hsearch item action h = Some (Inr (None, h))"
    | (free) j where "j < 2 ^ i" "contents tab (cstr k) = None" "ekey (tab ! j) = None" "table_ok i (tab[j := item])"
        "hsearch item action h = (if action = FIND then Some (Inr (None, h)) else Some (Inr (Some j, h\<lparr>table := Some (tab[j := item])\<rparr>)))"
proof -
  have t_ok: "table_ok i tab" and tab: "i < 64" "length tab = 2 ^ i" "keys_ok tab" "table h = Some tab"
    using ok by (simp_all add: htab_ok_def table_ok_def)
  have same: "h\<lparr>table := Some tab\<rparr> = h" using tab by simp
  obtain start where start: "unat start = probe (2 ^ i) (cstr k) 0"
    and hs: "hsearch item action h = map_option (rmap (\<lambda>(r, tab). (r, h\<lparr>table := Some tab\<rparr>)))
       (hsearch_loop k item action (2 ^ i - 1) (2 * snd (hash_of (cstr k)) + 1) start tab start)"
    by (rule hsearch_run [OF assms, of action])
  have pos: "0 < (2 :: nat) ^ i" by simp
  note returns = hsearch_loop_returns [OF tab(1-3) item(2) refl start pos start, of item action]
  show ?thesis
  proof (rule loop_outcome [OF returns], goal_cases)
    case (2)
    then show ?case using full_not_held [OF tab(2)] hs same by (intro full) simp_all
  next
    case (3 u)
    then show ?case using hs same by (intro here [of "probe (2 ^ i) (cstr k) u"]) simp_all
  next
    case (4 u)
    then show ?case
      using free_slot_not_held [OF t_ok 4(3,2)] table_ok_update [OF t_ok item 4(1,3,2)] hs same
      by (intro free [of "probe (2 ^ i) (cstr k) u"]) simp_all
  qed simp
qed

section \<open>Creating the table and filling it\<close>

lemma round_up_spec: "i \<le> round_up i nel \<and> nel \<le> 2 ^ round_up i nel \<and> (\<forall>m. nel \<le> 2 ^ m \<longrightarrow> i \<le> m \<longrightarrow> round_up i nel \<le> m)"
proof (induction i nel rule: round_up.induct)
  case (1 i nel)
  show ?case
  proof (cases "2 ^ i < nel")
    case True
    then have "Suc i \<le> m" if "nel \<le> 2 ^ m" "i \<le> m" for m using that by (cases "m = i") auto
    moreover define r where "r = round_up (Suc i) nel"
    moreover have eq: "round_up i nel = r" using True unfolding r_def by (subst round_up.simps) simp
    ultimately show ?thesis using 1 [OF True] unfolding eq by auto
  qed (subst (1 2 3) round_up.simps, simp)
qed

lemma table_ok_empty: "i < 64 \<Longrightarrow> table_ok i (replicate (2 ^ i) \<lparr>ekey = None, edata = 0\<rparr>)"
  by (auto simp: table_ok_def keys_ok_def holds_def)

lemma contents_empty [simp]: "contents (replicate n \<lparr>ekey = None, edata = 0\<rparr>) = Map.empty"
  by (auto simp: contents_def key_is_def fun_eq_iff)

lemma occupied_empty [simp]: "occupied (replicate n \<lparr>ekey = None, edata = 0\<rparr>) = 0"
  by (simp add: occupied_def)

lemma unat_power2: "i < LENGTH('a) \<Longrightarrow> unat (2 ^ i :: 'a::len word) = 2 ^ i"
proof -
  assume "i < LENGTH('a)"
  then have "(2 :: nat) ^ i < 2 ^ LENGTH('a)" by simp
  then show ?thesis using unat_of_nat [of "2 ^ i", where ?'a = 'a] by (simp add: take_bit_eq_mod)
qed

lemma push_bit_u32:
  assumes "i < 32"
  shows "unat (push_bit i 1 :: u32) = 2 ^ i" "ucast (push_bit i 1 :: u32) = (2 ^ i :: u64)"
proof -
  show *: "unat (push_bit i 1 :: u32) = 2 ^ i" using assms unat_power2 [of i, where ?'a = 32] by (simp add: push_bit_eq_mult)
  have "(2 :: nat) ^ i < 2 ^ 64" using assms by (intro power_strict_increasing) simp_all
  then have "unat (ucast (push_bit i 1 :: u32) :: u64) = 2 ^ i"
    using mod_less [of "2 ^ i" "2 ^ 64"] unfolding unsigned_ucast_eq * take_bit_eq_mod by simp
  then show "ucast (push_bit i 1 :: u32) = (2 ^ i :: u64)"
    using assms * unat_power2 [of i, where ?'a = 64] by (simp add: word_unat_eq_iff)
qed

lemma hcreate_spec:
  assumes "nel \<le> MAX_BUCKETS"
  obtains i h' where "7 \<le> i" "i \<le> 29" "nel \<le> 2 ^ i" "hcreate True nel h = (True, h')"
    "htab_ok i (replicate (2 ^ i) \<lparr>ekey = None, edata = 0\<rparr>) h'" "buckets h' = 2 ^ i"
proof -
  define n where "n = nel + nel div 3"
  define m where "m = (if MAX_BUCKETS < n then MAX_BUCKETS else n)"
  define l where "l = (if m < 0x80 then 0x80 else m)"
  define i where "i = round_up 7 l"
  have "nel \<le> m" "l \<le> 2 ^ 29" using assms by (simp_all add: n_def m_def l_def MAX_BUCKETS_def)
  then have i: "7 \<le> i" "i \<le> 29" "nel \<le> 2 ^ i"
    using round_up_spec [of 7 l] by (auto simp: i_def l_def split: if_splits)
  have w: "ucast (push_bit i 1 :: u32) = (2 ^ i :: u64)" using i by (intro push_bit_u32(2)) simp
  have "hcreate True nel h = (True, \<lparr>table = Some (replicate (2 ^ i) \<lparr>ekey = None, edata = 0\<rparr>), buckets = 2 ^ i, hmask = 2 ^ i - 1\<rparr>)"
    using assms i push_bit_u32(1) [of i] w
    by (simp only: hcreate_def Let_def n_def [symmetric] m_def [symmetric] l_def [symmetric] i_def [symmetric]) simp
  then show ?thesis using i table_ok_empty [of i] by (intro that) (auto simp: htab_ok_def)
qed

lemma hsearch_found:
  assumes ok: "htab_ok i tab h" and item: "ekey item = Some k" "is_cstr k" and some: "contents tab (cstr k) = Some d"
  shows "\<exists>j < length tab. hsearch item action h = Some (Inr (Some j, h)) \<and> key_is (cstr k) (tab ! j) \<and> edata (tab ! j) = d"
proof (rule hsearch_cases [OF ok item, where action = action], goal_cases)
  case (1 j)
  moreover have "table_ok i tab" "length tab = 2 ^ i" using ok by (simp_all add: htab_ok_def table_ok_def)
  ultimately show ?thesis using contents_Some [of i tab j "cstr k"] some by (auto simp: holds_key_is)
qed (use some in simp_all)

lemma hsearch_absent:
  assumes ok: "htab_ok i tab h" and item: "ekey item = Some k" "is_cstr k" and none: "contents tab (cstr k) = None"
  shows "hsearch item FIND h = Some (Inr (None, h))"
    and "occupied tab = length tab \<Longrightarrow> hsearch item ENTER h = Some (Inr (None, h))"
    and "occupied tab < length tab \<Longrightarrow>
      \<exists>j < length tab. \<exists>tab' h'. hsearch item ENTER h = Some (Inr (Some j, h')) \<and> htab_ok i tab' h' \<and> tab' ! j = item \<and>
        contents tab' = (contents tab)(cstr k \<mapsto> edata item) \<and> occupied tab' = Suc (occupied tab)"
proof -
  have len: "length tab = 2 ^ i" using ok by (simp add: htab_ok_def table_ok_def)
  then have not_here: False if "j < 2 ^ i" "holds tab (cstr k) j" for j
    using that none unfolding contents_None by simp
  show "hsearch item FIND h = Some (Inr (None, h))"
    by (rule hsearch_cases [OF ok item, where action = FIND]) (auto dest: not_here)
  show "hsearch item ENTER h = Some (Inr (None, h))" if "occupied tab = length tab"
    by (rule hsearch_cases [OF ok item, where action = ENTER]) (use that len occupied_full [of tab] in \<open>auto dest: not_here\<close>)
  show "\<exists>j < length tab. \<exists>tab' h'. hsearch item ENTER h = Some (Inr (Some j, h')) \<and> htab_ok i tab' h' \<and> tab' ! j = item \<and>
        contents tab' = (contents tab)(cstr k \<mapsto> edata item) \<and> occupied tab' = Suc (occupied tab)"
    if "occupied tab < length tab"
  proof (rule hsearch_cases [OF ok item, where action = ENTER], goal_cases)
    case free: (3 j)
    have "htab_ok i (tab[j := item]) (h\<lparr>table := Some (tab[j := item])\<rparr>)" using ok free(4) by (simp add: htab_ok_def)
    then show ?thesis
      using free len item contents_update [of j tab item k] occupied_update [of j tab item]
      by (intro exI [of _ j] conjI exI [of _ "tab[j := item]"] exI [of _ "h\<lparr>table := Some (tab[j := item])\<rparr>"]) simp_all
  qed (use that in \<open>auto dest: not_here\<close>)
qed

text \<open>Entering a list of items, \<^term>\<open>None\<close> as soon as a call fails.\<close>

fun enter_all :: "ENTRY list \<Rightarrow> htab \<Rightarrow> htab option" where
  "enter_all [] h = Some h"
| "enter_all (item # items) h =
     (case hsearch item ENTER h of Some (Inr (Some j, h)) \<Rightarrow> enter_all items h | _ \<Rightarrow> None)"

definition enter_map :: "(u8 list \<rightharpoonup> nat) \<Rightarrow> ENTRY \<Rightarrow> (u8 list \<rightharpoonup> nat)" where
  "enter_map m item =
     (case ekey item of None \<Rightarrow> m | Some k \<Rightarrow> if m (cstr k) = None then m(cstr k \<mapsto> edata item) else m)"

definition string_key :: "ENTRY \<Rightarrow> bool" where
  "string_key item \<longleftrightarrow> (case ekey item of None \<Rightarrow> False | Some k \<Rightarrow> is_cstr k)"

lemma enter_all_spec:
  "htab_ok i tab h \<Longrightarrow> list_all string_key items \<Longrightarrow> occupied tab + length items \<le> length tab \<Longrightarrow>
     \<exists>tab' h'. enter_all items h = Some h' \<and> htab_ok i tab' h' \<and> contents tab' = foldl enter_map (contents tab) items"
proof (induction items arbitrary: tab h)
  case (Cons item items)
  then obtain k where item: "ekey item = Some k" "is_cstr k" by (auto simp: string_key_def split: option.splits)
  have len: "length tab = 2 ^ i" using Cons.prems(1) by (simp add: htab_ok_def table_ok_def)
  show ?case
  proof (cases "contents tab (cstr k)")
    case None
    from hsearch_absent(3) [OF Cons.prems(1) item None] Cons.prems(3)
    obtain j tab' h' where enter: "hsearch item ENTER h = Some (Inr (Some j, h'))" "htab_ok i tab' h'"
        "contents tab' = (contents tab)(cstr k \<mapsto> edata item)" "occupied tab' = Suc (occupied tab)"
      by auto
    have "length tab' = 2 ^ i" using enter(2) by (simp add: htab_ok_def table_ok_def)
    moreover have "enter_map (contents tab) item = contents tab'" using item None enter(3) by (simp add: enter_map_def)
    ultimately show ?thesis using Cons.IH [OF enter(2)] enter(1,4) Cons.prems len by simp
  next
    case (Some d)
    from hsearch_found [OF Cons.prems(1) item Some, of ENTER] show ?thesis
      using Cons.IH [of tab h] Cons.prems item Some by (auto simp: enter_map_def)
  qed
qed auto

section \<open>Linear search\<close>

definition elem_at :: "nat \<Rightarrow> u8 list \<Rightarrow> nat \<Rightarrow> u8 list" where
  "elem_at width mem i = take width (drop (i * width) mem)"

lemma l_loop_spec:
  assumes "nel * width \<le> length mem"
  shows "i \<le> nel \<Longrightarrow> \<exists>j. i \<le> j \<and> j \<le> nel \<and> l_loop ky nel width compar mem (i * width) i = Inr (j * width, j) \<and>
    (\<forall>l. i \<le> l \<longrightarrow> l < j \<longrightarrow> compar (elem_at width mem l) ky \<noteq> 0) \<and> (j < nel \<longrightarrow> compar (elem_at width mem j) ky = 0)"
proof (induction "nel - i" arbitrary: i)
  case 0
  then show ?case by (subst l_loop.simps) auto
next
  case (Suc d)
  then have i: "i < nel" "d = nel - Suc i" by simp_all
  have "i * width + width \<le> nel * width" using i mult_le_mono1 [of "Suc i" nel width] by (simp add: add.commute)
  then have fits: "\<not> length mem < i * width + width" using assms by simp
  show ?case
  proof (cases "compar (elem_at width mem i) ky = 0")
    case True
    then show ?thesis using i fits by (subst l_loop.simps) (auto simp: elem_at_def)
  next
    case False
    obtain j where "Suc i \<le> j" "j \<le> nel" "l_loop ky nel width compar mem (Suc i * width) (Suc i) = Inr (j * width, j)"
        "\<forall>l. Suc i \<le> l \<longrightarrow> l < j \<longrightarrow> compar (elem_at width mem l) ky \<noteq> 0" "j < nel \<longrightarrow> compar (elem_at width mem j) ky = 0"
      using Suc.hyps(1) [of "Suc i"] i by auto
    moreover from this(4) have "\<forall>l. i \<le> l \<longrightarrow> l < j \<longrightarrow> compar (elem_at width mem l) ky \<noteq> 0"
      using False by (metis Suc_leI le_neq_implies_less)
    ultimately show ?thesis using False i fits
      by (subst l_loop.simps) (auto simp: elem_at_def add.commute)
  qed
qed

section \<open>Properties\<close>

text \<open>
  C35. \<open>_hash2v\<close> finds the end of its key itself and returns the hash that the original function
  computes from the known length, for every string and whatever follows it in memory; the mixing
  step loses no information, as its comment says.
\<close>

theorem hash2v_original:
  assumes "0 \<notin> set s"
  shows "\<exists>v2. hash2v (s @ 0 # r) = Inr (hash (s @ 0 # r) (length s) 0, v2) \<and> hash2v (s @ 0 # r') = hash2v (s @ 0 # r) \<and> bij mix"
proof -
  have "bij mix" by (rule o_bij [of unmix]) (auto simp: fun_eq_iff unmix_mix)
  then show ?thesis using assms by (cases "hash_of s") (simp add: hash2v_hash_of hash_hash_of)
qed

theorem hash2v_original_witness:
  "\<exists>v2. hash2v [97, 98, 0, 5] = Inr (hash [97, 98, 0, 5] (Suc (Suc 0)) 0, v2) \<and> hash2v [97, 98, 0] = hash2v [97, 98, 0, 5]"
  using hash2v_original [of "[97, 98]" "[5]" "[]"] by auto

text \<open>
  C36. A well-formed table is a map from strings to data: the probing loop always returns; a key
  that is in the table is found by both actions with its data and nothing changes; an absent key is
  reported by \<^verbatim>\<open>FIND\<close>, and \<^verbatim>\<open>ENTER\<close> adds exactly it and keeps the table well-formed, unless every slot
  is occupied, when it returns null and changes nothing.
\<close>

theorem hsearch_map:
  assumes "htab_ok i tab h" and "ekey item = Some k" and "is_cstr k"
  shows "case contents tab (cstr k) of
      Some d \<Rightarrow> \<forall>action. \<exists>j < length tab. hsearch item action h = Some (Inr (Some j, h)) \<and>
                 key_is (cstr k) (tab ! j) \<and> edata (tab ! j) = d
    | None \<Rightarrow> hsearch item FIND h = Some (Inr (None, h)) \<and>
        (if occupied tab = length tab then hsearch item ENTER h = Some (Inr (None, h))
         else \<exists>j < length tab. \<exists>tab' h'. hsearch item ENTER h = Some (Inr (Some j, h')) \<and> htab_ok i tab' h' \<and>
                tab' ! j = item \<and> contents tab' = (contents tab)(cstr k \<mapsto> edata item) \<and> occupied tab' = Suc (occupied tab))"
proof (cases "contents tab (cstr k)")
  case None
  have "occupied tab \<le> length tab" by (simp add: occupied_def)
  then show ?thesis using hsearch_absent [OF assms None] None by (auto simp del: fun_upd_apply)
next
  case (Some d)
  then show ?thesis using hsearch_found [OF assms Some] by simp
qed

definition demo_table :: htab where
  "demo_table = \<lparr>table = Some (replicate (2 ^ 7) \<lparr>ekey = None, edata = 0\<rparr>), buckets = 2 ^ 7, hmask = 2 ^ 7 - 1\<rparr>"

theorem hsearch_map_witness:
  "\<exists>j h'. hsearch \<lparr>ekey = Some [107, 0], edata = 5\<rparr> ENTER demo_table = Some (Inr (Some j, h')) \<and>
     hsearch \<lparr>ekey = Some [107, 0], edata = 5\<rparr> FIND demo_table = Some (Inr (None, demo_table))"
proof -
  have "htab_ok 7 (replicate (2 ^ 7) \<lparr>ekey = None, edata = 0\<rparr>) demo_table"
    using table_ok_empty [of 7] by (simp add: htab_ok_def demo_table_def)
  from hsearch_map [OF this, of "\<lparr>ekey = Some [107, 0], edata = 5\<rparr>" "[107, 0]"] show ?thesis
    by (auto simp del: fun_upd_apply)
qed

text \<open>
  C37. A table created for \<open>nel\<close> entries takes any \<open>nel\<close> \<^verbatim>\<open>ENTER\<close> calls, also on top of a table that
  existed before, and afterwards \<^verbatim>\<open>FIND\<close> returns for every key the data of the first item entered
  under it and null for every other key.
\<close>

theorem hcreate_capacity:
  assumes "nel \<le> MAX_BUCKETS" and "list_all string_key items" and "length items \<le> nel"
  shows "\<exists>h1 h2 tab. hcreate True nel h = (True, h1) \<and> enter_all items h1 = Some h2 \<and> table h2 = Some tab \<and>
    (\<forall>s r v. 0 \<notin> set s \<longrightarrow>
      (case foldl enter_map Map.empty items s of
         None \<Rightarrow> hsearch \<lparr>ekey = Some (s @ 0 # r), edata = v\<rparr> FIND h2 = Some (Inr (None, h2))
       | Some d \<Rightarrow> \<exists>j < length tab. hsearch \<lparr>ekey = Some (s @ 0 # r), edata = v\<rparr> FIND h2 = Some (Inr (Some j, h2)) \<and>
           edata (tab ! j) = d))"
proof -
  obtain i h1 where h1: "nel \<le> 2 ^ i" "hcreate True nel h = (True, h1)" "htab_ok i (replicate (2 ^ i) \<lparr>ekey = None, edata = 0\<rparr>) h1"
    using hcreate_spec [OF assms(1), of h] by metis
  obtain tab h2 where h2: "enter_all items h1 = Some h2" "htab_ok i tab h2" "contents tab = foldl enter_map Map.empty items"
    using enter_all_spec [OF h1(3) assms(2)] h1(1) assms(3) by auto
  have "case foldl enter_map Map.empty items s of
         None \<Rightarrow> hsearch \<lparr>ekey = Some (s @ 0 # r), edata = v\<rparr> FIND h2 = Some (Inr (None, h2))
       | Some d \<Rightarrow> \<exists>j < length tab. hsearch \<lparr>ekey = Some (s @ 0 # r), edata = v\<rparr> FIND h2 = Some (Inr (Some j, h2)) \<and>
           edata (tab ! j) = d" if "0 \<notin> set s" for s r v
  proof (cases "contents tab s")
    case None
    then show ?thesis using hsearch_absent(1) [OF h2(2), of "\<lparr>ekey = Some (s @ 0 # r), edata = v\<rparr>" "s @ 0 # r"] that h2(3) by simp
  next
    case (Some d)
    then show ?thesis
      using hsearch_found [OF h2(2), of "\<lparr>ekey = Some (s @ 0 # r), edata = v\<rparr>" "s @ 0 # r" d FIND] that h2(3) by auto
  qed
  moreover have "table h2 = Some tab" using h2(2) by (simp add: htab_ok_def)
  ultimately show ?thesis using h1(2) h2(1) by blast
qed

theorem hcreate_capacity_witness:
  "\<exists>h1 h2 j. hcreate True 2 htab_init = (True, h1) \<and>
     enter_all [\<lparr>ekey = Some [97, 0], edata = 1\<rparr>, \<lparr>ekey = Some [97, 0, 9], edata = 2\<rparr>] h1 = Some h2 \<and>
     hsearch \<lparr>ekey = Some [97, 0], edata = 0\<rparr> FIND h2 = Some (Inr (Some j, h2)) \<and>
     hsearch \<lparr>ekey = Some [98, 0], edata = 0\<rparr> FIND h2 = Some (Inr (None, h2))"
proof -
  define items where "items = [\<lparr>ekey = Some [97, 0], edata = 1\<rparr>, \<lparr>ekey = Some [97, 0, 9], edata = 2\<rparr>]"
  have "2 \<le> MAX_BUCKETS" "list_all string_key items" "length items \<le> 2"
    by (simp_all add: MAX_BUCKETS_def items_def string_key_def)
  from hcreate_capacity [OF this, of htab_init] obtain h1 h2 and tab :: "ENTRY list" where h: "hcreate True 2 htab_init = (True, h1)" "enter_all items h1 = Some h2"
    and f: "\<And>s r v. 0 \<notin> set s \<Longrightarrow>
      case foldl enter_map Map.empty items s of
         None \<Rightarrow> hsearch \<lparr>ekey = Some (s @ 0 # r), edata = v\<rparr> FIND h2 = Some (Inr (None, h2))
       | Some d \<Rightarrow> \<exists>j < length tab. hsearch \<lparr>ekey = Some (s @ 0 # r), edata = v\<rparr> FIND h2 = Some (Inr (Some j, h2)) \<and>
           edata (tab ! j) = d"
    by blast
  have "foldl enter_map Map.empty items [97] = Some 1" "foldl enter_map Map.empty items [98] = None"
    by (simp_all add: items_def enter_map_def)
  with h f [of "[97]" "[]" 0] f [of "[98]" "[]" 0] show ?thesis unfolding items_def by auto
qed

text \<open>
  C38. \<open>lfind\<close> returns the first element that compares equal, or null, and changes nothing. \<open>lsearch\<close>
  returns the same element when there is one; otherwise it copies the key behind the last element
  and increments the count, and runs off the array exactly when it has no room for one more.
\<close>

theorem linear_search:
  assumes "nel * width \<le> length mem" and "width \<le> length ky"
  shows "\<exists>j \<le> nel. (\<forall>l < j. compar (elem_at width mem l) ky \<noteq> 0) \<and>
    (if j < nel
     then compar (elem_at width mem j) ky = 0 \<and> lfind ky mem nel width compar = Inr (Some (j * width), mem, nel) \<and>
          lsearch ky mem nel width compar = Inr (Some (j * width), mem, nel)
     else lfind ky mem nel width compar = Inr (None, mem, nel) \<and>
          lsearch ky mem nel width compar =
            (if nel * width + width \<le> length mem
             then Inr (Some (nel * width), take (nel * width) mem @ take width ky @ drop (nel * width + width) mem, nel + 1)
             else Inl OutOfBounds))"
proof -
  obtain j where j: "j \<le> nel" "l_loop ky nel width compar mem 0 0 = Inr (j * width, j)"
      "\<forall>l < j. compar (elem_at width mem l) ky \<noteq> 0" "j < nel \<longrightarrow> compar (elem_at width mem j) ky = 0"
    using l_loop_spec [OF assms(1), of 0 ky compar] by auto
  have "width \<le> length mem - nel * width \<longleftrightarrow> nel * width + width \<le> length mem" using assms(1) by linarith
  with j assms show ?thesis
    by (intro exI [of _ j]) (auto simp: lfind_def lsearch_def l_general_def memcpy_spec add.commute)
qed

theorem linear_search_witness:
  "lsearch [5] [3, 0] 1 1 (\<lambda>a b. if a = b then 0 else 1) = Inr (Some 1, [3, 5], 2) \<and>
   lfind [3] [3, 0] 1 1 (\<lambda>a b. if a = b then 0 else 1) = Inr (Some 0, [3, 0], 1)"
proof
  show "lsearch [5] [3, 0] 1 1 (\<lambda>a b. if a = b then 0 else 1) = Inr (Some 1, [3, 5], 2)"
    using linear_search [of 1 1 "[3, 0]" "[5]" "\<lambda>a b. if a = b then 0 else 1"]
    by (auto simp: elem_at_def le_Suc_eq numeral_2_eq_2 [symmetric])
  show "lfind [3] [3, 0] 1 1 (\<lambda>a b. if a = b then 0 else 1) = Inr (Some 0, [3, 0], 1)"
    using linear_search [of 1 1 "[3, 0]" "[3]" "\<lambda>a b. if a = b then 0 else 1"]
    by (auto simp: elem_at_def le_Suc_eq)
qed

end
