(* ===== verification/Strtol.thy ===== *)
theory Strtol
  imports Ctype
begin

text \<open>
  Conversion between strings and integers: \<^verbatim>\<open>strtol.c\<close>, \<^verbatim>\<open>strtoul.c\<close>, \<^verbatim>\<open>strtoll.c\<close>, \<^verbatim>\<open>strtoull.c\<close> and
  their callers in \<^verbatim>\<open>src/libc/ansi/stdlib\<close> and \<^verbatim>\<open>c99/inttypes\<close>, and \<^verbatim>\<open>itoa\<close>, \<^verbatim>\<open>a64l\<close> and \<^verbatim>\<open>l64a\<close>. The four
  conversion functions repeat the same text for skipping space, reading the sign and the prefix and
  for the loop over the digits; it is one definition here. \<^verbatim>\<open>long\<close> has 64 bits, but \<^verbatim>\<open>limits.h\<close>, which the
  library is compiled with, gives \<^verbatim>\<open>LONG_MAX\<close>, \<^verbatim>\<open>LONG_MIN\<close> and \<^verbatim>\<open>ULONG_MAX\<close> their 32-bit values.
  A position is an offset from \<^verbatim>\<open>nptr\<close>.
\<close>

section \<open>Limits\<close>

definition LONG_MAX :: int where "LONG_MAX = 2147483647"
definition LONG_MIN :: int where "LONG_MIN = -2147483647 - 1"
definition ULONG_MAX :: int where "ULONG_MAX = 4294967295"
definition LLONG_MIN :: int where "LLONG_MIN = -9223372036854775807 - 1"
definition LLONG_MAX :: int where "LLONG_MAX = 9223372036854775807"
definition ULLONG_MAX :: int where "ULLONG_MAX = 18446744073709551615"

section \<open>Reading a number\<close>

text \<open>\<^verbatim>\<open>do c = *s++; while (isspace(c))\<close>: the character, what follows it, and the position behind it.\<close>

fun skip_space :: "u8 list \<Rightarrow> nat \<Rightarrow> fault + u8 \<times> u8 list \<times> nat" where
  "skip_space [] i = Inl OutOfBounds"
| "skip_space (c # s) i =
     rbind (isspace (uint c)) (\<lambda>sp. if sp \<noteq> 0 then skip_space s (i + 1) else Inr (c, s, i + 1))"

definition next_char :: "u8 list \<Rightarrow> nat \<Rightarrow> fault + u8 \<times> u8 list \<times> nat" where
  "next_char s i = (case s of [] \<Rightarrow> Inl OutOfBounds | c # s \<Rightarrow> Inr (c, s, i + 1))"

text \<open>The sign: \<^verbatim>\<open>neg\<close>, and the next character.\<close>

definition read_sign :: "u8 \<Rightarrow> u8 list \<Rightarrow> nat \<Rightarrow> fault + bool \<times> u8 \<times> u8 list \<times> nat" where
  "read_sign c s i =
     (if c = chr CHR ''-'' then rmap (Pair True) (next_char s i)
      else if c = chr CHR ''+'' then rmap (Pair False) (next_char s i)
      else Inr (False, c, s, i))"

text \<open>The prefix \<^verbatim>\<open>0x\<close> and the base.\<close>

definition read_prefix :: "int \<Rightarrow> u8 \<Rightarrow> u8 list \<Rightarrow> nat \<Rightarrow> fault + int \<times> u8 \<times> u8 list \<times> nat" where
  "read_prefix base c s i =
     rbind (if (base = 0 \<or> base = 16) \<and> c = chr CHR ''0''
            then case s of
                   [] \<Rightarrow> Inl OutOfBounds
                 | x # s' \<Rightarrow>
                     if x = chr CHR ''x'' \<or> x = chr CHR ''X''
                     then rmap (Pair 16) (next_char s' (i + 1))
                     else Inr (base, c, s, i)
            else Inr (base, c, s, i)) (\<lambda>(base, c, s, i).
       Inr (if base = 0 then if c = chr CHR ''0'' then 8 else 10 else base, c, s, i))"

text \<open>The value of a digit, \<^term>\<open>None\<close> when the loop leaves.\<close>

definition digit :: "u8 \<Rightarrow> fault + u8 option" where
  "digit c =
     rbind (isdigit (uint c)) (\<lambda>d.
       if d \<noteq> 0 then Inr (Some (c - chr CHR ''0''))
       else rbind (isalpha (uint c)) (\<lambda>a.
         if a \<noteq> 0 then rbind (isupper (uint c)) (\<lambda>u. Inr (Some (c - (if u \<noteq> 0 then chr CHR ''A'' - 10 else chr CHR ''a'' - 10))))
         else Inr None))"

text \<open>The loop over the digits; the result is \<^verbatim>\<open>acc\<close>, \<^verbatim>\<open>any\<close> and the position behind the last character read.\<close>

fun digits_loop :: "int \<Rightarrow> u64 \<Rightarrow> int \<Rightarrow> u8 \<Rightarrow> u8 list \<Rightarrow> nat \<Rightarrow> u64 \<Rightarrow> int \<Rightarrow> fault + u64 \<times> int \<times> nat" where
  "digits_loop base cutoff cutlim c s i acc any =
     rbind (digit c) (\<lambda>dig.
       case dig of
         None \<Rightarrow> Inr (acc, any, i)
       | Some d \<Rightarrow>
           if uint d \<ge> base then Inr (acc, any, i)
           else
             let over = any < 0 \<or> acc > cutoff \<or> (acc = cutoff \<and> uint d > cutlim);
                 any' = (if over then -1 else 1);
                 acc' = (if over then acc else acc * word_of_int base + ucast d)
             in case s of
                  [] \<Rightarrow> Inl OutOfBounds
                | c # s \<Rightarrow> digits_loop base cutoff cutlim c s (i + 1) acc' any')"

declare digits_loop.simps [simp del]

text \<open>Everything up to the loop: \<^verbatim>\<open>neg\<close>, \<^verbatim>\<open>base\<close>, the first character, what follows and the position.\<close>

definition read_start :: "u8 list \<Rightarrow> int \<Rightarrow> fault + bool \<times> int \<times> u8 \<times> u8 list \<times> nat" where
  "read_start nptr base =
     rbind (skip_space nptr 0) (\<lambda>(c, s, i).
     rbind (read_sign c s i) (\<lambda>(neg, c, s, i).
     rbind (read_prefix base c s i) (\<lambda>(base, c, s, i). Inr (neg, base, c, s, i))))"

text \<open>
  The result of a conversion: the value returned, whether \<^verbatim>\<open>errno\<close> is set to \<^verbatim>\<open>ERANGE\<close>, and the offset
  stored through \<^verbatim>\<open>endptr\<close> (when it is not null).
\<close>

definition strtol :: "u8 list \<Rightarrow> int \<Rightarrow> fault + u64 \<times> bool \<times> nat" where
  "strtol nptr base =
     rbind (read_start nptr base) (\<lambda>(neg, base, c, s, i).
       let cutoff = (if neg then - word_of_int LONG_MIN else word_of_int LONG_MAX) :: u64;
           cutlim = uint (cutoff mod word_of_int base);
           cutoff = cutoff div word_of_int base
       in rbind (digits_loop base cutoff cutlim c s i 0 0) (\<lambda>(acc, any, i).
            let acc' = (if any < 0 then word_of_int (if neg then LONG_MIN else LONG_MAX) else if neg then - acc else acc)
            in Inr (acc', any < 0, if any \<noteq> 0 then i - 1 else 0)))"

definition strtoul :: "u8 list \<Rightarrow> int \<Rightarrow> fault + u64 \<times> bool \<times> nat" where
  "strtoul nptr base =
     rbind (read_start nptr base) (\<lambda>(neg, base, c, s, i).
       let cutoff = word_of_int ULONG_MAX div word_of_int base;
           cutlim = uint (word_of_int ULONG_MAX mod word_of_int base :: u64)
       in rbind (digits_loop base cutoff cutlim c s i 0 0) (\<lambda>(acc, any, i).
            let acc' = (if any < 0 then word_of_int ULONG_MAX else if neg then - acc else acc)
            in Inr (acc', any < 0, if any \<noteq> 0 then i - 1 else 0)))"

definition strtoll :: "u8 list \<Rightarrow> int \<Rightarrow> fault + u64 \<times> bool \<times> nat" where
  "strtoll nptr base =
     rbind (read_start nptr base) (\<lambda>(neg, base, c, s, i).
       let cutoff = word_of_int (if neg then - (LLONG_MIN + 1) else LLONG_MAX - 1) :: u64;
           cutlim = uint (cutoff mod word_of_int base);
           cutoff = cutoff div word_of_int base;
           cutlim = cutlim + 1;
           (cutoff, cutlim) = (if cutlim = base then (cutoff + 1, 0) else (cutoff, cutlim))
       in rbind (digits_loop base cutoff cutlim c s i 0 0) (\<lambda>(acc, any, i).
            let acc' = (if any < 0 then word_of_int (if neg then LLONG_MIN else LLONG_MAX) else if neg then - acc else acc)
            in Inr (acc', any < 0, if any \<noteq> 0 then i - 1 else 0)))"

definition strtoull :: "u8 list \<Rightarrow> int \<Rightarrow> fault + u64 \<times> bool \<times> nat" where
  "strtoull nptr base =
     rbind (read_start nptr base) (\<lambda>(neg, base, c, s, i).
       let cutoff = word_of_int ULLONG_MAX div word_of_int base;
           cutlim = uint (word_of_int ULLONG_MAX mod word_of_int base :: u64)
       in rbind (digits_loop base cutoff cutlim c s i 0 0) (\<lambda>(acc, any, i).
            let acc' = (if any < 0 then word_of_int ULLONG_MAX else if neg then - acc else acc)
            in Inr (acc', any < 0, if any \<noteq> 0 then i - 1 else 0)))"

definition strtoimax :: "u8 list \<Rightarrow> int \<Rightarrow> fault + u64 \<times> bool \<times> nat" where
  "strtoimax nptr base = strtoll nptr base"

definition strtoumax :: "u8 list \<Rightarrow> int \<Rightarrow> fault + u64 \<times> bool \<times> nat" where
  "strtoumax nptr base = strtoull nptr base"

definition atoi :: "u8 list \<Rightarrow> fault + u32" where
  "atoi str = rmap (\<lambda>(v, e, p). ucast v) (strtol str 10)"

definition atol :: "u8 list \<Rightarrow> fault + u64" where
  "atol str = rmap fst (strtol str 10)"

definition atoll :: "u8 list \<Rightarrow> fault + u64" where
  "atoll str = rmap fst (strtoll str 10)"

section \<open>Printing a number\<close>

text \<open>
  The loop of \<^verbatim>\<open>itoa\<close> that fills \<^verbatim>\<open>tmp\<close> from the last digit on; \<open>tmp\<close> is the part filled so far, with the
  newest character first, as the copying loop reads it. The array has room for 33 characters.
\<close>

function itoa_loop :: "nat \<Rightarrow> u32 \<Rightarrow> u8 list \<Rightarrow> fault + u8 list" where
  "itoa_loop radix v tmp =
     (if v \<noteq> 0 \<or> tmp = [] then
        if 33 \<le> length tmp then Inl OutOfBounds
        else
          let i = unat v mod radix;
              v = word_of_nat (unat v div radix)
          in itoa_loop radix v ((if i < 10 then of_nat i + chr CHR ''0'' else of_nat i + chr CHR ''a'' - 10) # tmp)
      else Inr tmp)"
  by auto
termination
proof (relation "measure (\<lambda>(radix, v, tmp). 34 - length tmp)")
qed auto

declare itoa_loop.simps [simp del]

text \<open>\<^verbatim>\<open>None\<close> for the null pointer returned with \<^verbatim>\<open>EDOM\<close>; otherwise the string written.\<close>

definition itoa :: "u32 \<Rightarrow> int \<Rightarrow> fault + u8 list option" where
  "itoa value radix =
     (if radix > 36 \<or> radix \<le> 1 then Inr None
      else
        let sign = (radix = 10 \<and> sint value < 0);
            v = (if sign then - value else value)
        in rbind (itoa_loop (nat radix) v []) (\<lambda>tmp.
             Inr (Some ((if sign then [chr CHR ''-''] else []) @ tmp @ [0]))))"

section \<open>Radix 64\<close>

definition a64_digit :: "u8 \<Rightarrow> u64 option" where
  "a64_digit c =
     (if c = chr CHR ''.'' then Some 0
      else if c = chr CHR ''/'' then Some 1
      else if chr CHR ''0'' \<le> c \<and> c \<le> chr CHR ''9'' then Some (ucast (c - chr CHR ''0'') + 2)
      else if chr CHR ''A'' \<le> c \<and> c \<le> chr CHR ''Z'' then Some (ucast (c - chr CHR ''A'') + 12)
      else if chr CHR ''a'' \<le> c \<and> c \<le> chr CHR ''z'' then Some (ucast (c - chr CHR ''a'') + 38)
      else None)"

fun a64l_loop :: "nat \<Rightarrow> u8 list \<Rightarrow> u64 \<Rightarrow> fault + u64" where
  "a64l_loop 0 s v = Inr v"
| "a64l_loop (Suc n) [] v = Inl OutOfBounds"
| "a64l_loop (Suc n) (c # s) v =
     (if c = 0 then Inr v
      else if v > drop_bit 6 (word_of_int ULONG_MAX) then Inr 1144341633
      else case a64_digit c of None \<Rightarrow> Inr 0 | Some d \<Rightarrow> a64l_loop n s (push_bit 6 v + d))"

definition a64l :: "u8 list option \<Rightarrow> fault + u64" where
  "a64l s = (case s of None \<Rightarrow> Inr 0 | Some s \<Rightarrow> a64l_loop 6 s 0)"

definition l64_digit :: "u64 \<Rightarrow> u8" where
  "l64_digit v =
     (let d = ucast (v AND 0x3f) :: u8 in
      if d = 0 then chr CHR ''.''
      else if d = 1 then chr CHR ''/''
      else if d < 12 then chr CHR ''0'' + (d - 2)
      else if d < 38 then chr CHR ''A'' + (d - 12)
      else chr CHR ''a'' + (d - 38))"

text \<open>At most six digits are written, from the end of the buffer down to its start.\<close>

fun l64a_loop :: "nat \<Rightarrow> u64 \<Rightarrow> u8 list \<Rightarrow> u8 list" where
  "l64a_loop 0 v s = s"
| "l64a_loop (Suc n) v s = (if v \<noteq> 0 then l64a_loop n (drop_bit 6 v) (l64_digit v # s) else s)"

definition l64a :: "u64 \<Rightarrow> u8 list" where
  "l64a v = l64a_loop 6 v [0]"

end
