(* ===== verification/Strtol_Props.thy ===== *)
theory Strtol_Props
  imports Strtol
begin

text \<open>
  Correctness of the conversions between strings and integers: the cut-off test of the digit loops
  decides the limit exactly, the four functions return the value of the text they read, and what
  \<^verbatim>\<open>itoa\<close> and \<^verbatim>\<open>l64a\<close> print is read back unchanged.
\<close>

section \<open>Characters\<close>

lemma scan_class:
  fixes c :: u8
  shows "isspace (uint c) = Inr (if 9 \<le> uint c \<and> uint c \<le> 13 \<or> uint c = 32 then 256 else 0)"
    "isdigit (uint c) = Inr (if ascii_digit (uint c) then 8 else 0)"
    "isalpha (uint c) = Inr (if ascii_upper (uint c) \<or> ascii_lower (uint c) then 2 else 0)"
    "isupper (uint c) = Inr (if ascii_upper (uint c) then 512 else 0)"
proof -
  have "uint c < 256" using uint_lt2p [of c] by simp
  then have range: "-1 \<le> uint c" "uint c \<le> 255" using uint_ge_0 [of c] by linarith+
  then have "class_table (uint c)" using class_table_all by (simp add: list_all_iff)
  then show "isspace (uint c) = Inr (if 9 \<le> uint c \<and> uint c \<le> 13 \<or> uint c = 32 then 256 else 0)"
    "isdigit (uint c) = Inr (if ascii_digit (uint c) then 8 else 0)"
    "isalpha (uint c) = Inr (if ascii_upper (uint c) \<or> ascii_lower (uint c) then 2 else 0)"
    "isupper (uint c) = Inr (if ascii_upper (uint c) then 512 else 0)"
    by (simp_all add: class_table_def Let_def ctype_test_ascii [OF range] isalpha_def isdigit_def isupper_def isspace_def)
qed

text \<open>The value a character has as a digit of any base, 36 or more when it is none.\<close>

definition digit_value :: "u8 \<Rightarrow> int" where
  "digit_value c =
     (if ascii_digit (uint c) then uint c - 48
      else if ascii_upper (uint c) then uint c - 55
      else if ascii_lower (uint c) then uint c - 87
      else 36)"

lemma digit_spec:
  "digit c = Inr (if digit_value c = 36 then None else Some (word_of_int (digit_value c)))"
proof -
  have "c - 48 = word_of_int (uint c - 48)" "c - 55 = word_of_int (uint c - 55)" "c - 87 = word_of_int (uint c - 87)"
    by (simp_all only: wi_hom_sub [symmetric] word_of_int_uint word_of_int_numeral)
  then show ?thesis
    by (auto simp: digit_def scan_class digit_value_def ascii_digit_def ascii_upper_def ascii_lower_def)
qed

lemma digit_value_range: "0 \<le> digit_value c" "digit_value c \<le> 36"
  by (auto simp: digit_value_def ascii_digit_def ascii_upper_def ascii_lower_def)

lemma uint_digit: "uint (word_of_int (digit_value c) :: u8) = digit_value c"
  using digit_value_range [of c] by (simp add: uint_word_of_int take_bit_int_eq_self)

section \<open>The loop over the digits\<close>

definition value_from :: "int \<Rightarrow> int \<Rightarrow> u8 list \<Rightarrow> int" where
  "value_from base = foldl (\<lambda>v c. v * base + digit_value c)"

lemma value_from_ge: "1 \<le> base \<Longrightarrow> 0 \<le> v \<Longrightarrow> v \<le> value_from base v ds"
proof (induction ds arbitrary: v)
  case (Cons c ds)
  have "v * 1 \<le> v * base" using Cons.prems by (intro mult_left_mono) auto
  then have "v \<le> v * base + digit_value c" using digit_value_range(1) [of c] by linarith
  moreover from this Cons.prems have "v * base + digit_value c \<le> value_from base (v * base + digit_value c) ds" by (intro Cons.IH) auto
  ultimately show ?case by (simp add: value_from_def)
qed (simp add: value_from_def)

text \<open>The comparison with \<^verbatim>\<open>cutoff\<close> and \<^verbatim>\<open>cutlim\<close> decides whether the next digit passes the limit.\<close>

lemma cutoff_test:
  fixes base lim :: int
  assumes "2 \<le> base" "0 \<le> d" "d < base"
  shows "v > lim div base \<or> v = lim div base \<and> d > lim mod base \<longleftrightarrow> v * base + d > lim"
proof -
  have split: "lim = lim div base * base + lim mod base" by simp
  have m: "0 \<le> lim mod base" "lim mod base < base" using assms by simp_all
  consider "v < lim div base" | "v = lim div base" | "v > lim div base" by linarith
  then show ?thesis
  proof cases
    case 1
    then have "(v + 1) * base \<le> lim div base * base" using assms by (intro mult_right_mono) auto
    then have "v * base + base \<le> lim div base * base" by (simp add: distrib_right)
    with assms m split have "v * base + d \<le> lim" by linarith
    with 1 show ?thesis by auto
  next
    case 2
    then have e: "v * base = lim div base * base" by simp
    have "lim < v * base + d" if "lim mod base < d" using that split e by linarith
    moreover have "lim mod base < d" if "lim < v * base + d" using that split e by linarith
    ultimately show ?thesis using 2 by blast
  next
    case 3
    then have "(lim div base + 1) * base \<le> v * base" using assms by (intro mult_right_mono) auto
    then have "lim div base * base + base \<le> v * base" by (simp add: distrib_right)
    with assms m split have "v * base + d > lim" by linarith
    with 3 show ?thesis by auto
  qed
qed

lemma digits_loop_stop: "base \<le> 36 \<Longrightarrow> base \<le> digit_value c \<Longrightarrow> digits_loop base cutoff cutlim c s i acc any = Inr (acc, any, i)"
  by (subst digits_loop.simps) (auto simp: digit_spec uint_digit)

lemma digits_loop_step:
  assumes "base \<le> 36" "digit_value c < base"
  shows "digits_loop base cutoff cutlim c (c' # s) i acc any =
    (if any < 0 \<or> acc > cutoff \<or> acc = cutoff \<and> digit_value c > cutlim
     then digits_loop base cutoff cutlim c' s (i + 1) acc (-1)
     else digits_loop base cutoff cutlim c' s (i + 1) (acc * word_of_int base + ucast (word_of_int (digit_value c) :: u8)) 1)"
  using assms by (subst digits_loop.simps) (simp add: digit_spec uint_digit Let_def)

lemma digits_loop_over:
  assumes "list_all (\<lambda>c. digit_value c < base) ds" "base \<le> 36" "base \<le> digit_value x"
  shows "c # s = ds @ x # r \<Longrightarrow>
    \<exists>acc'. digits_loop base cutoff cutlim c s i acc (-1) = Inr (acc', -1, i + length ds)"
  using assms
proof (induction ds arbitrary: c s i acc)
  case Nil
  then show ?case by (simp add: digits_loop_stop)
next
  case (Cons d ds)
  then obtain c' s' where s: "s = c' # s'" "ds @ x # r = c' # s'" "c = d" by (cases ds) auto
  from Cons.IH [OF s(2) [symmetric], of "i + 1" acc] Cons.prems s show ?case by (simp add: digits_loop_step)
qed

lemma digits_loop_spec:
  fixes lim :: int
  assumes base: "2 \<le> base" "base \<le> 36" and lim: "lim < 2 ^ 64"
  shows "list_all (\<lambda>c. digit_value c < base) ds \<Longrightarrow> base \<le> digit_value x \<Longrightarrow> c # s = ds @ x # r \<Longrightarrow>
    0 \<le> v \<Longrightarrow> v \<le> lim \<Longrightarrow> 0 \<le> any \<Longrightarrow>
    (if lim < value_from base v ds
     then \<exists>acc. digits_loop base (word_of_int (lim div base)) (lim mod base) c s i (word_of_int v) any = Inr (acc, -1, i + length ds)
     else digits_loop base (word_of_int (lim div base)) (lim mod base) c s i (word_of_int v) any =
            Inr (word_of_int (value_from base v ds), if ds = [] then any else 1, i + length ds))"
proof (induction ds arbitrary: c s i v any)
  case Nil
  then show ?case using base by (simp add: digits_loop_stop value_from_def)
next
  case (Cons d ds)
  then obtain c' s' where s: "s = c' # s'" "ds @ x # r = c' # s'" "c = d" by (cases ds) auto
  have d: "0 \<le> digit_value d" "digit_value d < base" using Cons.prems(1) digit_value_range by auto
  have q: "0 \<le> lim div base" "lim div base < 2 ^ 64" using base Cons.prems(4,5) lim
    by (auto simp: pos_imp_zdiv_nonneg_iff intro: le_less_trans [OF zdiv_mono2 [of lim 1 base, simplified]])
  have w: "word_of_int (lim div base) < (word_of_int v :: u64) \<longleftrightarrow> lim div base < v"
    "word_of_int v = (word_of_int (lim div base) :: u64) \<longleftrightarrow> v = lim div base"
    using q Cons.prems(4,5) lim by (simp_all add: word_less_def word_uint_eq_iff uint_word_of_int take_bit_int_eq_self)
  have acc: "word_of_int v * word_of_int base + ucast (word_of_int (digit_value d) :: u8) = (word_of_int (v * base + digit_value d) :: u64)"
    using uint_digit [of d] d base by (simp add: ucast_eq wi_hom_mult [symmetric] wi_hom_add [symmetric])
  note over = cutoff_test [OF base(1) d, of lim v]
  have step: "value_from base v (d # ds) = value_from base (v * base + digit_value d) ds" by (simp add: value_from_def)
  show ?case
  proof (cases "lim < v * base + digit_value d")
    case True
    then have "lim < value_from base v (d # ds)"
      unfolding step using value_from_ge [of base "v * base + digit_value d" ds] base d Cons.prems(4) by simp
    moreover have "\<exists>acc'. digits_loop base (word_of_int (lim div base)) (lim mod base) c' s' (i + 1) (word_of_int v) (-1) = Inr (acc', -1, (i + 1) + length ds)"
      using Cons.prems base by (intro digits_loop_over [OF _ base(2) _ s(2) [symmetric]]) auto
    ultimately show ?thesis using s(1,3) d base True over w Cons.prems(6) by (simp add: digits_loop_step)
  next
    case False
    define u where "u = v * base + digit_value d"
    have "digits_loop base (word_of_int (lim div base)) (lim mod base) c s i (word_of_int v) any =
        digits_loop base (word_of_int (lim div base)) (lim mod base) c' s' (i + 1) (word_of_int u) 1"
      unfolding u_def using False s(1,3) d base over w Cons.prems(6) acc by (auto simp: digits_loop_step)
    moreover have "0 \<le> u" "u \<le> lim" using False Cons.prems(4) d base by (simp_all add: u_def)
    ultimately show ?thesis
      using Cons.IH [OF _ _ s(2) [symmetric], of u 1 "i + 1"] Cons.prems(1,2) step by (auto simp: u_def [symmetric])
  qed
qed

section \<open>What is read before the digits\<close>

definition space_char :: "u8 \<Rightarrow> bool" where
  "space_char c \<longleftrightarrow> 9 \<le> uint c \<and> uint c \<le> 13 \<or> uint c = 32"

text \<open>
  The text of a number: a prefix \<^verbatim>\<open>0x\<close> may stand before the digits in base 16, and in base 0, where a
  leading \<^verbatim>\<open>0\<close> without it means base 8. A lone \<^verbatim>\<open>0\<close> must not be followed by an \<^verbatim>\<open>x\<close>, which the functions
  always take for a prefix.
\<close>

definition hex_mark :: "u8 \<Rightarrow> bool" where
  "hex_mark x \<longleftrightarrow> x = chr CHR ''x'' \<or> x = chr CHR ''X''"

definition number_text :: "int \<Rightarrow> int \<Rightarrow> u8 list \<Rightarrow> u8 list \<Rightarrow> u8 \<Rightarrow> bool" where
  "number_text base base' pre ds x \<longleftrightarrow>
     2 \<le> base' \<and> base' \<le> 36 \<and> list_all (\<lambda>c. digit_value c < base') ds \<and> base' \<le> digit_value x \<and>
     ((\<exists>m. pre = [chr CHR ''0'', m] \<and> hex_mark m) \<and> (base = 0 \<or> base = 16) \<and> base' = 16 \<or>
      pre = [] \<and> ds \<noteq> [] \<and> (base = base' \<or> base = 0 \<and> base' = (if hd ds = chr CHR ''0'' then 8 else 10)) \<and>
      ((base = 0 \<or> base = 16) \<and> ds = [chr CHR ''0''] \<longrightarrow> \<not> hex_mark x))"

definition sign_text :: "bool \<Rightarrow> u8 list \<Rightarrow> bool" where
  "sign_text neg sg \<longleftrightarrow> (if neg then sg = [chr CHR ''-''] else sg = [] \<or> sg = [chr CHR ''+''])"

lemma skip_space_spec:
  "list_all space_char ws \<Longrightarrow> \<not> space_char c \<Longrightarrow> skip_space (ws @ c # s) i = Inr (c, s, i + length ws + 1)"
  by (induction ws arbitrary: i) (auto simp: scan_class space_char_def)

lemma char_values [simp]:
  "digit_value 48 = 0" "digit_value 120 = 33" "digit_value 88 = 33" "digit_value 43 = 36" "digit_value 45 = 36"
  by (simp_all add: digit_value_def ascii_digit_def ascii_upper_def ascii_lower_def)

lemma digit_not_space: "digit_value c < 36 \<Longrightarrow> \<not> space_char c"
  by (auto simp: digit_value_def space_char_def ascii_digit_def ascii_upper_def ascii_lower_def split: if_splits)

lemma digit_not_sign: "digit_value c < 36 \<Longrightarrow> c \<noteq> chr CHR ''+'' \<and> c \<noteq> chr CHR ''-''"
  by auto

lemma read_sign_spec:
  assumes "sign_text neg sg" "digit_value c < 36" "sg @ c # s = d # t"
  shows "read_sign d t (Suc i) = Inr (neg, c, s, Suc i + length sg)"
  using assms digit_not_sign [OF assms(2)]
  by (auto simp: sign_text_def read_sign_def next_char_def split: if_splits)

lemma read_prefix_spec:
  assumes n: "number_text base base' pre ds x"
  obtains c s c' s' where "pre @ ds @ x # r = c # s" "digit_value c < 36" "ds @ x # r = c' # s'"
    "\<And>i. read_prefix base c s i = Inr (base', c', s', i + length pre)"
proof -
  from n consider (hex) m where "pre = [chr CHR ''0'', m]" "hex_mark m" "base = 0 \<or> base = 16" "base' = 16"
    | (plain) "pre = []" "ds \<noteq> []" "base = base' \<or> base = 0 \<and> base' = (if hd ds = chr CHR ''0'' then 8 else 10)"
        "(base = 0 \<or> base = 16) \<and> ds = [chr CHR ''0''] \<longrightarrow> \<not> hex_mark x"
    unfolding number_text_def by blast
  then show ?thesis
  proof cases
    case hex
    obtain c' s' where cs: "ds @ x # r = c' # s'" by (cases ds) auto
    show ?thesis
      by (rule that [of "chr CHR ''0''" "m # ds @ x # r" c' s'])
        (use hex cs in \<open>auto simp: read_prefix_def hex_mark_def next_char_def\<close>)
  next
    case plain
    then obtain c ds' where ds: "ds = c # ds'" by (cases ds) auto
    then have c: "digit_value c < 36" "digit_value c < base'" using n by (auto simp: number_text_def)
    have follow: "\<not> hex_mark d" if "base = 0 \<or> base = 16" "c = chr CHR ''0''" "ds' @ x # r = d # t" for d t
    proof (cases ds')
      case Nil
      then show ?thesis using plain(4) ds that by simp
    next
      case (Cons e es)
      then have "digit_value e < base'" "base' \<le> 16" using n ds that plain(3) by (auto simp: number_text_def split: if_splits)
      then show ?thesis using Cons that by (auto simp: hex_mark_def)
    qed
    obtain d t where dt: "ds' @ x # r = d # t" by (cases ds') auto
    show ?thesis
      by (rule that [of c "ds' @ x # r" c "ds' @ x # r"])
        (use plain ds c dt follow [OF _ _ dt] n in \<open>auto simp: read_prefix_def hex_mark_def number_text_def split: if_splits\<close>)
  qed
qed

lemma read_start_spec:
  assumes "list_all space_char ws" "sign_text neg sg" "number_text base base' pre ds x"
  obtains c s where "ds @ x # r = c # s"
    "read_start (ws @ sg @ pre @ ds @ x # r) base = Inr (neg, base', c, s, Suc (length (ws @ sg @ pre)))"
proof -
  obtain c s c' s' where c: "pre @ ds @ x # r = c # s" "digit_value c < 36" "ds @ x # r = c' # s'"
      "\<And>i. read_prefix base c s i = Inr (base', c', s', i + length pre)"
    using read_prefix_spec [OF assms(3), of r] by metis
  obtain d t where d: "sg @ c # s = d # t" by (cases sg) auto
  have "\<not> space_char d" using assms(2) c(2) d digit_not_space
    by (auto simp: sign_text_def space_char_def split: if_splits)
  then have "skip_space (ws @ d # t) 0 = Inr (d, t, Suc (length ws))"
    using skip_space_spec [OF assms(1)] by simp
  moreover have "read_sign d t (Suc (length ws)) = Inr (neg, c, s, Suc (length ws) + length sg)"
    by (rule read_sign_spec [OF assms(2) c(2) d])
  ultimately show ?thesis using c d by (intro that [OF c(3)]) (simp add: read_start_def)
qed

section \<open>Conversion\<close>

text \<open>
  Reading a number against a limit: the loop reports an overflow exactly when the value is larger
  than the limit, and otherwise returns the value; \<open>n\<close> is the length of what is before the digits.
\<close>

lemma digits_limit:
  assumes n: "number_text base base' pre ds x" and cs: "ds @ x # r = c # s" and lim: "0 \<le> lim" "lim < 2 ^ 64"
  shows "if lim < value_from base' 0 ds
    then \<exists>acc. digits_loop base' (word_of_int (lim div base')) (lim mod base') c s i 0 0 = Inr (acc, -1, i + length ds) \<and> ds \<noteq> []
    else digits_loop base' (word_of_int (lim div base')) (lim mod base') c s i 0 0 =
           Inr (word_of_int (value_from base' 0 ds), if ds = [] then 0 else 1, i + length ds)"
proof -
  have b: "2 \<le> base'" "base' \<le> 36" "list_all (\<lambda>c. digit_value c < base') ds" "base' \<le> digit_value x"
    using n by (simp_all add: number_text_def)
  have "ds \<noteq> []" if "lim < value_from base' 0 ds" using that lim by (auto simp: value_from_def)
  then show ?thesis
    using digits_loop_spec [OF b(1,2) lim(2) b(3,4) cs [symmetric], of 0 0 i] lim(1) by (auto split: if_splits)
qed

lemma word_of_int_div_mod:
  assumes "0 \<le> a" "a < 2 ^ 64" "2 \<le> b" "b \<le> 36"
  shows "(word_of_int a :: u64) div word_of_int b = word_of_int (a div b)" "uint ((word_of_int a :: u64) mod word_of_int b) = a mod b"
proof -
  have u: "uint (word_of_int a :: u64) = a" "uint (word_of_int b :: u64) = b"
    using assms by (simp_all add: uint_word_of_int take_bit_int_eq_self)
  show "(word_of_int a :: u64) div word_of_int b = word_of_int (a div b)" by (simp only: word_div_def u)
  have "a mod b < 2 ^ 64" using assms le_less_trans [OF less_imp_le [OF pos_mod_bound [of b a]], of "2 ^ 64"] by simp
  then show "uint ((word_of_int a :: u64) mod word_of_int b) = a mod b"
    unfolding word_mod_def u using assms by (simp add: uint_word_of_int take_bit_int_eq_self)
qed

text \<open>\<^verbatim>\<open>strtoll\<close> divides the limit minus one and adds one afterwards.\<close>

lemma div_mod_pred:
  fixes l b :: int
  assumes "2 \<le> b"
  shows "(if (l - 1) mod b + 1 = b then ((l - 1) div b + 1, 0) else ((l - 1) div b, (l - 1) mod b + 1)) = (l div b, l mod b)"
proof -
  have l: "l = b * ((l - 1) div b) + ((l - 1) mod b + 1)" by simp
  have r: "0 \<le> (l - 1) mod b" "(l - 1) mod b < b" using assms by simp_all
  show ?thesis
  proof (cases "(l - 1) mod b + 1 = b")
    case True
    then have "l = b * ((l - 1) div b + 1) + 0" using l by (simp add: distrib_left)
    then show ?thesis using True assms int_div_pos_eq [of l b "(l - 1) div b + 1" 0] int_mod_pos_eq [of l b "(l - 1) div b + 1" 0] by simp
  next
    case False
    then show ?thesis using r l int_div_pos_eq [OF l] int_mod_pos_eq [OF l] by simp
  qed
qed

lemmas limit_defs = LONG_MAX_def LONG_MIN_def ULONG_MAX_def LLONG_MAX_def LLONG_MIN_def ULLONG_MAX_def

definition clamp :: "int \<Rightarrow> int \<Rightarrow> int \<Rightarrow> int" where
  "clamp lo hi v = (if v < lo then lo else if hi < v then hi else v)"

lemma conversion:
  assumes n: "number_text base base' pre ds x" and cs: "ds @ x # r = c # s" and lim: "0 \<le> lim" "lim < 2 ^ 64"
  shows "rbind (digits_loop base' (word_of_int (lim div base')) (lim mod base') c s (Suc i) 0 0) (\<lambda>(acc, any, i).
       let acc' = (if any < 0 then f else if neg then - acc else acc) in Inr (acc', any < 0, if any \<noteq> 0 then i - 1 else 0)) =
     Inr (if lim < value_from base' 0 ds then f else word_of_int (if neg then - value_from base' 0 ds else value_from base' 0 ds),
          lim < value_from base' 0 ds, if ds = [] then 0 else i + length ds)"
  using digits_limit [OF assms, of "Suc i"] by (auto split: if_splits)

text \<open>The parts of the conversion functions before the loop give its limit in this form.\<close>

lemma signed_limit:
  "(if neg then - word_of_int LONG_MIN else word_of_int LONG_MAX) = (word_of_int (if neg then - LONG_MIN else LONG_MAX) :: u64)"
  by simp

lemma strtol_spec:
  assumes "list_all space_char ws" "sign_text neg sg" and n: "number_text base base' pre ds x"
  shows "strtol (ws @ sg @ pre @ ds @ x # r) base =
    (let v = (if neg then - value_from base' 0 ds else value_from base' 0 ds) in
     Inr (word_of_int (clamp LONG_MIN LONG_MAX v), v < LONG_MIN \<or> LONG_MAX < v, if ds = [] then 0 else length (ws @ sg @ pre @ ds)))"
    (is "_ = ?r")
proof -
  obtain c s where cs: "ds @ x # r = c # s"
      "read_start (ws @ sg @ pre @ ds @ x # r) base = Inr (neg, base', c, s, Suc (length (ws @ sg @ pre)))"
    using read_start_spec [OF assms, of r] by metis
  define lim where "lim = (if neg then - LONG_MIN else LONG_MAX)"
  have b: "2 \<le> base'" "base' \<le> 36" and lim: "0 \<le> lim" "lim < 2 ^ 64" using n by (simp_all add: number_text_def lim_def limit_defs)
  have nonneg: "0 \<le> value_from base' 0 ds" using value_from_ge [of base' 0 ds] b by simp
  have "strtol (ws @ sg @ pre @ ds @ x # r) base =
      Inr (if lim < value_from base' 0 ds then word_of_int (if neg then LONG_MIN else LONG_MAX)
           else word_of_int (if neg then - value_from base' 0 ds else value_from base' 0 ds),
        lim < value_from base' 0 ds, if ds = [] then 0 else length (ws @ sg @ pre) + length ds)"
    unfolding conversion [OF n cs(1) lim, symmetric]
    by (simp only: strtol_def cs(2) rbind_simps prod.case signed_limit lim_def [symmetric] Let_def word_of_int_div_mod [OF lim b])
  also have "\<dots> = ?r" using nonneg by (cases neg) (auto simp: lim_def clamp_def limit_defs)
  finally show ?thesis .
qed

lemma strtoul_spec:
  assumes "list_all space_char ws" "sign_text neg sg" and n: "number_text base base' pre ds x"
  shows "strtoul (ws @ sg @ pre @ ds @ x # r) base =
    Inr (word_of_int (if ULONG_MAX < value_from base' 0 ds then ULONG_MAX else if neg then - value_from base' 0 ds else value_from base' 0 ds),
      ULONG_MAX < value_from base' 0 ds, if ds = [] then 0 else length (ws @ sg @ pre @ ds))"
proof -
  obtain c s where cs: "ds @ x # r = c # s"
      "read_start (ws @ sg @ pre @ ds @ x # r) base = Inr (neg, base', c, s, Suc (length (ws @ sg @ pre)))"
    using read_start_spec [OF assms, of r] by metis
  have b: "2 \<le> base'" "base' \<le> 36" and lim: "0 \<le> ULONG_MAX" "ULONG_MAX < 2 ^ 64" using n by (simp_all add: number_text_def limit_defs)
  have "strtoul (ws @ sg @ pre @ ds @ x # r) base =
      Inr (if ULONG_MAX < value_from base' 0 ds then word_of_int ULONG_MAX
           else word_of_int (if neg then - value_from base' 0 ds else value_from base' 0 ds),
        ULONG_MAX < value_from base' 0 ds, if ds = [] then 0 else length (ws @ sg @ pre) + length ds)"
    unfolding conversion [OF n cs(1) lim, symmetric]
    by (simp only: strtoul_def cs(2) rbind_simps prod.case Let_def word_of_int_div_mod [OF lim b])
  then show ?thesis by (cases "ULONG_MAX < value_from base' 0 ds") simp_all
qed

lemma strtoull_spec:
  assumes "list_all space_char ws" "sign_text neg sg" and n: "number_text base base' pre ds x"
  shows "strtoull (ws @ sg @ pre @ ds @ x # r) base =
    Inr (word_of_int (if ULLONG_MAX < value_from base' 0 ds then ULLONG_MAX else if neg then - value_from base' 0 ds else value_from base' 0 ds),
      ULLONG_MAX < value_from base' 0 ds, if ds = [] then 0 else length (ws @ sg @ pre @ ds))"
proof -
  obtain c s where cs: "ds @ x # r = c # s"
      "read_start (ws @ sg @ pre @ ds @ x # r) base = Inr (neg, base', c, s, Suc (length (ws @ sg @ pre)))"
    using read_start_spec [OF assms, of r] by metis
  have b: "2 \<le> base'" "base' \<le> 36" and lim: "0 \<le> ULLONG_MAX" "ULLONG_MAX < 2 ^ 64" using n by (simp_all add: number_text_def limit_defs)
  have "strtoull (ws @ sg @ pre @ ds @ x # r) base =
      Inr (if ULLONG_MAX < value_from base' 0 ds then word_of_int ULLONG_MAX
           else word_of_int (if neg then - value_from base' 0 ds else value_from base' 0 ds),
        ULLONG_MAX < value_from base' 0 ds, if ds = [] then 0 else length (ws @ sg @ pre) + length ds)"
    unfolding conversion [OF n cs(1) lim, symmetric]
    by (simp only: strtoull_def cs(2) rbind_simps prod.case Let_def word_of_int_div_mod [OF lim b])
  then show ?thesis by (cases "ULLONG_MAX < value_from base' 0 ds") simp_all
qed

lemma strtoll_spec:
  assumes "list_all space_char ws" "sign_text neg sg" and n: "number_text base base' pre ds x"
  shows "strtoll (ws @ sg @ pre @ ds @ x # r) base =
    (let v = (if neg then - value_from base' 0 ds else value_from base' 0 ds) in
     Inr (word_of_int (clamp LLONG_MIN LLONG_MAX v), v < LLONG_MIN \<or> LLONG_MAX < v, if ds = [] then 0 else length (ws @ sg @ pre @ ds)))"
    (is "_ = ?r")
proof -
  obtain c s where cs: "ds @ x # r = c # s"
      "read_start (ws @ sg @ pre @ ds @ x # r) base = Inr (neg, base', c, s, Suc (length (ws @ sg @ pre)))"
    using read_start_spec [OF assms, of r] by metis
  define lim where "lim = (if neg then - LLONG_MIN else LLONG_MAX)"
  have b: "2 \<le> base'" "base' \<le> 36" and lim: "0 \<le> lim" "lim < 2 ^ 64" and pred: "0 \<le> lim - 1" "lim - 1 < 2 ^ 64"
    using n by (simp_all add: number_text_def lim_def limit_defs)
  have cut: "(if neg then - (LLONG_MIN + 1) else LLONG_MAX - 1) = lim - 1" by (simp add: lim_def)
  have nonneg: "0 \<le> value_from base' 0 ds" using value_from_ge [of base' 0 ds] b by simp
  have split: "(if (lim - 1) mod base' + 1 = base' then (word_of_int ((lim - 1) div base') + 1, 0)
      else (word_of_int ((lim - 1) div base'), (lim - 1) mod base' + 1)) = (word_of_int (lim div base') :: u64, lim mod base')"
  proof (cases "(lim - 1) mod base' + 1 = base'")
    case True
    then have "lim div base' = (lim - 1) div base' + 1" "lim mod base' = 0" using div_mod_pred [OF b(1), of lim] by simp_all
    then show ?thesis using True by simp
  next
    case False
    then show ?thesis using div_mod_pred [OF b(1), of lim] by simp
  qed
  have "strtoll (ws @ sg @ pre @ ds @ x # r) base =
      Inr (if lim < value_from base' 0 ds then word_of_int (if neg then LLONG_MIN else LLONG_MAX)
           else word_of_int (if neg then - value_from base' 0 ds else value_from base' 0 ds),
        lim < value_from base' 0 ds, if ds = [] then 0 else length (ws @ sg @ pre) + length ds)"
    unfolding conversion [OF n cs(1) lim, symmetric]
    by (simp only: strtoll_def cs(2) rbind_simps prod.case cut Let_def word_of_int_div_mod [OF pred b] split)
  also have "\<dots> = ?r" using nonneg by (cases neg) (auto simp: lim_def clamp_def limit_defs)
  finally show ?thesis .
qed

section \<open>Printing\<close>

definition digit_char :: "nat \<Rightarrow> u8" where
  "digit_char i = (if i < 10 then of_nat i + chr CHR ''0'' else of_nat i + chr CHR ''a'' - 10)"

lemma digit_char_value:
  assumes "i < 36"
  shows "digit_value (digit_char i) = int i"
proof -
  have "uint (word_of_int (int i + (if i < 10 then 48 else 87)) :: u8) = int i + (if i < 10 then 48 else 87)"
    using assms by (intro uint_word8) simp_all
  moreover have "digit_char i = word_of_int (int i + (if i < 10 then 48 else 87))"
    by (simp add: digit_char_def)
  ultimately show ?thesis
    using assms by (auto simp: digit_value_def ascii_digit_def ascii_upper_def ascii_lower_def)
qed

lemma value_from_snoc: "value_from base v (ds @ [c]) = value_from base v ds * base + digit_value c"
  by (simp add: value_from_def)

text \<open>The digits of a number below \<open>2 ^ k\<close> need no more than \<open>k\<close> places in any radix, so \<^verbatim>\<open>tmp\<close> is large enough.\<close>

lemma itoa_loop_spec:
  assumes radix: "2 \<le> radix" "radix \<le> 36"
  shows "unat v < 2 ^ k \<Longrightarrow> length tmp + k \<le> 32 \<Longrightarrow> (k = 0 \<longrightarrow> tmp \<noteq> []) \<Longrightarrow>
    \<exists>ds. itoa_loop radix v tmp = Inr (ds @ tmp) \<and> list_all (\<lambda>c. digit_value c < int radix) ds \<and>
      value_from (int radix) 0 ds = uint v \<and> (tmp = [] \<longrightarrow> ds \<noteq> [])"
proof (induction k arbitrary: v tmp)
  case 0
  then show ?case by (subst itoa_loop.simps) (auto simp: value_from_def unat_eq_zero)
next
  case (Suc k)
  show ?case
  proof (cases "v \<noteq> 0 \<or> tmp = []")
    case True
    define v' where "v' = (word_of_nat (unat v div radix) :: u32)"
    define c where "c = digit_char (unat v mod radix)"
    have "unat v div radix \<le> unat v div 2" using radix by (intro div_le_mono2) auto
    then have "unat v div radix < 2 ^ k" using Suc.prems(1) by simp
    moreover have "unat v div radix < 2 ^ 32" 
      using le_less_trans [OF div_le_dividend [of "unat v" radix], of "2 ^ 32"] unsigned_less [of v, where ?'a = nat] by simp
    ultimately have v': "unat v' = unat v div radix" "unat v' < 2 ^ k"
      by (simp_all add: v'_def unat_of_nat take_bit_nat_eq_self)
    obtain ds where ds: "itoa_loop radix v' (c # tmp) = Inr (ds @ c # tmp)" "list_all (\<lambda>c. digit_value c < int radix) ds"
        "value_from (int radix) 0 ds = uint v'"
      using Suc.IH [OF v'(2), of "c # tmp"] Suc.prems(2) by auto
    have "unat v mod radix < radix" using radix by simp
    then have "unat v mod radix < 36" using radix(2) by linarith
    then have c: "digit_value c = int (unat v mod radix)" using digit_char_value by (simp add: c_def)
    have "value_from (int radix) 0 (ds @ [c]) = int (unat v div radix) * int radix + int (unat v mod radix)"
      unfolding value_from_snoc ds(3) c by (simp add: uint_nat v'(1))
    also have "\<dots> = int (unat v)" by (simp only: of_nat_mult [symmetric] of_nat_add [symmetric] div_mult_mod_eq)
    finally have "value_from (int radix) 0 (ds @ [c]) = uint v" by (simp only: uint_nat)
    moreover have "itoa_loop radix v tmp = itoa_loop radix v' (c # tmp)"
      using True Suc.prems(2) by (subst itoa_loop.simps) (simp add: v'_def c_def digit_char_def Let_def)
    ultimately show ?thesis using ds c \<open>unat v mod radix < radix\<close> by (intro exI [of _ "ds @ [c]"]) simp
  next
    case False
    then show ?thesis by (subst itoa_loop.simps) (auto simp: value_from_def)
  qed
qed

lemma uint_minus:
  fixes v :: u32
  assumes "sint v < 0"
  shows "uint (- v) = - sint v"
proof -
  have "- (2 ^ 31) \<le> sint v" using sint_ge [of v] by simp
  then have "(- sint v) mod 2 ^ 32 = - sint v" using assms by (intro mod_pos_pos_trivial) simp_all
  moreover have "- v = word_of_int (- sint v)" by simp
  ultimately show ?thesis using uint_word_of_int [of "- sint v", where ?'a = 32] by (simp add: take_bit_eq_mod)
qed

lemma digit_value_nul [simp]: "digit_value 0 = 36"
  by (simp add: digit_value_def ascii_digit_def ascii_upper_def ascii_lower_def)

text \<open>What \<open>itoa\<close> writes is the text of a number.\<close>

lemma itoa_text:
  assumes radix: "2 \<le> radix" "radix \<le> 36"
  obtains ds where "number_text radix radix [] ds 0" "sign_text (radix = 10 \<and> sint value < 0) (if radix = 10 \<and> sint value < 0 then [chr CHR ''-''] else [])"
    "itoa value radix = Inr (Some ((if radix = 10 \<and> sint value < 0 then [chr CHR ''-''] else []) @ ds @ [0]))"
    "value_from radix 0 ds = (if radix = 10 \<and> sint value < 0 then - sint value else uint value)"
proof -
  define sign where "sign \<longleftrightarrow> radix = 10 \<and> sint value < 0"
  define v where "v = (if sign then - value else value)"
  have "unat v < 2 ^ 32" using unsigned_less [of v, where ?'a = nat] by simp
  then obtain ds where ds: "itoa_loop (nat radix) v [] = Inr ds" "list_all (\<lambda>c. digit_value c < radix) ds" "value_from radix 0 ds = uint v" "ds \<noteq> []"
    using itoa_loop_spec [of "nat radix" v 32 "[]"] radix by (auto simp: nat_le_iff le_nat_iff)
  show ?thesis
  proof
    show "number_text radix radix [] ds 0" using ds radix by (simp add: number_text_def hex_mark_def)
    show "sign_text (radix = 10 \<and> sint value < 0) (if radix = 10 \<and> sint value < 0 then [chr CHR ''-''] else [])"
      by (simp add: sign_text_def)
    show "itoa value radix = Inr (Some ((if radix = 10 \<and> sint value < 0 then [chr CHR ''-''] else []) @ ds @ [0]))"
      using ds(1) radix by (simp add: itoa_def Let_def v_def sign_def)
    show "value_from radix 0 ds = (if radix = 10 \<and> sint value < 0 then - sint value else uint value)"
      using ds(3) uint_minus [of "value"] by (simp add: v_def sign_def)
  qed
qed

section \<open>Radix 64\<close>

lemma low_digit: "v AND 0x3f = take_bit 6 (v :: u64)"
  by (simp add: take_bit_eq_mask mask_numeral)

lemma a64_l64_digit: "a64_digit (l64_digit v) = Some (v AND 0x3f)" "l64_digit v \<noteq> 0"
proof -
  define w where "w = v AND 0x3f"
  have "unat w = take_bit 6 (unat v)"
    unfolding w_def low_digit by (simp only: unsigned_take_bit_eq)
  then have "unat w < 64" by (simp add: take_bit_eq_mod)
  then have "w \<in> set (map word_of_nat [0..<64])" by (force intro!: image_eqI [of _ _ "unat w"])
  moreover have "list_all (\<lambda>n. a64_digit (l64_digit n) = Some n \<and> l64_digit n \<noteq> 0) (map word_of_nat [0..<64])"
    by (simp add: a64_digit_def l64_digit_def upt_rec)
  ultimately have "a64_digit (l64_digit w) = Some w \<and> l64_digit w \<noteq> 0" unfolding list_all_iff by blast
  moreover have "l64_digit v = l64_digit w" by (simp add: l64_digit_def w_def and.assoc)
  ultimately show "a64_digit (l64_digit v) = Some (v AND 0x3f)" "l64_digit v \<noteq> 0" by (simp_all add: w_def)
qed

lemma radix64_spec:
  "unat v < 2 ^ 32 \<Longrightarrow> unat v < 64 ^ n \<Longrightarrow> \<exists>ds. l64a_loop n v s = ds @ s \<and> length ds \<le> n \<and>
     (\<forall>m t. a64l_loop (m + length ds) (ds @ t) 0 = a64l_loop m t v)"
proof (induction n arbitrary: v s)
  case 0
  then have "v = 0" by (simp add: unat_eq_zero)
  then show ?case by simp
next
  case (Suc n)
  show ?case
  proof (cases "v = 0")
    case True
    then show ?thesis by simp
  next
    case False
    define v' where "v' = drop_bit 6 v"
    have v': "unat v' = unat v div 64" unfolding v'_def unat_drop_bit_eq by (simp add: drop_bit_eq_div)
    have "unat v' < 64 ^ n" using Suc.prems(2) by (simp add: v' less_mult_imp_div_less mult.commute)
    moreover have "unat v' < 2 ^ 32" using le_less_trans [OF div_le_dividend [of "unat v" 64] Suc.prems(1)] by (simp only: v')
    ultimately obtain ds where ds: "l64a_loop n v' (l64_digit v # s) = ds @ l64_digit v # s" "length ds \<le> n"
        "\<forall>m t. a64l_loop (m + length ds) (ds @ t) 0 = a64l_loop m t v'"
      using Suc.IH [of v' "l64_digit v # s"] by auto
    have "\<not> v' > drop_bit 6 (word_of_int ULONG_MAX)"
      using Suc.prems(1) v' by (simp add: word_less_nat_alt ULONG_MAX_def)
    then have "a64l_loop (Suc m) (l64_digit v # t) v' = a64l_loop m t (push_bit 6 v' + (v AND 0x3f))" for m t
      by (simp add: a64_l64_digit)
    moreover have "push_bit 6 v' + (v AND 0x3f) = v" unfolding low_digit v'_def by (rule bits_ident)
    ultimately have "a64l_loop (m + length (ds @ [l64_digit v])) ((ds @ [l64_digit v]) @ t) 0 = a64l_loop m t v" for m t
      using ds(3) [rule_format, of "Suc m" "l64_digit v # t"] by (simp del: a64l_loop.simps)
    then show ?thesis using False ds by (intro exI [of _ "ds @ [l64_digit v]"]) (simp add: v'_def [symmetric])
  qed
qed

section \<open>Properties\<close>

text \<open>
  C39. On the text of a number (space, a sign, a prefix, digits, ended by a character that is no digit)
  the four conversion functions return its value and the position behind its last digit. \<open>strtol\<close> and
  \<open>strtoll\<close> return the nearest limit and report a range error exactly when the value is outside their
  limits, which for \<open>strtol\<close> are those of 32 bits; \<open>strtoul\<close> and \<open>strtoull\<close> test the digits and
  negate afterwards. A prefix without digits is not a number: its \<^verbatim>\<open>0\<close> is not taken either.
\<close>

theorem strtol_family:
  assumes "list_all space_char ws" and "sign_text neg sg" and "number_text base base' pre ds x"
  shows "let V = value_from base' 0 ds; v = (if neg then - V else V); text = ws @ sg @ pre @ ds @ x # r;
             n = (if ds = [] then 0 else length (ws @ sg @ pre @ ds)) in
    strtol text base = Inr (word_of_int (clamp LONG_MIN LONG_MAX v), v < LONG_MIN \<or> LONG_MAX < v, n) \<and>
    strtoll text base = Inr (word_of_int (clamp LLONG_MIN LLONG_MAX v), v < LLONG_MIN \<or> LLONG_MAX < v, n) \<and>
    strtoul text base = Inr (word_of_int (if ULONG_MAX < V then ULONG_MAX else v), ULONG_MAX < V, n) \<and>
    strtoull text base = Inr (word_of_int (if ULLONG_MAX < V then ULLONG_MAX else v), ULLONG_MAX < V, n)"
  unfolding Let_def strtol_spec [OF assms] strtoll_spec [OF assms] strtoul_spec [OF assms] strtoull_spec [OF assms] by simp

theorem strtol_family_witness:
  "strtol [32, 45, 48, 120, 49, 70, 0] 0 = Inr (- 31, False, 6) \<and> strtoul [32, 45, 48, 120, 49, 70, 0] 0 = Inr (- 31, False, 6) \<and>
   strtol [50, 49, 52, 55, 52, 56, 51, 54, 52, 56, 0] 10 = Inr (2147483647, True, 10) \<and>
   strtol [48, 120, 103, 0] 16 = Inr (0, False, 0)"
proof -
  have val: "value_from 16 0 [49, 70] = 31" "value_from 10 0 [50, 49, 52, 55, 52, 56, 51, 54, 52, 56] = 2147483648" "value_from 16 0 [] = 0"
    by (simp_all add: value_from_def digit_value_def ascii_digit_def ascii_upper_def ascii_lower_def)
  have ok: "list_all space_char [32]" "sign_text True [45]" "number_text 0 16 [48, 120] [49, 70] 0"
      "list_all space_char []" "sign_text False []" "number_text 10 10 [] [50, 49, 52, 55, 52, 56, 51, 54, 52, 56] 0"
      "number_text 16 16 [48, 120] [] 103"
    by (simp_all add: space_char_def sign_text_def number_text_def hex_mark_def digit_value_def ascii_digit_def ascii_upper_def ascii_lower_def)
  show ?thesis
    using strtol_family [OF ok(1,2,3), of "[]"] strtol_family [OF ok(4,5,6), of "[]"] strtol_family [OF ok(4,5,7), of "[0]"]
    by (simp add: Let_def val clamp_def limit_defs numeral_2_eq_2 [symmetric])
qed



end
