(* ===== verification/Spec2Isabelle.thy ===== *)
theory Spec2Isabelle
  imports Thunk_Ctrl_Props Ctype Cstring_Props Qsort_Props Wchar_Props Tsearch_Props Hsearch_Props Strtol_Props
begin

text \<open>
  A verification of dj64dev: a C library for 32-bit DOS programs whose functions are compiled for
  a 64-bit host. A DOS program calls a library function through a numbered thunk; the host enters
  \<^verbatim>\<open>dj64_call\<close> with the program's registers, the function runs as 64-bit code, may copy arguments
  into DOS memory and call back into the program, and its result goes back in registers. The
  development models that runtime as a whole and, above it, the parts of the library that compute
  on data rather than call the DOS host. File names below are relative to \<^verbatim>\<open>src/\<close>.

  \<^bold>\<open>Conventions.\<close> \<^verbatim>\<open>Prelude\<close> has the result types: stateful code is a function into \<open>exec\<close>, a return
  with a new state, a \<^verbatim>\<open>longjmp\<close> with its target, or a fault; code that only reads or fills a buffer
  returns a fault or a value (\<open>rbind\<close>, \<open>rmap\<close>). A fault is a failed assertion, a null pointer
  dereference or an access outside an object, so a theorem that a function returns is also a theorem
  that it is memory safe. A C string is the bytes from its address to the end of its object.
  Machine integers are words of their width where they can wrap. \<^verbatim>\<open>long\<close> and \<^verbatim>\<open>size_t\<close> have 64 bits,
  but \<^verbatim>\<open>include/limits.h\<close>, which the library is compiled with, gives the limits of a 32-bit \<^verbatim>\<open>long\<close>;
  \<^verbatim>\<open>wchar_t\<close> and \<^verbatim>\<open>wint_t\<close> are signed 32-bit integers. \<^verbatim>\<open>malloc\<close>, the host interface
  (\<^verbatim>\<open>struct dj64_api\<close>, \<^verbatim>\<open>struct elf_ops\<close>) and comparison functions are arguments of the definitions.

  \<^bold>\<open>Thunk runtime.\<close> \<^verbatim>\<open>Djctx\<close> is the macro of \<^verbatim>\<open>include/libc/djctx.h\<close> that keeps one copy of a component's
  static variables per program; the locale \<open>ctx_hook\<close> is what the runtime needs of such a component.
  \<^verbatim>\<open>Thunk_State\<close> is the state of \<^verbatim>\<open>src/libc/dj64/thunks.c\<close> with registration and initialisation,
  \<^verbatim>\<open>Thunk_Call\<close> the calls in both directions and the objects copied to DOS memory, \<^verbatim>\<open>Thunk_Ctrl\<close> the
  loading of an ELF image and the resolution of its thunk tables. The library function that serves a
  call and the DOS code that runs during a callback are arbitrary trees of the calls they make
  (\<open>prog\<close>, \<open>asm\<close>), run by recursion over the tree, so no fuel is needed and a theorem for every tree is
  a theorem for every behaviour.
  \<^verbatim>\<open>Thunk_Inv\<close> and \<^verbatim>\<open>Thunk_Safe\<close> hold the invariant (object tables, counters and the DOS heap agree;
  levels above the current one are empty) and its preservation by every operation. \<^verbatim>\<open>Thunk_Props\<close> and
  \<^verbatim>\<open>Thunk_Ctrl_Props\<close> derive: nothing is held between calls, a call restores every frame, programs
  are isolated from each other, a \<^verbatim>\<open>longjmp\<close> out of any depth is cleaned up, data survive the way to DOS memory
  and back; loading closes what it opens, resolves what it reports resolved and takes over registrations
  exactly.

  \<^bold>\<open>Characters.\<close> \<^verbatim>\<open>Ctype\<close> is the flag and case tables of \<^verbatim>\<open>src/libc/ansi/ctype\<close> and the predicates on
  them, shown equal to the ASCII classes. \<^verbatim>\<open>Wtables\<close> and \<^verbatim>\<open>Wchar\<close> are the wide-character tables,
  predicates, widths and code-page conversions of \<^verbatim>\<open>src/libc/posix/wchar\<close> and \<^verbatim>\<open>ansi/locale\<close>;
  \<^verbatim>\<open>Wchar_Props\<close> shows which table look-ups stay in bounds, that interval searches decide membership,
  what the conversions round-trip, and the consequence of the faulty four-byte sort for them.

  \<^bold>\<open>Strings and numbers.\<close> \<^verbatim>\<open>Cstring\<close> is every string and memory function of \<^verbatim>\<open>ansi/string\<close>,
  \<^verbatim>\<open>compat/string\<close> and \<^verbatim>\<open>posix/string\<close>; \<^verbatim>\<open>Cstring_Props\<close> relates them to operations on lists. \<^verbatim>\<open>Strtol\<close> and
  \<^verbatim>\<open>Strtol_Props\<close> are the conversions between strings and integers, their limits and round trips.

  \<^bold>\<open>Sorting and searching.\<close> \<^verbatim>\<open>Qsort\<close> is \<^verbatim>\<open>qsort.c\<close> and \<^verbatim>\<open>bsearch.c\<close> on the bytes of the array;
  \<^verbatim>\<open>Qsort_Props\<close> proves the sort in the locale \<open>sort_array\<close> and interprets it on the bytes for every width
  but four, where the code is wrong. \<^verbatim>\<open>Tsearch\<close> is the balanced trees of \<^verbatim>\<open>tsearch_avl.c\<close>, refined by
  \<^verbatim>\<open>Tsearch_Props\<close> to ascending sequences, with the height bound. \<^verbatim>\<open>Hsearch\<close> is the hash table of
  \<^verbatim>\<open>hcreate.c\<close>, refined by \<^verbatim>\<open>Hsearch_Props\<close> to a map.

  \<^bold>\<open>Loops.\<close> No definition has fuel. Loops over an array or a string are recursion over it, or have a
  termination proof by a measure (the quicksort on the length of its segment, \<^verbatim>\<open>itoa\<close> on the number). The
  probing loop of \<^verbatim>\<open>hsearch\<close> is a partial function whose return is a theorem: an odd step visits every slot of
  a table whose size is a power of two.

  \<^bold>\<open>Not modelled.\<close> Code that only exchanges registers with DOS, the BIOS, DPMI or the hardware (\<^verbatim>\<open>dos\<close>,
  \<^verbatim>\<open>bios\<close>, \<^verbatim>\<open>dpmi\<close>, \<^verbatim>\<open>go32\<close>, \<^verbatim>\<open>pc_hw\<close>, \<^verbatim>\<open>termios\<close>, sockets) has no behaviour but the host's. Streams, files and
  formatted output rest on it. Floating point (\<^verbatim>\<open>math\<close>, \<^verbatim>\<open>strtod\<close>, the conversions of \<^verbatim>\<open>doprnt\<close>)
  needs an x87 theory. The allocator is the included \<^verbatim>\<open>nmalloc.inc\<close>, of which the callers only use
  that a block is fresh or absent. Regular expressions, time zones, signals, \<^verbatim>\<open>setjmp\<close>, the FPU
  emulator and dynamic loading are machine code, data from files, or code on pointers into untyped
  memory. Of \<^verbatim>\<open>thunks.c\<close> the printing helpers and the address translation, which is a host call, are left out.
  \<^verbatim>\<open>contrib\<close> and \<^verbatim>\<open>demos\<close> are not part of the library.
\<close>

end
